(* ===== verification/Prelude.thy ===== *)
theory Prelude
  imports Main "HOL-Library.State_Monad" "HOL-Library.Word"
begin

text \<open>
  What every theory of the development shares: the Go integer types at their width, the
  state monad in which the controllers' effects are written, and the idiom
  \<^verbatim>\<open>if err := ...; err != nil { return err }\<close> as one combinator. A program of type \<open>('w, 'a) state\<close> transforms a world \<open>'w\<close> (the API
  server, the clock, every other actor) and returns a value; an error return of the Go code is
  the left summand of \<open>goError + 'a\<close>.
\<close>

subsection \<open>Go integers\<close>

type_synonym int32 = "32 word"
type_synonym int64 = "64 word"

named_theorems goint \<open>signed readings of Go integer operations that do not wrap\<close>

lemma sint32_range: "- (2 ^ 31) \<le> sint (x :: int32) \<and> sint x < 2 ^ 31"
  using sint_greater_eq [of x] sint_less [of x] by simp

lemma sint64_range: "- (2 ^ 63) \<le> sint (x :: int64) \<and> sint x < 2 ^ 63"
  using sint_greater_eq [of x] sint_less [of x] by simp

lemma sint32_of_int [goint]:
  "- (2 ^ 31) \<le> i \<Longrightarrow> i < 2 ^ 31 \<Longrightarrow> sint (word_of_int i :: int32) = i"
  by (simp add: signed_of_int signed_take_bit_int_eq_self)

lemma sint64_of_int [goint]:
  "- (2 ^ 63) \<le> i \<Longrightarrow> i < 2 ^ 63 \<Longrightarrow> sint (word_of_int i :: int64) = i"
  by (simp add: signed_of_int signed_take_bit_int_eq_self)

lemma sint32_of_nat [goint]: "n < 2 ^ 31 \<Longrightarrow> sint (of_nat n :: int32) = int n"
  using sint32_of_int [of "int n"] by simp

lemma sint32_add [goint]:
  "- (2 ^ 31) \<le> sint (x :: int32) + sint y \<Longrightarrow> sint x + sint y < 2 ^ 31
    \<Longrightarrow> sint (x + y) = sint x + sint y"
  using sint32_of_int [of "sint x + sint y"] by simp

lemma sint32_diff [goint]:
  "- (2 ^ 31) \<le> sint (x :: int32) - sint y \<Longrightarrow> sint x - sint y < 2 ^ 31
    \<Longrightarrow> sint (x - y) = sint x - sint y"
  using sint32_of_int [of "sint x - sint y"] by simp

text \<open>An increment guarded by a signed comparison cannot wrap: the loops' counters.\<close>

lemma sint32_incr [goint]: "x <s (y :: int32) \<Longrightarrow> sint (x + 1) = sint x + 1"
proof -
  assume "x <s y"
  then have "sint x < sint y" by (simp add: word_sless_alt)
  then have "sint x + 1 < 2 ^ 31" using sint32_range [of y] by linarith
  then show ?thesis using sint32_range [of x] sint32_add [of x 1] by simp
qed

lemma sless_of_nat: "n < 2 ^ 31 \<Longrightarrow> (of_nat n :: int32) <s m \<longleftrightarrow> int n < sint m"
  by (simp add: word_sless_alt sint32_of_nat)

lemma sless_of_nats: "m < 2 ^ 31 \<Longrightarrow> n < 2 ^ 31 \<Longrightarrow> (of_nat m :: int32) <s of_nat n \<longleftrightarrow> m < n"
  by (simp add: word_sless_alt sint32_of_nat)

subsection \<open>Programs, error returns\<close>

abbreviation ret :: "'a \<Rightarrow> ('w, 'a) state" where
  "ret \<equiv> State_Monad.return"

text \<open>
  The errors the API client returns, as far as the code tells them apart
  (\<open>apierrors.IsNotFound\<close>, \<open>apierrors.IsConflict\<close>); any other error is opaque. A Go
  run-time panic is recovered by the manager and reported like an error.
\<close>

datatype goError = ErrNotFound | ErrConflict | ErrOther string | Panicked string

definition tryE :: "('w, 'e + 'a) state \<Rightarrow> ('a \<Rightarrow> ('w, 'e + 'b) state) \<Rightarrow> ('w, 'e + 'b) state" where
  \<comment> \<open>\<^verbatim>\<open>x, err := m; if err != nil { return err }; f(x)\<close>\<close>
  "tryE m f = do { r \<leftarrow> m; (case r of Inl e \<Rightarrow> ret (Inl e) | Inr x \<Rightarrow> f x) }"

lemma run_tryE [simp]:
  "run_state (tryE m f) w =
     (case run_state m w of (r, w') \<Rightarrow>
        (case r of Inl e \<Rightarrow> (Inl e, w') | Inr x \<Rightarrow> run_state (f x) w'))"
  by (auto simp: tryE_def split: prod.splits sum.splits)

subsection \<open>Lists\<close>

lemma find_SomeD: "find P xs = Some x \<Longrightarrow> x \<in> set xs \<and> P x"
  by (induction xs) (auto split: if_splits)

subsection \<open>Values kept as text\<close>

locale codec =
  fixes enc :: "'a \<Rightarrow> string" and dec :: "string \<Rightarrow> 'b option" and view :: "'a \<Rightarrow> 'b" and fits :: "'a \<Rightarrow> bool"
  assumes dec_enc: "fits a \<Longrightarrow> dec (enc a) = Some (view a)"
begin

text \<open>A map entry written with \<open>enc\<close> and read with a default for what is missing or malformed.\<close>

lemma read_entry:
  "fits a \<Longrightarrow> m key = Some (enc a) \<Longrightarrow>
     (case m key of None \<Rightarrow> d | Some s \<Rightarrow> (case dec s of None \<Rightarrow> d | Some b \<Rightarrow> b)) = view a"
  by (simp add: dec_enc)

end

end
