(* ===== verification/Go_Std.thy ===== *)
theory Go_Std
  imports Prelude
begin

text \<open>
  The parts of Go's standard library the program computes with, but for package \<open>time\<close>:
  \<open>strconv.Itoa\<close> and \<open>strconv.Atoi\<close>, and the \<open>%q\<close> and \<open>%d\<close> verbs of \<open>fmt.Sprintf\<close>.
\<close>

subsection \<open>Decimal numbers\<close>

definition digitChar :: "nat \<Rightarrow> char" where
  "digitChar d = char_of (48 + d)"

definition isDigit :: "char \<Rightarrow> bool" where
  "isDigit c \<longleftrightarrow> 48 \<le> (of_char c :: nat) \<and> (of_char c :: nat) \<le> 57"

definition digitVal :: "char \<Rightarrow> nat" where
  "digitVal c = of_char c - 48"

fun natToString :: "nat \<Rightarrow> string" where
  "natToString n =
     (if n < 10 then [digitChar n] else natToString (n div 10) @ [digitChar (n mod 10)])"

declare natToString.simps [simp del]

definition itoa :: "int \<Rightarrow> string" where
  "itoa i = (if i < 0 then CHR ''-'' # natToString (nat (- i)) else natToString (nat i))"

definition digitsVal :: "string \<Rightarrow> nat" where
  "digitsVal s = foldl (\<lambda>n c. 10 * n + digitVal c) 0 s"

definition atoi :: "string \<Rightarrow> int64 option" where
  \<comment> \<open>an optional sign, then decimal digits only; a value out of range is an error\<close>
  "atoi s =
     (let (neg, ds) = (case s of
          [] \<Rightarrow> (False, [])
        | c # cs \<Rightarrow> if c = CHR ''-'' then (True, cs)
                    else if c = CHR ''+'' then (False, cs) else (False, s))
      in if ds = [] \<or> \<not> list_all isDigit ds then None
         else let v = (if neg then - int (digitsVal ds) else int (digitsVal ds))
              in if - (2 ^ 63) \<le> v \<and> v < 2 ^ 63 then Some (word_of_int v) else None)"

lemma of_char_digitChar: "d < 10 \<Longrightarrow> (of_char (digitChar d) :: nat) = 48 + d"
  by (simp add: digitChar_def)

lemma isDigit_digitChar [simp]: "d < 10 \<Longrightarrow> isDigit (digitChar d)"
  by (simp add: isDigit_def of_char_digitChar)

lemma digitVal_digitChar [simp]: "d < 10 \<Longrightarrow> digitVal (digitChar d) = d"
  by (simp add: digitVal_def of_char_digitChar)

lemma digitsVal_snoc: "digitsVal (s @ [c]) = 10 * digitsVal s + digitVal c"
  by (simp add: digitsVal_def)

lemma natToString_digits: "list_all isDigit (natToString n)"
  by (induction n rule: natToString.induct) (subst natToString.simps, simp)

lemma natToString_nonempty: "natToString n \<noteq> []"
  by (subst natToString.simps) simp

lemma digitsVal_natToString: "digitsVal (natToString n) = n"
proof (induction n rule: natToString.induct)
  case (1 n)
  show ?case
  proof (cases "n < 10")
    case True
    then show ?thesis by (subst natToString.simps) (simp add: digitsVal_def)
  next
    case False
    then show ?thesis
      using 1 by (subst natToString.simps) (simp add: digitsVal_snoc)
  qed
qed

lemma natToString_no_sign:
  assumes "natToString n = c # cs"
  shows "c \<noteq> CHR ''-'' \<and> c \<noteq> CHR ''+''"
proof -
  have "isDigit c" using natToString_digits [of n] assms by simp
  then show ?thesis by (auto simp: isDigit_def)
qed

lemma atoi_itoa: "atoi (itoa (sint w)) = Some w"
proof (cases "sint w < 0")
  case True
  have "int (nat (- sint w)) = - sint w" using True by simp
  then show ?thesis
    using True sint64_range [of w] natToString_nonempty natToString_digits
    by (simp add: atoi_def itoa_def digitsVal_natToString)
next
  case False
  obtain c cs where c: "natToString (nat (sint w)) = c # cs"
    using natToString_nonempty by (cases "natToString (nat (sint w))") auto
  have "digitsVal (c # cs) = nat (sint w)" using digitsVal_natToString c by metis
  moreover have "list_all isDigit (c # cs)" using natToString_digits c by metis
  ultimately show ?thesis
    using False sint64_range [of w] natToString_no_sign [OF c]
    by (simp add: atoi_def itoa_def c)
qed

text \<open>Executable on binary integers.\<close>

function intString :: "int \<Rightarrow> string" where
  "intString i = (if i < 10 then [digitChar (nat i)] else intString (i div 10) @ [digitChar (nat (i mod 10))])"
  by pat_completeness auto
termination by (relation "measure nat") auto

declare intString.simps [simp del]

lemma natToString_intString: "natToString n = intString (int n)"
proof (induction n rule: natToString.induct)
  case (1 n)
  then show ?case
    by (subst natToString.simps, subst intString.simps) (simp add: zdiv_int zmod_int nat_mod_distrib)
qed

lemma itoa_code [code]: "itoa i = (if i < 0 then CHR ''-'' # intString (- i) else intString i)"
  by (simp add: itoa_def natToString_intString)

lemma digitsVal_code [code_unfold]: "int (digitsVal s) = foldl (\<lambda>n c. 10 * n + int (digitVal c)) 0 s"
proof -
  have "int (foldl (\<lambda>n c. 10 * n + digitVal c) a s) = foldl (\<lambda>n c. 10 * n + int (digitVal c)) (int a) s" for a
    by (induction s arbitrary: a) simp_all
  from this [of 0] show ?thesis by (simp add: digitsVal_def)
qed

interpretation decimal: codec "\<lambda>w :: int64. itoa (sint w)" atoi "\<lambda>w. w" "\<lambda>_. True"
  by unfold_locales (simp add: atoi_itoa)

subsection \<open>The verbs of Sprintf\<close>

definition hexChar :: "nat \<Rightarrow> char" where
  "hexChar d = (if d < 10 then char_of (48 + d) else char_of (87 + d))"

definition quoteChar :: "char \<Rightarrow> string" where
  \<comment> \<open>\<open>%q\<close> on one ASCII character; a byte of a printable UTF-8 sequence is copied\<close>
  "quoteChar c =
     (let n = (of_char c :: nat) in
      if c = CHR 0x22 \<or> c = CHR 0x5C then [CHR 0x5C, c]
      else if n = 7 then CHR 0x5C # ''a'' else if n = 8 then CHR 0x5C # ''b''
      else if n = 9 then CHR 0x5C # ''t'' else if n = 10 then CHR 0x5C # ''n''
      else if n = 11 then CHR 0x5C # ''v'' else if n = 12 then CHR 0x5C # ''f''
      else if n = 13 then CHR 0x5C # ''r''
      else if n < 32 \<or> n = 127 then CHR 0x5C # CHR ''x'' # [hexChar (n div 16), hexChar (n mod 16)]
      else [c])"

definition goQuote :: "string \<Rightarrow> string" where
  "goQuote s = [CHR 0x22] @ concat (map quoteChar s) @ [CHR 0x22]"

end
