(* ===== verification/Go_Time.thy ===== *)
theory Go_Time
  imports Go_Std
begin

text \<open>
  Package \<open>time\<close> as the controllers use it: durations at their 64-bit width, arithmetic on
  instants, and the RFC3339 layout of the recovery annotations, printed by \<open>Time.Format\<close>
  and read back by \<open>time.Parse\<close>. The local zone is a fixed offset in minutes east of UTC.
\<close>

subsection \<open>Instants and durations\<close>

type_synonym time = int
type_synonym duration = int64

definition time_Second :: duration where "time_Second = 1000000000"

definition zeroTime :: time where "zeroTime = 0"

definition isZeroTime :: "time \<Rightarrow> bool" where "isZeroTime t \<longleftrightarrow> t = 0"

definition timeAdd :: "time \<Rightarrow> duration \<Rightarrow> time" where "timeAdd t d = t + sint d"

definition timeSub :: "time \<Rightarrow> time \<Rightarrow> duration" where
  \<comment> \<open>\<open>Time.Sub\<close> saturates at the largest and smallest Duration\<close>
  "timeSub t u = word_of_int (max (- (2 ^ 63)) (min (2 ^ 63 - 1) (t - u)))"

definition truncSecond :: "time \<Rightarrow> time" where
  \<comment> \<open>what a timestamp keeps once it has been written with a resolution of one second\<close>
  "truncSecond t = t - t mod 1000000000"

lemma sint_timeSub_pos: "0 < sint (timeSub t u) \<longleftrightarrow> u < t"
proof -
  let ?v = "max (- (2 ^ 63)) (min (2 ^ 63 - 1) (t - u))"
  have "sint (word_of_int ?v :: int64) = ?v" by (rule sint64_of_int) auto
  then show ?thesis by (auto simp: timeSub_def)
qed

lemma truncSecond_idem [simp]: "truncSecond (truncSecond t) = truncSecond t"
  by (simp add: truncSecond_def)

subsection \<open>The calendar\<close>

definition isLeap :: "int \<Rightarrow> bool" where
  "isLeap y \<longleftrightarrow> y mod 4 = 0 \<and> (y mod 100 \<noteq> 0 \<or> y mod 400 = 0)"

definition monthLengths :: "int \<Rightarrow> int list" where
  "monthLengths y = [31, if isLeap y then 29 else 28, 31, 30, 31, 30, 31, 31, 30, 31, 30, 31]"

definition daysBeforeYear :: "int \<Rightarrow> int" where
  "daysBeforeYear y = (let p = y - 1 in 365 * p + p div 4 - p div 100 + p div 400)"

lemma div_step:
  fixes y d :: int
  assumes "0 < d"
  shows "y div d = (y - 1) div d + (if y mod d = 0 then 1 else 0)"
proof (cases "y mod d = 0")
  case True
  then have "y - 1 = d * (y div d - 1) + (d - 1)"
    using mult_div_mod_eq [of d y] by (simp add: algebra_simps)
  then have "(y - 1) div d = y div d - 1"
    using assms by (intro int_div_pos_eq [where r = "d - 1"]) auto
  with True show ?thesis by simp
next
  case False
  have "0 \<le> y mod d - 1" and "y mod d - 1 < d"
    using False assms pos_mod_sign [of d y] pos_mod_bound [of d y] by linarith+
  moreover have "y - 1 = d * (y div d) + (y mod d - 1)" by simp
  ultimately have "(y - 1) div d = y div d" 
    by (intro int_div_pos_eq [where r = "y mod d - 1"])
  with False show ?thesis by simp
qed

lemma daysBeforeYear_Suc: "daysBeforeYear (y + 1) = daysBeforeYear y + (if isLeap y then 366 else 365)"
proof -
  have "y mod 100 mod 4 = y mod 4" and "y mod 400 mod 100 = y mod 100"
    by (rule mod_mod_cancel; simp)+
  then have m: "y mod 100 = 0 \<longrightarrow> y mod 4 = 0" "y mod 400 = 0 \<longrightarrow> y mod 100 = 0"
    by (metis mod_0)+
  have key: "365 * y + a - b + c = 365 * (y - 1) + a' - b' + c' + (if P \<and> (\<not> Q \<or> R) then 366 else 365)"
    if "a = a' + (if P then 1 else 0)" "b = b' + (if Q then 1 else 0)"
      "c = c' + (if R then 1 else 0)" "Q \<longrightarrow> P" "R \<longrightarrow> Q"
    for a b c a' b' c' y :: int and P Q R
    using that by (cases P; cases Q; cases R) simp_all
  show ?thesis
    unfolding daysBeforeYear_def Let_def isLeap_def add_diff_cancel_right'
    by (rule key [OF div_step [of 4, OF zero_less_numeral] div_step [of 100, OF zero_less_numeral]
          div_step [of 400, OF zero_less_numeral] m])
qed

lemma sum_monthLengths: "sum_list (monthLengths y) = (if isLeap y then 366 else 365)"
  by (simp add: monthLengths_def)

lemma daysBeforeYear_bounds:
  assumes "1 \<le> y"
  shows "365 * (y - 1) \<le> daysBeforeYear y" and "daysBeforeYear y \<le> 366 * (y - 1)"
proof -
  have p: "0 \<le> y - 1" using assms by simp
  have "(y - 1) div 100 \<le> (y - 1) div 4" and "(y - 1) div 400 \<le> (y - 1) div 100"
    and "(y - 1) div 4 \<le> (y - 1) div 1"
    by (rule zdiv_mono2 [OF p]; simp)+
  moreover have "0 \<le> (y - 1) div 400" using p by (simp add: pos_imp_zdiv_nonneg_iff)
  moreover have "365 * p \<le> 365 * p + a - b + c \<and> 365 * p + a - b + c \<le> 366 * p"
    if "b \<le> a" "c \<le> b" "a \<le> p" "0 \<le> c" for a b c p :: int
    using that by linarith
  ultimately show "365 * (y - 1) \<le> daysBeforeYear y" and "daysBeforeYear y \<le> 366 * (y - 1)"
    unfolding daysBeforeYear_def Let_def div_by_1 by blast+
qed

lemma daysBeforeYear_mono: "y \<le> z \<Longrightarrow> daysBeforeYear y \<le> daysBeforeYear z"
proof (induction z rule: int_ge_induct)
  case base
  show ?case by simp
next
  case (step z)
  then show ?case using daysBeforeYear_Suc [of z] by (auto split: if_splits)
qed

function yearFrom :: "int \<Rightarrow> int \<Rightarrow> int" where
  "yearFrom y n = (if 0 < y \<and> daysBeforeYear (y + 1) \<le> n then yearFrom (y + 1) n else y)"
  by pat_completeness auto
termination
proof (relation "measure (\<lambda>(y, n). nat (n + 2 - y))", goal_cases)
  case (2 y n)
  then show ?case using daysBeforeYear_bounds [of "y + 1"] by auto
qed simp

declare yearFrom.simps [simp del]

definition yearOfDay :: "int \<Rightarrow> int" where "yearOfDay n = yearFrom (n div 366 + 1) n"

fun splitMonth :: "int list \<Rightarrow> int \<Rightarrow> int \<Rightarrow> int \<times> int" where
  "splitMonth [] m d = (m, d)"
| "splitMonth (l # ls) m d = (if d < l then (m, d) else splitMonth ls (m + 1) (d - l))"

lemma yearFrom_bounds:
  "0 < y \<Longrightarrow> daysBeforeYear y \<le> n
    \<Longrightarrow> 0 < yearFrom y n \<and> daysBeforeYear (yearFrom y n) \<le> n \<and> n < daysBeforeYear (yearFrom y n + 1)"
proof (induction y n rule: yearFrom.induct)
  case (1 y n)
  show ?case
  proof (cases "daysBeforeYear (y + 1) \<le> n")
    case True
    with 1 show ?thesis by (simp add: yearFrom.simps [of y n])
  next
    case False
    with 1 show ?thesis by (simp add: yearFrom.simps [of y n])
  qed
qed

lemma yearOfDay_bounds:
  assumes "0 \<le> n"
  shows "0 < yearOfDay n" and "daysBeforeYear (yearOfDay n) \<le> n" and "n < daysBeforeYear (yearOfDay n + 1)"
proof -
  have q: "0 \<le> n div 366" using assms by (simp add: pos_imp_zdiv_nonneg_iff)
  then have "daysBeforeYear (n div 366 + 1) \<le> 366 * (n div 366)"
    using daysBeforeYear_bounds [of "n div 366 + 1"] by simp
  moreover have "366 * (n div 366) \<le> n" using mult_div_mod_eq [of 366 n] pos_mod_sign [of 366 n] by linarith
  moreover have "0 < n div 366 + 1" using q by simp
  ultimately show "0 < yearOfDay n" and "daysBeforeYear (yearOfDay n) \<le> n"
    and "n < daysBeforeYear (yearOfDay n + 1)"
    using yearFrom_bounds [of "n div 366 + 1" n] by (auto simp: yearOfDay_def)
qed

lemma splitMonth_spec:
  "0 \<le> d \<Longrightarrow> d < sum_list ls \<Longrightarrow> splitMonth ls m d = (m', d') \<Longrightarrow>
     m \<le> m' \<and> nat (m' - m) < length ls \<and> 0 \<le> d' \<and> d' < ls ! nat (m' - m) \<and>
     d = sum_list (take (nat (m' - m)) ls) + d'"
proof (induction ls arbitrary: m d)
  case Nil
  then show ?case by simp
next
  case (Cons l ls)
  show ?case
  proof (cases "d < l")
    case True
    with Cons.prems show ?thesis by auto
  next
    case False
    with Cons.prems have IH: "m + 1 \<le> m' \<and> nat (m' - (m + 1)) < length ls \<and> 0 \<le> d' \<and>
        d' < ls ! nat (m' - (m + 1)) \<and> d - l = sum_list (take (nat (m' - (m + 1))) ls) + d'"
      by (intro Cons.IH) auto
    then have "nat (m' - m) = Suc (nat (m' - (m + 1)))" by auto
    with IH False show ?thesis by auto
  qed
qed

definition dayOfCivil :: "int \<Rightarrow> int \<Rightarrow> int \<Rightarrow> int" where
  "dayOfCivil y m d = daysBeforeYear y + sum_list (take (nat (m - 1)) (monthLengths y)) + (d - 1)"

definition civil :: "int \<Rightarrow> int \<times> int \<times> int" where
  "civil n =
     (let y = yearOfDay n; (m, d) = splitMonth (monthLengths y) 1 (n - daysBeforeYear y)
      in (y, m, d + 1))"

lemma length_monthLengths [simp]: "length (monthLengths y) = 12"
  by (simp add: monthLengths_def)

lemma monthLengths_le: "i < 12 \<Longrightarrow> monthLengths y ! i \<le> 31"
proof -
  assume "i < 12"
  then have "monthLengths y ! i \<in> set (monthLengths y)" by simp
  then show ?thesis by (auto simp: monthLengths_def split: if_splits)
qed

lemma civil_correct:
  assumes "0 \<le> n" and "civil n = (y, m, d)"
  shows "0 < y" and "1 \<le> m" and "m \<le> 12" and "1 \<le> d" and "d \<le> monthLengths y ! nat (m - 1)"
    and "dayOfCivil y m d = n" and "daysBeforeYear y \<le> n" and "n < daysBeforeYear (y + 1)"
proof -
  have y: "y = yearOfDay n" and s: "splitMonth (monthLengths y) 1 (n - daysBeforeYear y) = (m, d - 1)"
    using assms(2) by (auto simp: civil_def Let_def split: prod.splits)
  show "0 < y" and lo: "daysBeforeYear y \<le> n" and hi: "n < daysBeforeYear (y + 1)"
    using yearOfDay_bounds [OF assms(1)] y by auto
  have "n - daysBeforeYear y < sum_list (monthLengths y)"
    using hi daysBeforeYear_Suc [of y] by (simp add: sum_monthLengths)
  then show "1 \<le> m" and "m \<le> 12" and "1 \<le> d" and "d \<le> monthLengths y ! nat (m - 1)"
    and "dayOfCivil y m d = n"
    using splitMonth_spec [OF _ _ s] lo by (auto simp: dayOfCivil_def)
qed

subsection \<open>RFC3339\<close>

fun fixedDigits :: "nat \<Rightarrow> nat \<Rightarrow> string" where
  "fixedDigits 0 n = []"
| "fixedDigits (Suc k) n = fixedDigits k (n div 10) @ [digitChar (n mod 10)]"

definition zoneSuffix :: "int \<Rightarrow> string" where
  "zoneSuffix off =
     (if off = 0 then ''Z''
      else (if off < 0 then CHR ''-'' else CHR ''+'') # fixedDigits 2 (nat (\<bar>off\<bar> div 60))
             @ '':'' @ fixedDigits 2 (nat (\<bar>off\<bar> mod 60)))"

definition formatRFC3339 :: "int \<Rightarrow> time \<Rightarrow> string" where
  "formatRFC3339 off t =
     (let s = t div 1000000000 + off * 60; (y, m, d) = civil (s div 86400); r = s mod 86400
      in (if y < 10000 then fixedDigits 4 (nat y) else natToString (nat y)) @ ''-''
           @ fixedDigits 2 (nat m) @ ''-'' @ fixedDigits 2 (nat d) @ ''T''
           @ fixedDigits 2 (nat (r div 3600)) @ '':'' @ fixedDigits 2 (nat (r mod 3600 div 60)) @ '':''
           @ fixedDigits 2 (nat (r mod 60)) @ zoneSuffix off)"

definition getDigits :: "nat \<Rightarrow> string \<Rightarrow> (int \<times> string) option" where
  "getDigits k s =
     (if k \<le> length s \<and> list_all isDigit (take k s)
      then Some (int (digitsVal (take k s)), drop k s) else None)"

definition expectChar :: "char \<Rightarrow> string \<Rightarrow> string option" where
  "expectChar c s = (case s of [] \<Rightarrow> None | x # xs \<Rightarrow> if x = c then Some xs else None)"

definition getHour :: "string \<Rightarrow> (int \<times> string) option" where
  "getHour s = (case getDigits 2 s of None \<Rightarrow> getDigits 1 s | Some r \<Rightarrow> Some r)"

definition getFraction :: "string \<Rightarrow> int \<times> string" where
  \<comment> \<open>a fractional second is accepted although the layout has none; nine digits count\<close>
  "getFraction s =
     (case s of
        c # d # r \<Rightarrow>
          if (c = CHR ''.'' \<or> c = CHR '','') \<and> isDigit d
          then let ds = take 9 (takeWhile isDigit (d # r))
               in (int (digitsVal ds) * 10 ^ (9 - length ds), dropWhile isDigit (d # r))
          else (0, s)
      | _ \<Rightarrow> (0, s))"

definition getZone :: "string \<Rightarrow> (int \<times> string) option" where
  \<comment> \<open>the offset east of UTC in seconds\<close>
  "getZone s =
     (case s of
        [] \<Rightarrow> None
      | c # r \<Rightarrow>
          if c = CHR ''Z'' then Some (0, r)
          else if c = CHR ''+'' \<or> c = CHR ''-'' then do {
            (hh, r) \<leftarrow> getDigits 2 r;
            r \<leftarrow> expectChar CHR '':'' r;
            (mm, r) \<leftarrow> getDigits 2 r;
            (if 24 < hh \<or> 60 < mm then None
             else Some (if c = CHR ''-'' then - (hh * 60 + mm) * 60 else (hh * 60 + mm) * 60, r))
          } else None)"

definition parseRFC3339 :: "string \<Rightarrow> time option" where
  "parseRFC3339 s = do {
     (y, s) \<leftarrow> getDigits 4 s;
     s \<leftarrow> expectChar CHR ''-'' s;
     (m, s) \<leftarrow> getDigits 2 s;
     s \<leftarrow> expectChar CHR ''-'' s;
     (d, s) \<leftarrow> getDigits 2 s;
     s \<leftarrow> expectChar CHR ''T'' s;
     (hh, s) \<leftarrow> getHour s;
     s \<leftarrow> expectChar CHR '':'' s;
     (mi, s) \<leftarrow> getDigits 2 s;
     s \<leftarrow> expectChar CHR '':'' s;
     (se, s) \<leftarrow> getDigits 2 s;
     (let (ns, s) = getFraction s in do {
        (off, s) \<leftarrow> getZone s;
        (if s \<noteq> [] \<or> m < 1 \<or> 12 < m \<or> d < 1 \<or> monthLengths y ! nat (m - 1) < d
            \<or> 24 \<le> hh \<or> 60 \<le> mi \<or> 60 \<le> se then None
         else Some ((dayOfCivil y m d * 86400 + hh * 3600 + mi * 60 + se - off) * 1000000000 + ns))
     })
   }"

subsubsection \<open>Reading back what was printed\<close>

lemma length_fixedDigits [simp]: "length (fixedDigits k n) = k"
  by (induction k arbitrary: n) auto

lemma fixedDigits_digits [simp]: "list_all isDigit (fixedDigits k n)"
  by (induction k arbitrary: n) auto

lemma digitsVal_fixedDigits: "n < 10 ^ k \<Longrightarrow> digitsVal (fixedDigits k n) = n"
proof (induction k arbitrary: n)
  case 0
  then show ?case by (simp add: digitsVal_def)
next
  case (Suc k)
  then have "n div 10 < 10 ^ k" by (simp add: less_mult_imp_div_less mult.commute)
  then show ?case using Suc.IH by (simp add: digitsVal_snoc)
qed

lemma getDigits_fixedDigits: "n < 10 ^ k \<Longrightarrow> getDigits k (fixedDigits k n @ r) = Some (int n, r)"
  by (simp add: getDigits_def digitsVal_fixedDigits)

lemma getHour_fixedDigits: "n < 100 \<Longrightarrow> getHour (fixedDigits 2 n @ r) = Some (int n, r)"
  using getDigits_fixedDigits [of n 2 r] by (simp add: getHour_def)

lemma getZone_zoneSuffix: "\<bar>off\<bar> < 1440 \<Longrightarrow> getZone (zoneSuffix off) = Some (off * 60, [])"
proof -
  assume off: "\<bar>off\<bar> < 1440"
  have d: "getDigits 2 (fixedDigits 2 (nat (\<bar>off\<bar> div 60)) @ r) = Some (\<bar>off\<bar> div 60, r)" for r
    using getDigits_fixedDigits [of "nat (\<bar>off\<bar> div 60)" 2 r] off by (simp add: pos_imp_zdiv_nonneg_iff)
  have m: "getDigits 2 (fixedDigits 2 (nat (\<bar>off\<bar> mod 60))) = Some (\<bar>off\<bar> mod 60, [])"
    using getDigits_fixedDigits [of "nat (\<bar>off\<bar> mod 60)" 2 "[]"] pos_mod_bound [of 60 "\<bar>off\<bar>"]
    by simp
  have "\<not> 24 < \<bar>off\<bar> div 60" and "\<not> 60 < \<bar>off\<bar> mod 60" and "\<bar>off\<bar> div 60 * 60 + \<bar>off\<bar> mod 60 = \<bar>off\<bar>"
    using off pos_mod_bound [of 60 "\<bar>off\<bar>"] by auto
  then show ?thesis
    using d m by (auto simp: zoneSuffix_def getZone_def expectChar_def abs_if split: if_splits)
qed

lemma getFraction_zoneSuffix: "getFraction (zoneSuffix off) = (0, zoneSuffix off)"
  by (auto simp: getFraction_def zoneSuffix_def split: list.splits)

lemma expectChar_hd [simp]: "expectChar c (c # s) = Some s"
  by (simp add: expectChar_def)

lemma parse_formatRFC3339:
  assumes "0 \<le> t div 1000000000 + off * 60" and "\<bar>off\<bar> < 1440"
    and "t div 1000000000 + off * 60 < daysBeforeYear 10000 * 86400"
  shows "parseRFC3339 (formatRFC3339 off t) = Some (truncSecond t)"
proof -
  define s where "s = t div 1000000000 + off * 60"
  define r where "r = s mod 86400"
  obtain y m d where ymd: "civil (s div 86400) = (y, m, d)" by (cases "civil (s div 86400)") auto
  have n: "0 \<le> s div 86400" using assms(1) by (simp add: s_def pos_imp_zdiv_nonneg_iff)
  note c = civil_correct [OF n ymd]
  have y: "y < 10000"
  proof (rule ccontr)
    assume "\<not> y < 10000"
    then have "daysBeforeYear 10000 \<le> s div 86400" using c(7) daysBeforeYear_mono [of 10000 y] by simp
    then have "daysBeforeYear 10000 * 86400 \<le> s" by linarith
    then show False using assms(3) by (simp add: s_def)
  qed
  have "nat (m - 1) < 12" using c(3) by simp
  then have d: "d \<le> 31" using c(5) monthLengths_le [of "nat (m - 1)" y] by linarith
  have r: "0 \<le> r" "r < 86400" by (simp_all add: r_def)
  have hms: "0 \<le> r div 3600" "r div 3600 < 24" "0 \<le> r mod 3600 div 60" "r mod 3600 div 60 < 60"
    "0 \<le> r mod 60" "r mod 60 < 60"
    using r by (auto simp: pos_imp_zdiv_nonneg_iff)
  define hh mi se where "hh = r div 3600" and "mi = r mod 3600 div 60" and "se = r mod 60"
  note fields = hh_def [symmetric] mi_def [symmetric] se_def [symmetric]
  have "r mod 3600 mod 60 = r mod 60" by (rule mod_mod_cancel) simp
  then have "r div 3600 * 3600 + r mod 3600 div 60 * 60 + r mod 60
      = r div 3600 * 3600 + (r mod 3600 div 60 * 60 + r mod 3600 mod 60)"
    by (simp only: add.assoc)
  also have "\<dots> = r" by (simp only: div_mult_mod_eq)
  finally have sum: "r div 3600 * 3600 + r mod 3600 div 60 * 60 + r mod 60 = r" .
  have s: "s div 86400 * 86400 + r = s" unfolding r_def by (rule div_mult_mod_eq)
  have g: "getDigits k (fixedDigits k (nat v) @ x) = Some (v, x)" if "0 \<le> v" "v < 10 ^ k" for k v x
    using getDigits_fixedDigits [of "nat v" k x] that by (simp add: nat_less_iff)
  have h: "getHour (fixedDigits 2 (nat v) @ x) = Some (v, x)" if "0 \<le> v" "v < 100" for v x
    using getHour_fixedDigits [of "nat v" x] that by (simp add: nat_less_iff)
  have "formatRFC3339 off t = fixedDigits 4 (nat y) @ CHR ''-'' # fixedDigits 2 (nat m) @ CHR ''-''
      # fixedDigits 2 (nat d) @ CHR ''T'' # fixedDigits 2 (nat hh) @ CHR '':'' # fixedDigits 2 (nat mi)
      @ CHR '':'' # fixedDigits 2 (nat se) @ zoneSuffix off"
    using y by (simp add: formatRFC3339_def Let_def ymd s_def [symmetric] r_def [symmetric] fields
        del: fixedDigits.simps)
  moreover have "\<not> (m < 1 \<or> 12 < m \<or> d < 1 \<or> monthLengths y ! nat (m - 1) < d
      \<or> 24 \<le> hh \<or> 60 \<le> mi \<or> 60 \<le> se)"
    using c(2-5) hms unfolding fields by simp
  ultimately have "parseRFC3339 (formatRFC3339 off t) =
      Some ((dayOfCivil y m d * 86400 + hh * 3600 + mi * 60 + se - off * 60) * 1000000000)"
    using y c(1-5) d hms getZone_zoneSuffix [OF assms(2)] unfolding fields
    by (simp add: parseRFC3339_def g h getFraction_zoneSuffix del: fixedDigits.simps)
  also have "\<dots> = Some ((s - off * 60) * 1000000000)"
  proof -
    have "dayOfCivil y m d * 86400 + hh * 3600 + mi * 60 + se
        = s div 86400 * 86400 + (hh * 3600 + mi * 60 + se)"
      unfolding c(6) by (simp only: add.assoc)
    also have "\<dots> = s" using sum s unfolding fields by (simp only:)
    finally show ?thesis by (simp only:)
  qed
  also have "\<dots> = Some (truncSecond t)"
    by (simp add: s_def truncSecond_def minus_mod_eq_div_mult)
  finally show ?thesis .
qed

definition fitsRFC3339 :: "int \<Rightarrow> time \<Rightarrow> bool" where
  \<comment> \<open>an offset below a day, and a local time from year 1 to year 9999\<close>
  "fitsRFC3339 off t \<longleftrightarrow> \<bar>off\<bar> < 1440 \<and> 0 \<le> t div 1000000000 + off * 60 \<and>
     t div 1000000000 + off * 60 < daysBeforeYear 10000 * 86400"

interpretation rfc3339: codec "formatRFC3339 off" parseRFC3339 truncSecond "fitsRFC3339 off" for off
  by unfold_locales (simp add: parse_formatRFC3339 fitsRFC3339_def)

end
