(* ===== verification/Api_Types.thy ===== *)
theory Api_Types
  imports Go_Time
begin

text \<open>
  The data: the four custom resources of \<^verbatim>\<open>operator/api/v1alpha1\<close> (DeviceClass, DevicePool,
  Device, DeviceLease) with their specs and statuses, and of the Kubernetes kinds (Pod, Service,
  Job, object metadata, conditions) the fields the operator reads or writes. A Go struct is a
  record, a string enum a datatype whose first constructor is the unset value, an optional
  pointer an option, an \<open>int32\<close> field a 32-bit word read as signed.
\<close>

subsection \<open>Kubernetes kinds\<close>

record ownerRef =
  orAPIVersion :: string
  orKind :: string
  orName :: string
  orController :: bool  \<comment> \<open>\<open>Controller\<close>, set and true\<close>

record objectMeta =
  mName :: string
  mGenerateName :: string
  mNamespace :: string
  mLabels :: "string \<rightharpoonup> string"
  mAnnotations :: "string \<rightharpoonup> string"
  mFinalizers :: "string list"
  mOwnerReferences :: "ownerRef list"
  mDeletionTimestamp :: "time option"
  mResourceVersion :: nat
  mGeneration :: int64

definition emptyMeta :: objectMeta where
  "emptyMeta = \<lparr> mName = [], mGenerateName = [], mNamespace = [], mLabels = Map.empty,
     mAnnotations = Map.empty, mFinalizers = [], mOwnerReferences = [], mDeletionTimestamp = None,
     mResourceVersion = 0, mGeneration = 0 \<rparr>"

datatype conditionStatus = ConditionTrue | ConditionFalse | ConditionUnknown

record condition =
  cType :: string
  cStatus :: conditionStatus
  cObservedGeneration :: int64
  cReason :: string
  cMessage :: string
  cLastTransitionTime :: time

datatype intOrString = FromInt32 int32 | FromString string

record resourceRequirements =
  rrLimits :: "string \<rightharpoonup> string"
  rrRequests :: "string \<rightharpoonup> string"

record toleration =
  tolKey :: string
  tolOperator :: string
  tolValue :: string
  tolEffect :: string

record probe =
  prExecCommand :: "string list"
  prInitialDelaySeconds :: int32
  prPeriodSeconds :: int32
  prTimeoutSeconds :: int32
  prFailureThreshold :: int32

record containerPort =
  cpName :: string
  cpContainerPort :: int32

record volumeMount =
  vmName :: string
  vmMountPath :: string

record volume =
  volName :: string
  volHostPath :: string
  volHostPathType :: string

record container =
  ctName :: string
  ctImage :: string
  ctImagePullPolicy :: string
  ctCommand :: "string list"
  ctArgs :: "string list"
  ctPorts :: "containerPort list"
  ctReadinessProbe :: "probe option"
  ctResources :: resourceRequirements
  ctPrivileged :: "bool option"
  ctVolumeMounts :: "volumeMount list"

definition emptyContainer :: container where
  "emptyContainer = \<lparr> ctName = [], ctImage = [], ctImagePullPolicy = [], ctCommand = [], ctArgs = [],
     ctPorts = [], ctReadinessProbe = None, ctResources = \<lparr> rrLimits = Map.empty, rrRequests = Map.empty \<rparr>,
     ctPrivileged = None, ctVolumeMounts = [] \<rparr>"

record podSpec =
  psNodeSelector :: "string \<rightharpoonup> string"
  psTolerations :: "toleration list"
  psContainers :: "container list"
  psVolumes :: "volume list"

datatype podPhase = PodUnset | PodPending | PodRunning | PodSucceeded | PodFailed | PodUnknown

record podCondition =
  pcdType :: string
  pcdStatus :: conditionStatus

record containerStatus =
  csName :: string
  csRestartCount :: int32
  csWaitingReason :: "string option"  \<comment> \<open>\<open>State.Waiting\<close>, with its Reason\<close>

record podStatus =
  pstPhase :: podPhase
  pstConditions :: "podCondition list"
  pstContainerStatuses :: "containerStatus list"

record pod =
  podMeta :: objectMeta
  podSpec :: podSpec
  podStatus :: podStatus

record servicePort =
  spName :: string
  spPort :: int32
  spTargetPort :: intOrString

record service =
  svcMeta :: objectMeta
  svcType :: string
  svcSelector :: "string \<rightharpoonup> string"
  svcPorts :: "servicePort list"

record job =
  jobMeta :: objectMeta
  jobBackoffLimit :: int32
  jobRestartPolicy :: string
  jobContainers :: "container list"

subsection \<open>DeviceClass\<close>

datatype ProviderType = ProviderUnset | ProviderEmulator | ProviderPhysical

record AVDSpec =
  avdSkin :: string
  avdDensity :: int32
  avdExtraArgs :: "string list"

record DeviceClassSpec =
  dcsProviderType :: ProviderType
  dcsImage :: string
  dcsAPILevel :: int32
  dcsArch :: string
  dcsAVD :: "AVDSpec option"
  dcsResources :: resourceRequirements
  dcsReadinessProbe :: "probe option"
  dcsNodeSelector :: "string \<rightharpoonup> string"
  dcsTolerations :: "toleration list"

record DeviceClass =
  dcMeta :: objectMeta
  dcSpec :: DeviceClassSpec
  dcConditions :: "condition list"

subsection \<open>DevicePool\<close>

datatype EvictionPolicy = EvictUnset | EvictLRUIdle | EvictNone

record PoolClass =
  pcName :: string
  pcMinWarm :: int32
  pcMaxWarm :: int32

record STFRef =
  stfURL :: string
  stfADBHost :: string

record DevicePoolSpec =
  dpsClasses :: "PoolClass list"
  dpsMaxConcurrent :: int32
  dpsEvictionPolicy :: EvictionPolicy
  dpsSTFRef :: "STFRef option"

record ClassCounts =
  ccClass :: string
  ccTotal :: int32
  ccReady :: int32
  ccLeased :: int32
  ccProvisioning :: int32

record DevicePoolStatus =
  dptPerClass :: "ClassCounts list"
  dptConditions :: "condition list"

record DevicePool =
  poolMeta :: objectMeta
  poolSpec :: DevicePoolSpec
  poolStatus :: DevicePoolStatus

subsection \<open>Device\<close>

datatype DevicePhase =
    DevicePhaseUnset | DeviceProvisioning | DeviceReady | DeviceLeased | DeviceDraining | DeviceFailed

record DeviceSpec =
  dsClassRef :: string
  dsPoolRef :: string
  dsProviderType :: ProviderType
  dsADBEndpoint :: string
  dsNodeName :: string
  dsSerial :: string

record DeviceStatus =
  dtPhase :: DevicePhase
  dtADBEndpoint :: string
  dtUIEndpoint :: string
  dtLeaseRef :: string
  dtLastUsedTime :: "time option"
  dtConditions :: "condition list"

record Device =
  devMeta :: objectMeta
  devSpec :: DeviceSpec
  devStatus :: DeviceStatus

subsection \<open>DeviceLease\<close>

datatype LeasePhase =
    LeasePhaseUnset | LeasePending | LeaseBound | LeaseExpired | LeaseReleased | LeaseFailed

record DeviceLeaseSpec =
  lsClassRef :: string
  lsPoolRef :: string
  lsRequester :: string
  lsTTLSeconds :: int32

record DeviceLeaseStatus =
  ltPhase :: LeasePhase
  ltDeviceRef :: string
  ltADBEndpoint :: string
  ltUIEndpoint :: string
  ltExpiresAt :: "time option"
  ltLastHeartbeat :: "time option"
  ltConditions :: "condition list"

record DeviceLease =
  leaseMeta :: objectMeta
  leaseSpec :: DeviceLeaseSpec
  leaseStatus :: DeviceLeaseStatus

subsection \<open>Zero values and short names\<close>

definition emptyDeviceStatus :: DeviceStatus where
  "emptyDeviceStatus = \<lparr> dtPhase = DevicePhaseUnset, dtADBEndpoint = [], dtUIEndpoint = [],
     dtLeaseRef = [], dtLastUsedTime = None, dtConditions = [] \<rparr>"

definition emptyLeaseStatus :: DeviceLeaseStatus where
  "emptyLeaseStatus = \<lparr> ltPhase = LeasePhaseUnset, ltDeviceRef = [], ltADBEndpoint = [], ltUIEndpoint = [],
     ltExpiresAt = None, ltLastHeartbeat = None, ltConditions = [] \<rparr>"

definition emptyPodStatus :: podStatus where
  "emptyPodStatus = \<lparr> pstPhase = PodUnset, pstConditions = [], pstContainerStatuses = [] \<rparr>"

abbreviation devName :: "Device \<Rightarrow> string" where "devName d \<equiv> mName (devMeta d)"
abbreviation devNamespace :: "Device \<Rightarrow> string" where "devNamespace d \<equiv> mNamespace (devMeta d)"
abbreviation devPhase :: "Device \<Rightarrow> DevicePhase" where "devPhase d \<equiv> dtPhase (devStatus d)"
abbreviation devLeaseRef :: "Device \<Rightarrow> string" where "devLeaseRef d \<equiv> dtLeaseRef (devStatus d)"
abbreviation devClass :: "Device \<Rightarrow> string" where "devClass d \<equiv> dsClassRef (devSpec d)"
abbreviation devTerminating :: "Device \<Rightarrow> bool" where
  "devTerminating d \<equiv> mDeletionTimestamp (devMeta d) \<noteq> None"
abbreviation devAnnotations :: "Device \<Rightarrow> string \<rightharpoonup> string" where
  "devAnnotations d \<equiv> mAnnotations (devMeta d)"

abbreviation leaseName :: "DeviceLease \<Rightarrow> string" where "leaseName l \<equiv> mName (leaseMeta l)"
abbreviation leaseNamespace :: "DeviceLease \<Rightarrow> string" where
  "leaseNamespace l \<equiv> mNamespace (leaseMeta l)"
abbreviation leasePhase :: "DeviceLease \<Rightarrow> LeasePhase" where "leasePhase l \<equiv> ltPhase (leaseStatus l)"
abbreviation leaseTerminating :: "DeviceLease \<Rightarrow> bool" where
  "leaseTerminating l \<equiv> mDeletionTimestamp (leaseMeta l) \<noteq> None"

text \<open>What the validation markers of the pool's schema guarantee of a stored DevicePool.\<close>

definition validPoolClass :: "PoolClass \<Rightarrow> bool" where
  "validPoolClass pc \<longleftrightarrow> 0 \<le> sint (pcMinWarm pc) \<and> 0 \<le> sint (pcMaxWarm pc)"

definition validPoolSpec :: "DevicePoolSpec \<Rightarrow> bool" where
  "validPoolSpec s \<longleftrightarrow> dpsClasses s \<noteq> [] \<and> list_all validPoolClass (dpsClasses s) \<and> 1 \<le> sint (dpsMaxConcurrent s)"

definition validLeaseSpec :: "DeviceLeaseSpec \<Rightarrow> bool" where
  "validLeaseSpec s \<longleftrightarrow> 1 \<le> sint (lsTTLSeconds s)"

end
