(* ===== verification/Kube.thy ===== *)
theory Kube
  imports Api_Types
begin

text \<open>
  The interface the controllers call and do not own: the controller-runtime client, the clock,
  and the helpers of apimachinery and controller-runtime (status conditions, finalizers, owner
  references). None of that code is in the repository, so it is one parameter of the model, a
  record \<open>kube\<close> of operations over an arbitrary world \<open>'w\<close>; other controllers, the kubelet,
  stale caches and lost updates are all part of what an operation may do to or read from that
  world. What is documented of the operations is stated by the locales of \<open>Contracts\<close>; nothing else is
  assumed of them anywhere.

  \<open>traced\<close> wraps a client so that it also records every API call with its result, and every
  reading of the clock: a statement about the trace of a reconcile against \<open>traced k\<close>, for every \<open>k\<close>, holds whatever the cluster
  does between and during the calls.
\<close>

type_synonym objectKey = "string \<times> string"  \<comment> \<open>namespace and name\<close>

record ctrlResult =
  Requeue :: bool
  RequeueAfter :: duration

definition emptyResult :: ctrlResult where
  "emptyResult = \<lparr> Requeue = False, RequeueAfter = 0 \<rparr>"

definition requeueAfter :: "duration \<Rightarrow> ctrlResult" where
  "requeueAfter d = \<lparr> Requeue = False, RequeueAfter = d \<rparr>"

record 'w kube =
  clockNow :: "('w, time) state"
  localOffset :: int
  apiGetDevice :: "objectKey \<Rightarrow> ('w, goError + Device) state"
  apiGetDeviceClass :: "string \<Rightarrow> ('w, goError + DeviceClass) state"
  apiGetDevicePool :: "objectKey \<Rightarrow> ('w, goError + DevicePool) state"
  apiGetDeviceLease :: "objectKey \<Rightarrow> ('w, goError + DeviceLease) state"
  apiGetPod :: "objectKey \<Rightarrow> ('w, goError + pod) state"
  apiGetService :: "objectKey \<Rightarrow> ('w, goError + service) state"
  apiGetJob :: "objectKey \<Rightarrow> ('w, goError + job) state"
  apiListDevices :: "string \<Rightarrow> (string \<times> string) list \<Rightarrow> ('w, goError + Device list) state"
  apiListDeviceLeases :: "string \<Rightarrow> ('w, goError + DeviceLease list) state"
  apiListDevicePools :: "string \<Rightarrow> ('w, goError + DevicePool list) state"
  apiCreateDevice :: "Device \<Rightarrow> ('w, goError + Device) state"
  apiCreateDeviceLease :: "DeviceLease \<Rightarrow> ('w, goError + DeviceLease) state"
  apiCreatePod :: "pod \<Rightarrow> ('w, goError + pod) state"
  apiCreateService :: "service \<Rightarrow> ('w, goError + service) state"
  apiCreateJob :: "job \<Rightarrow> ('w, goError + job) state"
  apiUpdateDevice :: "Device \<Rightarrow> ('w, goError + Device) state"
  apiUpdateDeviceLease :: "DeviceLease \<Rightarrow> ('w, goError + DeviceLease) state"
  apiUpdateService :: "service \<Rightarrow> ('w, goError + service) state"
  apiUpdateDeviceStatus :: "Device \<Rightarrow> ('w, goError + Device) state"
  apiUpdateDeviceLeaseStatus :: "DeviceLease \<Rightarrow> ('w, goError + DeviceLease) state"
  apiUpdateDevicePoolStatus :: "DevicePool \<Rightarrow> ('w, goError + DevicePool) state"
  apiPatchDeviceLeaseStatus :: "DeviceLease \<Rightarrow> DeviceLease \<Rightarrow> ('w, goError + DeviceLease) state"
  apiDeleteDevice :: "objectKey \<Rightarrow> ('w, goError + unit) state"
  apiDeletePod :: "objectKey \<Rightarrow> ('w, goError + unit) state"
  apiDeleteDeviceLease :: "objectKey \<Rightarrow> ('w, goError + unit) state"
  setStatusCondition :: "condition list \<Rightarrow> condition \<Rightarrow> ('w, bool \<times> condition list) state"
  containsFinalizer :: "objectMeta \<Rightarrow> string \<Rightarrow> bool"
  addFinalizer :: "objectMeta \<Rightarrow> string \<Rightarrow> objectMeta"
  removeFinalizer :: "objectMeta \<Rightarrow> string \<Rightarrow> objectMeta"
  setControllerReference :: "string \<Rightarrow> objectMeta \<Rightarrow> objectMeta \<Rightarrow> goError + objectMeta"

subsection \<open>Traces of API calls\<close>

datatype action =
    ActClockNow time
  | ActGetDevice objectKey "goError + Device"
  | ActGetDeviceClass string "goError + DeviceClass"
  | ActGetDevicePool objectKey "goError + DevicePool"
  | ActGetDeviceLease objectKey "goError + DeviceLease"
  | ActGetPod objectKey "goError + pod"
  | ActGetService objectKey "goError + service"
  | ActGetJob objectKey "goError + job"
  | ActListDevices string "(string \<times> string) list" "goError + Device list"
  | ActListDeviceLeases string "goError + DeviceLease list"
  | ActListDevicePools string "goError + DevicePool list"
  | ActCreateDevice Device "goError + Device"
  | ActCreateDeviceLease DeviceLease "goError + DeviceLease"
  | ActCreatePod pod "goError + pod"
  | ActCreateService service "goError + service"
  | ActCreateJob job "goError + job"
  | ActUpdateDevice Device "goError + Device"
  | ActUpdateDeviceLease DeviceLease "goError + DeviceLease"
  | ActUpdateService service "goError + service"
  | ActUpdateDeviceStatus Device "goError + Device"
  | ActUpdateDeviceLeaseStatus DeviceLease "goError + DeviceLease"
  | ActUpdateDevicePoolStatus DevicePool "goError + DevicePool"
  | ActPatchDeviceLeaseStatus DeviceLease DeviceLease "goError + DeviceLease"
  | ActDeleteDevice objectKey "goError + unit"
  | ActDeletePod objectKey "goError + unit"
  | ActDeleteDeviceLease objectKey "goError + unit"

definition logged :: "('r \<Rightarrow> action) \<Rightarrow> ('w, 'r) state \<Rightarrow> ('w \<times> action list, 'r) state" where
  "logged A m = State (\<lambda>(w, l). case run_state m w of (r, w') \<Rightarrow> (r, (w', l @ [A r])))"

definition unlogged :: "('w, 'r) state \<Rightarrow> ('w \<times> action list, 'r) state" where
  "unlogged m = State (\<lambda>(w, l). case run_state m w of (r, w') \<Rightarrow> (r, (w', l)))"

definition traced :: "'w kube \<Rightarrow> ('w \<times> action list) kube" where
  "traced k = \<lparr>
     clockNow = logged ActClockNow (clockNow k),
     localOffset = localOffset k,
     apiGetDevice = (\<lambda>x. logged (ActGetDevice x) (apiGetDevice k x)),
     apiGetDeviceClass = (\<lambda>x. logged (ActGetDeviceClass x) (apiGetDeviceClass k x)),
     apiGetDevicePool = (\<lambda>x. logged (ActGetDevicePool x) (apiGetDevicePool k x)),
     apiGetDeviceLease = (\<lambda>x. logged (ActGetDeviceLease x) (apiGetDeviceLease k x)),
     apiGetPod = (\<lambda>x. logged (ActGetPod x) (apiGetPod k x)),
     apiGetService = (\<lambda>x. logged (ActGetService x) (apiGetService k x)),
     apiGetJob = (\<lambda>x. logged (ActGetJob x) (apiGetJob k x)),
     apiListDevices = (\<lambda>x y. logged (ActListDevices x y) (apiListDevices k x y)),
     apiListDeviceLeases = (\<lambda>x. logged (ActListDeviceLeases x) (apiListDeviceLeases k x)),
     apiListDevicePools = (\<lambda>x. logged (ActListDevicePools x) (apiListDevicePools k x)),
     apiCreateDevice = (\<lambda>x. logged (ActCreateDevice x) (apiCreateDevice k x)),
     apiCreateDeviceLease = (\<lambda>x. logged (ActCreateDeviceLease x) (apiCreateDeviceLease k x)),
     apiCreatePod = (\<lambda>x. logged (ActCreatePod x) (apiCreatePod k x)),
     apiCreateService = (\<lambda>x. logged (ActCreateService x) (apiCreateService k x)),
     apiCreateJob = (\<lambda>x. logged (ActCreateJob x) (apiCreateJob k x)),
     apiUpdateDevice = (\<lambda>x. logged (ActUpdateDevice x) (apiUpdateDevice k x)),
     apiUpdateDeviceLease = (\<lambda>x. logged (ActUpdateDeviceLease x) (apiUpdateDeviceLease k x)),
     apiUpdateService = (\<lambda>x. logged (ActUpdateService x) (apiUpdateService k x)),
     apiUpdateDeviceStatus = (\<lambda>x. logged (ActUpdateDeviceStatus x) (apiUpdateDeviceStatus k x)),
     apiUpdateDeviceLeaseStatus =
       (\<lambda>x. logged (ActUpdateDeviceLeaseStatus x) (apiUpdateDeviceLeaseStatus k x)),
     apiUpdateDevicePoolStatus =
       (\<lambda>x. logged (ActUpdateDevicePoolStatus x) (apiUpdateDevicePoolStatus k x)),
     apiPatchDeviceLeaseStatus =
       (\<lambda>x y. logged (ActPatchDeviceLeaseStatus x y) (apiPatchDeviceLeaseStatus k x y)),
     apiDeleteDevice = (\<lambda>x. logged (ActDeleteDevice x) (apiDeleteDevice k x)),
     apiDeletePod = (\<lambda>x. logged (ActDeletePod x) (apiDeletePod k x)),
     apiDeleteDeviceLease = (\<lambda>x. logged (ActDeleteDeviceLease x) (apiDeleteDeviceLease k x)),
     setStatusCondition = (\<lambda>x y. unlogged (setStatusCondition k x y)),
     containsFinalizer = containsFinalizer k,
     addFinalizer = addFinalizer k,
     removeFinalizer = removeFinalizer k,
     setControllerReference = setControllerReference k \<rparr>"

text \<open>The API calls a program makes when it is run from world \<open>w\<close>, in order.\<close>

definition traceOf :: "('w \<times> action list, 'a) state \<Rightarrow> 'w \<Rightarrow> action list" where
  "traceOf m w = snd (snd (run_state m (w, [])))"

definition resultOf :: "('w \<times> action list, 'a) state \<Rightarrow> 'w \<Rightarrow> 'a" where
  "resultOf m w = fst (run_state m (w, []))"

lemma traced_simps [simp]:
  "clockNow (traced k) = logged ActClockNow (clockNow k)"
  "localOffset (traced k) = localOffset k"
  "apiGetDevice (traced k) x1 = logged (ActGetDevice x1) (apiGetDevice k x1)"
  "apiGetDeviceClass (traced k) x2 = logged (ActGetDeviceClass x2) (apiGetDeviceClass k x2)"
  "apiGetDevicePool (traced k) x3 = logged (ActGetDevicePool x3) (apiGetDevicePool k x3)"
  "apiGetDeviceLease (traced k) x4 = logged (ActGetDeviceLease x4) (apiGetDeviceLease k x4)"
  "apiGetPod (traced k) x5 = logged (ActGetPod x5) (apiGetPod k x5)"
  "apiGetService (traced k) x6 = logged (ActGetService x6) (apiGetService k x6)"
  "apiGetJob (traced k) x7 = logged (ActGetJob x7) (apiGetJob k x7)"
  "apiListDevices (traced k) x8 y8 = logged (ActListDevices x8 y8) (apiListDevices k x8 y8)"
  "apiListDeviceLeases (traced k) x9 = logged (ActListDeviceLeases x9) (apiListDeviceLeases k x9)"
  "apiListDevicePools (traced k) x10 = logged (ActListDevicePools x10) (apiListDevicePools k x10)"
  "apiCreateDevice (traced k) x11 = logged (ActCreateDevice x11) (apiCreateDevice k x11)"
  "apiCreateDeviceLease (traced k) x12 = logged (ActCreateDeviceLease x12) (apiCreateDeviceLease k x12)"
  "apiCreatePod (traced k) x13 = logged (ActCreatePod x13) (apiCreatePod k x13)"
  "apiCreateService (traced k) x14 = logged (ActCreateService x14) (apiCreateService k x14)"
  "apiCreateJob (traced k) x15 = logged (ActCreateJob x15) (apiCreateJob k x15)"
  "apiUpdateDevice (traced k) x16 = logged (ActUpdateDevice x16) (apiUpdateDevice k x16)"
  "apiUpdateDeviceLease (traced k) x17 = logged (ActUpdateDeviceLease x17) (apiUpdateDeviceLease k x17)"
  "apiUpdateService (traced k) x18 = logged (ActUpdateService x18) (apiUpdateService k x18)"
  "apiUpdateDeviceStatus (traced k) x19 = logged (ActUpdateDeviceStatus x19) (apiUpdateDeviceStatus k x19)"
  "apiUpdateDeviceLeaseStatus (traced k) x20 = logged (ActUpdateDeviceLeaseStatus x20) (apiUpdateDeviceLeaseStatus k x20)"
  "apiUpdateDevicePoolStatus (traced k) x21 = logged (ActUpdateDevicePoolStatus x21) (apiUpdateDevicePoolStatus k x21)"
  "apiPatchDeviceLeaseStatus (traced k) x22 y22 = logged (ActPatchDeviceLeaseStatus x22 y22) (apiPatchDeviceLeaseStatus k x22 y22)"
  "apiDeleteDevice (traced k) x23 = logged (ActDeleteDevice x23) (apiDeleteDevice k x23)"
  "apiDeletePod (traced k) x24 = logged (ActDeletePod x24) (apiDeletePod k x24)"
  "apiDeleteDeviceLease (traced k) x25 = logged (ActDeleteDeviceLease x25) (apiDeleteDeviceLease k x25)"
  "setStatusCondition (traced k) x26 y26 = unlogged (setStatusCondition k x26 y26)"
  "containsFinalizer (traced k) = containsFinalizer k"
  "addFinalizer (traced k) = addFinalizer k"
  "removeFinalizer (traced k) = removeFinalizer k"
  "setControllerReference (traced k) = setControllerReference k"
  by (simp_all add: traced_def)

subsection \<open>Reasoning about traces\<close>

definition lwp :: "('w \<times> action list, 'a) state \<Rightarrow> ('a \<Rightarrow> action list \<Rightarrow> bool) \<Rightarrow> action list \<Rightarrow> bool" where
  \<comment> \<open>from a trace \<open>l\<close>, whatever the world, the program ends with a result and trace in \<open>Q\<close>\<close>
  "lwp m Q l \<longleftrightarrow> (\<forall>w. case run_state m (w, l) of (x, (w', l')) \<Rightarrow> Q x l')"

named_theorems lwp_intro \<open>rules that compute the trace precondition of a program\<close>

lemma lwp_ret [lwp_intro]: "Q x l \<Longrightarrow> lwp (ret x) Q l"
  by (simp add: lwp_def)

lemma lwp_bind [lwp_intro]: "lwp m (\<lambda>x l'. lwp (f x) Q l') l \<Longrightarrow> lwp (State_Monad.bind m f) Q l"
  by (fastforce simp: lwp_def split: prod.splits)

lemma lwp_tryE [lwp_intro]:
  "lwp m (\<lambda>r l'. case r of Inl e \<Rightarrow> Q (Inl e) l' | Inr x \<Rightarrow> lwp (f x) Q l') l \<Longrightarrow> lwp (tryE m f) Q l"
  by (fastforce simp: lwp_def split: prod.splits sum.splits)

lemma lwp_logged [lwp_intro]: "(\<And>x. Q x (l @ [A x])) \<Longrightarrow> lwp (logged A m) Q l"
  by (auto simp: lwp_def logged_def split: prod.splits)

lemma lwp_unlogged [lwp_intro]: "(\<And>x. Q x l) \<Longrightarrow> lwp (unlogged m) Q l"
  by (auto simp: lwp_def unlogged_def split: prod.splits)

lemma lwp_conseq: "lwp m Q l \<Longrightarrow> (\<And>x l'. Q x l' \<Longrightarrow> Q' x l') \<Longrightarrow> lwp m Q' l"
  by (fastforce simp: lwp_def split: prod.splits)

lemma lwp_trace: "lwp m Q [] \<Longrightarrow> Q (resultOf m w) (traceOf m w)"
  by (auto simp: lwp_def resultOf_def traceOf_def case_prod_beta)

end
