(* ===== verification/Device_Controller.thy ===== *)
theory Device_Controller
  imports Kube
begin

text \<open>
  The Device controller, \<^verbatim>\<open>operator/internal/controller/device_controller.go\<close>: one definition
  per function of the file, in its order where Isabelle allows it. A Device is backed by an
  emulator Pod and an adb Service; the pod's state decides the phase; failed devices are
  recreated with exponential backoff. Log output is left out.
\<close>

subsection \<open>Constants\<close>

definition adbPort :: int32 where "adbPort = 5555"
definition kvmHostPath :: string where "kvmHostPath = ''/dev/kvm''"
definition labelDevice :: string where "labelDevice = ''farm.example.com/device''"
definition adbServerPort :: string where "adbServerPort = ''5037''"
definition adbClientImage :: string where "adbClientImage = ''devicefarmer/adb:latest''"
definition adbProxyPort :: int32 where "adbProxyPort = 5556"
definition socatImage :: string where "socatImage = ''alpine/socat:latest''"
definition crashLoopBackOff :: string where "crashLoopBackOff = ''CrashLoopBackOff''"
definition crashLoopRestartThreshold :: int32 where "crashLoopRestartThreshold = 3"
definition recreateBackoffBase :: duration where "recreateBackoffBase = 10 * time_Second"
definition recreateBackoffMax :: duration where "recreateBackoffMax = 5 * (60 * time_Second)"
definition annBooted :: string where "annBooted = ''farm.example.com/booted''"
definition annFailures :: string where "annFailures = ''farm.example.com/recreate-attempts''"
definition annNextRetry :: string where "annNextRetry = ''farm.example.com/next-retry''"

subsection \<open>Names and selectors\<close>

definition adbServiceName :: "Device \<Rightarrow> string" where "adbServiceName d = devName d @ ''-adb''"
definition emulatorPodName :: "Device \<Rightarrow> string" where "emulatorPodName d = devName d @ ''-emulator''"

definition deviceSelector :: "Device \<Rightarrow> string \<rightharpoonup> string" where
  "deviceSelector d = [labelDevice \<mapsto> devName d]"

definition adbEndpointOf :: "Device \<Rightarrow> string" where
  "adbEndpointOf d =
     adbServiceName d @ ''.'' @ devNamespace d @ ''.svc.cluster.local:'' @ itoa (sint adbPort)"

subsection \<open>Recovery bookkeeping\<close>

definition backoffDuration :: "int64 \<Rightarrow> goError + duration" where
  \<comment> \<open>a shift by a negative count panics; a count past the width shifts every bit out\<close>
  "backoffDuration failures =
     (if sint failures < 0 then Inl (Panicked ''runtime error: negative shift amount'')
      else let d = push_bit (nat (sint failures)) recreateBackoffBase
           in if sint d \<le> 0 \<or> sint recreateBackoffMax < sint d then Inr recreateBackoffMax else Inr d)"

definition annInt :: "Device \<Rightarrow> string \<Rightarrow> int64" where
  "annInt device key =
     (case devAnnotations device key of
        None \<Rightarrow> 0
      | Some v \<Rightarrow> (case atoi v of None \<Rightarrow> 0 | Some n \<Rightarrow> n))"

definition annTime :: "Device \<Rightarrow> string \<Rightarrow> time" where
  "annTime device key =
     (case devAnnotations device key of
        None \<Rightarrow> zeroTime
      | Some v \<Rightarrow> (case parseRFC3339 v of None \<Rightarrow> zeroTime | Some t \<Rightarrow> t))"

definition setAnnotations :: "(string \<rightharpoonup> string) \<Rightarrow> Device \<Rightarrow> Device" where
  "setAnnotations m device = device\<lparr>devMeta := (devMeta device)\<lparr>mAnnotations := m\<rparr>\<rparr>"

definition recoverFailed :: "'w kube \<Rightarrow> Device \<Rightarrow> pod option \<Rightarrow> ('w, goError + ctrlResult \<times> Device) state" where
  \<comment> \<open>also returns the device object, which \<open>Update\<close> refreshes in place\<close>
  "recoverFailed k device mpod = do {
     now \<leftarrow> clockNow k;
     let t = annTime device annNextRetry;
     (if \<not> isZeroTime t \<and> now < t then ret (Inr (requeueAfter (timeSub t now), device))
      else do {
        let failures = annInt device annFailures;
        tryE (case mpod of
                None \<Rightarrow> ret (Inr ())
              | Some pd \<Rightarrow>
                  if mName (podMeta pd) \<noteq> [] \<and> mDeletionTimestamp (podMeta pd) = None
                  then do {
                    r \<leftarrow> apiDeletePod k (mNamespace (podMeta pd), mName (podMeta pd));
                    (case r of
                       Inl ErrNotFound \<Rightarrow> ret (Inr ())
                     | Inl e \<Rightarrow> ret (Inl e)
                     | Inr _ \<Rightarrow> ret (Inr ()))
                  }
                  else ret (Inr ()))
          (\<lambda>_. tryE (ret (backoffDuration failures)) (\<lambda>backoff.
             let anns = (devAnnotations device)
                   (annFailures \<mapsto> itoa (sint (failures + 1)),
                    annNextRetry \<mapsto> formatRFC3339 (localOffset k) (timeAdd now backoff),
                    annBooted := None)
             in tryE (apiUpdateDevice k (setAnnotations anns device))
                  (\<lambda>device'. ret (Inr (requeueAfter backoff, device')))))
      })
   }"

definition clearAnnotation :: "(string \<rightharpoonup> string) \<times> bool \<Rightarrow> string \<Rightarrow> (string \<rightharpoonup> string) \<times> bool" where
  "clearAnnotation s key =
     (case s of (anns, changed) \<Rightarrow> if anns key \<noteq> None then (anns(key := None), True) else (anns, changed))"

definition markHealthy :: "'w kube \<Rightarrow> Device \<Rightarrow> ('w, goError + Device) state" where
  "markHealthy k device =
     (let changed = (devAnnotations device annBooted \<noteq> Some ''true'');
          (anns, changed) = foldl clearAnnotation
             ((devAnnotations device)(annBooted \<mapsto> ''true''), changed) [annFailures, annNextRetry];
          device' = setAnnotations anns device
      in if \<not> changed then ret (Inr device') else apiUpdateDevice k device')"

subsection \<open>Registration, Service and Pod\<close>

definition setJobMeta :: "objectMeta \<Rightarrow> job \<Rightarrow> job" where "setJobMeta m j = j\<lparr>jobMeta := m\<rparr>"

definition registrationJob :: "Device \<Rightarrow> string \<Rightarrow> string \<Rightarrow> job" where
  "registrationJob device adbHost adbEndpoint =
     \<lparr> jobMeta = emptyMeta\<lparr> mName := devName device @ ''-register'', mNamespace := devNamespace device,
         mLabels := deviceSelector device \<rparr>,
       jobBackoffLimit = 5,
       jobRestartPolicy = ''OnFailure'',
       jobContainers = [emptyContainer\<lparr> ctName := ''register'', ctImage := adbClientImage,
         ctCommand := [''adb'', ''-H'', adbHost, ''-P'', adbServerPort, ''connect'', adbEndpoint] \<rparr>] \<rparr>"

definition ensureRegistration :: "'w kube \<Rightarrow> Device \<Rightarrow> string \<Rightarrow> ('w, goError + unit) state" where
  "ensureRegistration k device adbEndpoint =
     (if dsPoolRef (devSpec device) = [] then ret (Inr ())
      else do {
        rp \<leftarrow> apiGetDevicePool k (devNamespace device, dsPoolRef (devSpec device));
        (case rp of
           Inl ErrNotFound \<Rightarrow> ret (Inr ())
         | Inl e \<Rightarrow> ret (Inl e)
         | Inr pool \<Rightarrow>
             (case dpsSTFRef (poolSpec pool) of
                None \<Rightarrow> ret (Inr ())
              | Some stf \<Rightarrow>
                  if stfADBHost stf = [] then ret (Inr ())
                  else do {
                    rj \<leftarrow> apiGetJob k (devNamespace device, devName device @ ''-register'');
                    (case rj of
                       Inr _ \<Rightarrow> ret (Inr ())
                     | Inl ErrNotFound \<Rightarrow>
                         (let j = registrationJob device (stfADBHost stf) adbEndpoint in
                          tryE (ret (setControllerReference k ''Device'' (devMeta device) (jobMeta j)))
                            (\<lambda>m. tryE (apiCreateJob k (setJobMeta m j)) (\<lambda>_. ret (Inr ()))))
                     | Inl e \<Rightarrow> ret (Inl e))
                  }))
      })"

definition serviceTypeNodePort :: string where "serviceTypeNodePort = ''NodePort''"

definition setServiceMeta :: "objectMeta \<Rightarrow> service \<Rightarrow> service" where "setServiceMeta m s = s\<lparr>svcMeta := m\<rparr>"

definition adbService :: "Device \<Rightarrow> service" where
  "adbService device =
     \<lparr> svcMeta = emptyMeta\<lparr> mName := adbServiceName device, mNamespace := devNamespace device,
         mLabels := deviceSelector device \<rparr>,
       svcType = serviceTypeNodePort,
       svcSelector = deviceSelector device,
       svcPorts = [\<lparr> spName = ''adb'', spPort = adbPort, spTargetPort = FromInt32 adbProxyPort \<rparr>] \<rparr>"

definition driftedService :: "service \<Rightarrow> service \<times> bool" where
  \<comment> \<open>the repairs to an existing Service, and whether there were any\<close>
  "driftedService existing =
     (let (s1, changed) = (if svcType existing \<noteq> serviceTypeNodePort
                           then (existing\<lparr>svcType := serviceTypeNodePort\<rparr>, True) else (existing, False))
      in (case svcPorts s1 of
            [p] \<Rightarrow> if spTargetPort p \<noteq> FromInt32 adbProxyPort
                   then (s1\<lparr>svcPorts := [p\<lparr>spTargetPort := FromInt32 adbProxyPort\<rparr>]\<rparr>, True)
                   else (s1, changed)
          | _ \<Rightarrow> (s1, changed)))"

definition ensureService :: "'w kube \<Rightarrow> Device \<Rightarrow> ('w, goError + unit) state" where
  "ensureService k device = do {
     r \<leftarrow> apiGetService k (devNamespace device, adbServiceName device);
     (case r of
        Inr existing \<Rightarrow>
          (let (s, changed) = driftedService existing
           in if changed then tryE (apiUpdateService k s) (\<lambda>_. ret (Inr ())) else ret (Inr ()))
      | Inl ErrNotFound \<Rightarrow>
          (let s = adbService device in
           tryE (ret (setControllerReference k ''Device'' (devMeta device) (svcMeta s)))
             (\<lambda>m. tryE (apiCreateService k (setServiceMeta m s)) (\<lambda>_. ret (Inr ()))))
      | Inl e \<Rightarrow> ret (Inl e))
   }"

definition defaultBootCompletedProbe :: probe where
  "defaultBootCompletedProbe =
     \<lparr> prExecCommand = [''sh'', ''-c'', ''adb shell getprop sys.boot_completed | grep -q 1''],
       prInitialDelaySeconds = 30, prPeriodSeconds = 10, prTimeoutSeconds = 5, prFailureThreshold = 30 \<rparr>"

definition buildPod :: "Device \<Rightarrow> DeviceClass \<Rightarrow> pod" where
  "buildPod device dc =
     (let pr = (case dcsReadinessProbe (dcSpec dc) of None \<Rightarrow> defaultBootCompletedProbe | Some p \<Rightarrow> p)
      in \<lparr> podMeta = emptyMeta\<lparr> mName := emulatorPodName device, mNamespace := devNamespace device,
             mLabels := deviceSelector device \<rparr>,
           podSpec =
             \<lparr> psNodeSelector = dcsNodeSelector (dcSpec dc),
               psTolerations = dcsTolerations (dcSpec dc),
               psContainers =
                 [emptyContainer\<lparr> ctName := ''emulator'', ctImage := dcsImage (dcSpec dc),
                    ctImagePullPolicy := ''IfNotPresent'',
                    ctPorts := [\<lparr> cpName = ''adb'', cpContainerPort = adbPort \<rparr>],
                    ctReadinessProbe := Some pr, ctResources := dcsResources (dcSpec dc),
                    ctPrivileged := Some True,
                    ctVolumeMounts := [\<lparr> vmName = ''kvm'', vmMountPath = kvmHostPath \<rparr>] \<rparr>,
                  emptyContainer\<lparr> ctName := ''adb-proxy'', ctImage := socatImage,
                    ctArgs := [''tcp-listen:'' @ itoa (sint adbProxyPort) @ '',fork,reuseaddr'',
                               ''tcp:127.0.0.1:'' @ itoa (sint adbPort)],
                    ctPorts := [\<lparr> cpName = ''adb'', cpContainerPort = adbProxyPort \<rparr>] \<rparr>],
               psVolumes =
                 [\<lparr> volName = ''kvm'', volHostPath = kvmHostPath, volHostPathType = ''CharDevice'' \<rparr>] \<rparr>,
           podStatus = emptyPodStatus \<rparr>)"

definition setPodMeta :: "objectMeta \<Rightarrow> pod \<Rightarrow> pod" where "setPodMeta m p = p\<lparr>podMeta := m\<rparr>"

definition ensurePod :: "'w kube \<Rightarrow> Device \<Rightarrow> DeviceClass \<Rightarrow> ('w, goError + pod) state" where
  "ensurePod k device dc = do {
     r \<leftarrow> apiGetPod k (devNamespace device, emulatorPodName device);
     (case r of
        Inr pd \<Rightarrow> ret (Inr pd)
      | Inl ErrNotFound \<Rightarrow>
          (let p = buildPod device dc in
           tryE (ret (setControllerReference k ''Device'' (devMeta device) (podMeta p)))
             (\<lambda>m. apiCreatePod k (setPodMeta m p)))
      | Inl e \<Rightarrow> ret (Inl e))
   }"

subsection \<open>From the pod's state to the device's phase\<close>

definition podReady :: "pod \<Rightarrow> bool" where
  "podReady p = list_ex (\<lambda>c. pcdType c = ''Ready'' \<and> pcdStatus c = ConditionTrue) (pstConditions (podStatus p))"

fun crashLoopReasonIn :: "containerStatus list \<Rightarrow> string" where
  "crashLoopReasonIn [] = []"
| "crashLoopReasonIn (cs # rest) =
     (if csWaitingReason cs = Some crashLoopBackOff
      then ''container '' @ csName cs @ '' is crash-looping''
      else if crashLoopRestartThreshold \<le>s csRestartCount cs
      then ''container '' @ csName cs @ '' restarted '' @ itoa (sint (csRestartCount cs)) @ '' times''
      else crashLoopReasonIn rest)"

definition crashLoopReason :: "pod \<Rightarrow> string" where
  "crashLoopReason p = crashLoopReasonIn (pstContainerStatuses (podStatus p))"

definition computePhase :: "pod \<Rightarrow> bool \<Rightarrow> DevicePhase \<times> string \<times> string" where
  "computePhase p booted =
     (let reason = crashLoopReason p in
      if reason \<noteq> [] then (DeviceFailed, crashLoopBackOff, reason)
      else if pstPhase (podStatus p) = PodFailed then (DeviceFailed, ''PodFailed'', ''emulator pod failed'')
      else if pstPhase (podStatus p) = PodSucceeded
      then (DeviceFailed, ''PodExited'', ''emulator pod exited unexpectedly'')
      else if podReady p then (DeviceReady, ''BootCompleted'', ''emulator booted and ready'')
      else if booted then (DeviceFailed, ''Wedged'', ''emulator became unresponsive after boot'')
      else (DeviceProvisioning, ''Provisioning'', ''waiting for emulator to boot''))"

subsection \<open>Writing the phase\<close>

definition readyCondition :: "Device \<Rightarrow> DevicePhase \<Rightarrow> string \<Rightarrow> string \<Rightarrow> condition" where
  "readyCondition device phase reason msg =
     \<lparr> cType = ''Ready'', cStatus = (if phase = DeviceReady then ConditionTrue else ConditionFalse),
       cObservedGeneration = mGeneration (devMeta device), cReason = reason, cMessage = msg,
       cLastTransitionTime = zeroTime \<rparr>"

definition setPhase ::
    "'w kube \<Rightarrow> Device \<Rightarrow> DevicePhase \<Rightarrow> string \<Rightarrow> string \<Rightarrow> string \<Rightarrow> ('w, goError + ctrlResult) state" where
  "setPhase k device phase adb reason msg =
     (let changed = (devPhase device \<noteq> phase);
          st = (devStatus device)\<lparr>dtPhase := phase\<rparr>;
          (st, changed) = (if adb \<noteq> [] \<and> dtADBEndpoint st \<noteq> adb
                           then (st\<lparr>dtADBEndpoint := adb\<rparr>, True) else (st, changed))
      in do {
        (condChanged, conds) \<leftarrow> setStatusCondition k (dtConditions st) (readyCondition device phase reason msg);
        (if \<not> (changed \<or> condChanged) then ret (Inr emptyResult)
         else tryE (apiUpdateDeviceStatus k (device\<lparr>devStatus := st\<lparr>dtConditions := conds\<rparr>\<rparr>))
                (\<lambda>_. ret (Inr emptyResult)))
      })"

subsection \<open>Reconcile\<close>

definition boundPhase :: "Device \<Rightarrow> DevicePhase \<times> string \<times> string \<Rightarrow> DevicePhase \<times> string \<times> string" where
  \<comment> \<open>\<open>leaseRef\<close> is the single binding signal: a healthy device that is bound shows as Leased\<close>
  "boundPhase device prm =
     (if devLeaseRef device \<noteq> [] then (DeviceLeased, ''Leased'', ''bound to lease '' @ devLeaseRef device) else prm)"

definition reconcilePhysical :: "'w kube \<Rightarrow> Device \<Rightarrow> ('w, goError + ctrlResult) state" where
  "reconcilePhysical k device =
     (let adb = dsADBEndpoint (devSpec device) in
      if adb = [] then setPhase k device DeviceProvisioning [] ''AwaitingProvider''
                         ''waiting for the physical provider to report an adb endpoint''
      else tryE (ensureRegistration k device adb) (\<lambda>_.
           tryE (markHealthy k device) (\<lambda>device'.
             (let (phase, reason, msg) =
                    boundPhase device' (DeviceReady, ''Connected'', ''physical device connected'')
              in setPhase k device' phase adb reason msg))))"

definition reconcileEmulator :: "'w kube \<Rightarrow> Device \<Rightarrow> pod \<Rightarrow> ('w, goError + ctrlResult) state" where
  \<comment> \<open>the part of \<open>Reconcile\<close> after the pod is known\<close>
  "reconcileEmulator k device p =
     (let booted = (devAnnotations device annBooted = Some ''true'');
          (phase, reason, msg) = computePhase p booted;
          adb = adbEndpointOf device
      in case phase of
           DeviceFailed \<Rightarrow>
             tryE (recoverFailed k device (Some p)) (\<lambda>(res, device').
             tryE (setPhase k device' DeviceFailed adb reason msg) (\<lambda>_. ret (Inr res)))
         | DeviceReady \<Rightarrow>
             tryE (ensureRegistration k device adb) (\<lambda>_.
             tryE (markHealthy k device) (\<lambda>device'.
               (let (phase, reason, msg) = boundPhase device' (phase, reason, msg)
                in setPhase k device' phase adb reason msg)))
         | _ \<Rightarrow> setPhase k device phase adb reason msg)"

definition deviceReconcile :: "'w kube \<Rightarrow> objectKey \<Rightarrow> ('w, goError + ctrlResult) state" where
  "deviceReconcile k req = do {
     r \<leftarrow> apiGetDevice k req;
     (case r of
        Inl ErrNotFound \<Rightarrow> ret (Inr emptyResult)
      | Inl e \<Rightarrow> ret (Inl e)
      | Inr device \<Rightarrow>
          if devTerminating device then ret (Inr emptyResult)
          else do {
            rc \<leftarrow> apiGetDeviceClass k (devClass device);
            (case rc of
               Inl ErrNotFound \<Rightarrow>
                 setPhase k device DeviceFailed [] ''DeviceClassNotFound''
                   (''DeviceClass '' @ goQuote (devClass device) @ '' does not exist'')
             | Inl e \<Rightarrow> ret (Inl e)
             | Inr dc \<Rightarrow>
                 if dsProviderType (devSpec device) = ProviderPhysical then reconcilePhysical k device
                 else tryE (ensureService k device) (\<lambda>_.
                      tryE (ensurePod k device dc) (\<lambda>p. reconcileEmulator k device p)))
          })
   }"

end
