(* ===== verification/Capacity.thy ===== *)
theory Capacity
  imports Kube "HOL-Library.Option_ord" "HOL-Library.Multiset"
begin

text \<open>
  What the DevicePool and DeviceLease controllers share: counting supply and demand of a class,
  choosing the device to evict, and building the Device a pool provisions
  (\<^verbatim>\<open>devicelease_controller.go\<close> and \<open>newPoolDevice\<close> of \<^verbatim>\<open>devicepool_controller.go\<close>). The lemmas
  give each counting loop its meaning as the size of a filtered list, and the eviction choice its
  meaning as a least element.
\<close>

definition LabelPool :: string where "LabelPool = ''farm.example.com/pool''"
definition LabelClass :: string where "LabelClass = ''farm.example.com/class''"

definition newPoolDevice :: "DevicePool \<Rightarrow> DeviceClass \<Rightarrow> Device" where
  "newPoolDevice pool dc =
     \<lparr> devMeta = emptyMeta\<lparr>
         mGenerateName := mName (poolMeta pool) @ ''-'' @ mName (dcMeta dc) @ ''-'',
         mNamespace := mNamespace (poolMeta pool),
         mLabels := [LabelPool \<mapsto> mName (poolMeta pool), LabelClass \<mapsto> mName (dcMeta dc)] \<rparr>,
       devSpec = \<lparr> dsClassRef = mName (dcMeta dc), dsPoolRef = mName (poolMeta pool),
         dsProviderType = dcsProviderType (dcSpec dc), dsADBEndpoint = [], dsNodeName = [], dsSerial = [] \<rparr>,
       devStatus = emptyDeviceStatus \<rparr>"

definition setDeviceMeta :: "objectMeta \<Rightarrow> Device \<Rightarrow> Device" where
  "setDeviceMeta m d = d\<lparr>devMeta := m\<rparr>"

fun activeDevices :: "Device list \<Rightarrow> Device list" where
  "activeDevices [] = []"
| "activeDevices (d # ds) =
     (if mDeletionTimestamp (devMeta d) = None then d # activeDevices ds else activeDevices ds)"

definition supplyStep :: "string \<Rightarrow> int32 \<Rightarrow> Device \<Rightarrow> int32" where
  "supplyStep cls n d =
     (if devTerminating d \<or> devClass d \<noteq> cls \<or> devLeaseRef d \<noteq> [] then n
      else case devPhase d of
             DeviceReady \<Rightarrow> n + 1
           | DeviceProvisioning \<Rightarrow> n + 1
           | DevicePhaseUnset \<Rightarrow> n + 1
           | _ \<Rightarrow> n)"

definition unclaimedSupply :: "Device list \<Rightarrow> string \<Rightarrow> int32" where
  "unclaimedSupply devs cls = foldl (supplyStep cls) 0 devs"

definition demandStep :: "string \<Rightarrow> int32 \<Rightarrow> DeviceLease \<Rightarrow> int32" where
  "demandStep cls n l =
     (if leaseTerminating l \<or> lsClassRef (leaseSpec l) \<noteq> cls then n
      else if leasePhase l = LeasePhaseUnset \<or> leasePhase l = LeasePending then n + 1 else n)"

definition demandOf :: "string \<Rightarrow> DeviceLease list \<Rightarrow> int32" where
  "demandOf cls ls = foldl (demandStep cls) 0 ls"

definition pendingLeaseDemand :: "'w kube \<Rightarrow> string \<Rightarrow> string \<Rightarrow> ('w, goError + int32) state" where
  "pendingLeaseDemand k namespace cls =
     tryE (apiListDeviceLeases k namespace) (\<lambda>ls. ret (Inr (demandOf cls ls)))"

fun olderLastUsed :: "Device \<Rightarrow> Device \<Rightarrow> bool" where
  "olderLastUsed a b =
     (case dtLastUsedTime (devStatus a) of
        None \<Rightarrow> True
      | Some ta \<Rightarrow>
          (case dtLastUsedTime (devStatus b) of
             None \<Rightarrow> False
           | Some tb \<Rightarrow> ta < tb))"

definition lruStep :: "string \<Rightarrow> Device option \<Rightarrow> Device \<Rightarrow> Device option" where
  "lruStep cls best d =
     (if devTerminating d \<or> devClass d = cls then best
      else if devPhase d \<noteq> DeviceReady \<or> devLeaseRef d \<noteq> [] then best
      else case best of
             None \<Rightarrow> Some d
           | Some b \<Rightarrow> if olderLastUsed d b then Some d else best)"

definition lruIdleOtherClass :: "Device list \<Rightarrow> string \<Rightarrow> Device option" where
  "lruIdleOtherClass devs cls = foldl (lruStep cls) None devs"

subsection \<open>The counting loops\<close>

definition claimable :: "string \<Rightarrow> Device \<Rightarrow> bool" where
  "claimable cls d \<longleftrightarrow> \<not> devTerminating d \<and> devClass d = cls \<and> devLeaseRef d = [] \<and>
     (devPhase d = DeviceReady \<or> devPhase d = DeviceProvisioning \<or> devPhase d = DevicePhaseUnset)"

definition unsatisfied :: "string \<Rightarrow> DeviceLease \<Rightarrow> bool" where
  "unsatisfied cls l \<longleftrightarrow> \<not> leaseTerminating l \<and> lsClassRef (leaseSpec l) = cls \<and>
     (leasePhase l = LeasePhaseUnset \<or> leasePhase l = LeasePending)"

lemma activeDevices_filter: "activeDevices ds = filter (\<lambda>d. \<not> devTerminating d) ds"
  by (induction ds) auto

lemma foldl_count:
  assumes "\<And>n x. f n x = (if P x then n + 1 else n)"
  shows "foldl f (a :: int32) xs = a + of_nat (length (filter P xs))"
proof (induction xs arbitrary: a)
  case Nil
  show ?case by simp
next
  case (Cons x xs)
  have "foldl f a (x # xs) = f a x + of_nat (length (filter P xs))" by (simp add: Cons.IH)
  then show ?case by (simp add: assms [of a x] ac_simps)
qed

lemma supplyStep_count: "supplyStep cls n d = (if claimable cls d then n + 1 else n)"
  by (cases "devPhase d") (simp_all add: supplyStep_def claimable_def)

lemma demandStep_count: "demandStep cls n l = (if unsatisfied cls l then n + 1 else n)"
  by (simp add: demandStep_def unsatisfied_def)

lemma unclaimedSupply_count: "unclaimedSupply ds cls = of_nat (length (filter (claimable cls) ds))"
  using foldl_count [of "supplyStep cls" "claimable cls" 0 ds, OF supplyStep_count]
  by (simp add: unclaimedSupply_def)

lemma demandOf_count: "demandOf cls ls = of_nat (length (filter (unsatisfied cls) ls))"
  using foldl_count [of "demandStep cls" "unsatisfied cls" 0 ls, OF demandStep_count]
  by (simp add: demandOf_def)

lemma unclaimedSupply_perm: "mset ds = mset es \<Longrightarrow> unclaimedSupply ds cls = unclaimedSupply es cls"
proof -
  assume "mset ds = mset es"
  then have "mset (filter (claimable cls) ds) = mset (filter (claimable cls) es)" by simp
  then have "length (filter (claimable cls) ds) = length (filter (claimable cls) es)"
    by (rule mset_eq_length)
  then show ?thesis by (simp add: unclaimedSupply_count)
qed

subsection \<open>The eviction choice\<close>

definition evictable :: "string \<Rightarrow> Device \<Rightarrow> bool" where
  "evictable cls d \<longleftrightarrow> \<not> devTerminating d \<and> devClass d \<noteq> cls \<and> devPhase d = DeviceReady \<and> devLeaseRef d = []"

abbreviation lastUsed :: "Device \<Rightarrow> time option" where
  "lastUsed d \<equiv> dtLastUsedTime (devStatus d)"

lemma olderLastUsed_less: "olderLastUsed a b \<longleftrightarrow> lastUsed a < lastUsed b \<or> lastUsed a = None"
  by (auto split: option.splits)

lemma lruStep_evictable:
  "lruStep cls best d =
     (if evictable cls d
      then (case best of None \<Rightarrow> Some d | Some b \<Rightarrow> if olderLastUsed d b then Some d else best)
      else best)"
  by (auto simp: lruStep_def evictable_def)

lemma lru_fold:
  "foldl (lruStep cls) best ds = r \<Longrightarrow>
     (case r of
        None \<Rightarrow> best = None \<and> (\<forall>d \<in> set ds. \<not> evictable cls d)
      | Some v \<Rightarrow> (Some v = best \<or> v \<in> set ds \<and> evictable cls v) \<and>
          (\<forall>b. best = Some b \<longrightarrow> lastUsed v \<le> lastUsed b) \<and>
          (\<forall>d \<in> set ds. evictable cls d \<longrightarrow> lastUsed v \<le> lastUsed d))"
proof (induction ds arbitrary: best)
  case Nil
  then show ?case by (auto split: option.splits)
next
  case (Cons d ds)
  let ?b = "lruStep cls best d"
  have IH: "case r of
        None \<Rightarrow> ?b = None \<and> (\<forall>d \<in> set ds. \<not> evictable cls d)
      | Some v \<Rightarrow> (Some v = ?b \<or> v \<in> set ds \<and> evictable cls v) \<and>
          (\<forall>b. ?b = Some b \<longrightarrow> lastUsed v \<le> lastUsed b) \<and>
          (\<forall>d \<in> set ds. evictable cls d \<longrightarrow> lastUsed v \<le> lastUsed d)"
    using Cons by simp
  show ?case
  proof (cases "evictable cls d")
    case False
    with IH show ?thesis by (auto simp: lruStep_evictable split: option.splits)
  next
    case True
    have le: "olderLastUsed d b \<Longrightarrow> lastUsed d \<le> lastUsed b"
      and ge: "\<not> olderLastUsed d b \<Longrightarrow> lastUsed b \<le> lastUsed d" for b
      by (auto simp del: olderLastUsed.simps simp: olderLastUsed_less)
    show ?thesis
    proof (cases best)
      case None
      with True IH show ?thesis by (auto simp: lruStep_evictable split: option.splits)
    next
      case (Some b)
      with True IH le [of b] ge [of b] show ?thesis
        by (cases "olderLastUsed d b")
          (auto simp: lruStep_evictable simp del: olderLastUsed.simps split: option.splits
            intro: order_trans)
    qed
  qed
qed

lemma lruIdleOtherClass_Some:
  assumes "lruIdleOtherClass ds cls = Some v"
  shows "v \<in> set ds" and "evictable cls v"
    and "d \<in> set ds \<Longrightarrow> evictable cls d \<Longrightarrow> lastUsed v \<le> lastUsed d"
  using lru_fold [of cls None ds "Some v"] assms by (auto simp: lruIdleOtherClass_def)

lemma lruIdleOtherClass_None:
  "lruIdleOtherClass ds cls = None \<longleftrightarrow> (\<forall>d \<in> set ds. \<not> evictable cls d)"
proof
  assume "lruIdleOtherClass ds cls = None"
  then show "\<forall>d \<in> set ds. \<not> evictable cls d"
    using lru_fold [of cls None ds None] by (auto simp: lruIdleOtherClass_def)
next
  assume none: "\<forall>d \<in> set ds. \<not> evictable cls d"
  show "lruIdleOtherClass ds cls = None"
  proof (cases "lruIdleOtherClass ds cls")
    case (Some v)
    then show ?thesis using none lruIdleOtherClass_Some(1,2) [of ds cls v] by auto
  qed
qed

end
