(* ===== verification/Lease_Controller.thy ===== *)
theory Lease_Controller
  imports Device_Controller Capacity
begin

text \<open>
  The DeviceLease controller, \<^verbatim>\<open>operator/internal/controller/devicelease_controller.go\<close>: it binds
  a Ready, unleased Device of the requested class by writing the device's \<open>leaseRef\<close> under
  optimistic concurrency, provisions or evicts when there is none, expires leases whose heartbeats
  stop, and frees the device of a lease that is deleted.
\<close>

definition leaseFinalizer :: string where "leaseFinalizer = ''farm.example.com/lease-cleanup''"

subsection \<open>Small operations\<close>

definition ttlDuration :: "DeviceLease \<Rightarrow> duration" where
  "ttlDuration lease = scast (lsTTLSeconds (leaseSpec lease)) * time_Second"

definition boolCondition :: "bool \<Rightarrow> conditionStatus" where
  "boolCondition b = (if b then ConditionTrue else ConditionFalse)"

definition setLeaseMeta :: "objectMeta \<Rightarrow> DeviceLease \<Rightarrow> DeviceLease" where
  "setLeaseMeta m l = l\<lparr>leaseMeta := m\<rparr>"

definition boundCondition :: "DeviceLease \<Rightarrow> LeasePhase \<Rightarrow> string \<Rightarrow> string \<Rightarrow> condition" where
  "boundCondition lease phase reason msg =
     \<lparr> cType = ''Bound'', cStatus = (if phase = LeaseBound then ConditionTrue else ConditionFalse),
       cObservedGeneration = mGeneration (leaseMeta lease), cReason = reason, cMessage = msg,
       cLastTransitionTime = zeroTime \<rparr>"

definition writeStatus ::
    "'w kube \<Rightarrow> DeviceLease \<Rightarrow> LeasePhase \<Rightarrow> string \<Rightarrow> string \<Rightarrow> ('w, goError + unit) state" where
  "writeStatus k lease phase reason msg = do {
     let st = (leaseStatus lease)\<lparr>ltPhase := phase\<rparr>;
     (_, conds) \<leftarrow> setStatusCondition k (ltConditions st) (boundCondition lease phase reason msg);
     tryE (apiUpdateDeviceLeaseStatus k (lease\<lparr>leaseStatus := st\<lparr>ltConditions := conds\<rparr>\<rparr>)) (\<lambda>_. ret (Inr ()))
   }"

definition deviceBoundTo :: "'w kube \<Rightarrow> DeviceLease \<Rightarrow> ('w, goError + Device option) state" where
  "deviceBoundTo k lease =
     tryE (apiListDevices k (leaseNamespace lease) [])
       (\<lambda>devs. ret (Inr (find (\<lambda>d. devLeaseRef d = leaseName lease) devs)))"

definition freeAndReady :: "Device \<Rightarrow> bool" where
  "freeAndReady d \<longleftrightarrow> mDeletionTimestamp (devMeta d) = None \<and> devPhase d = DeviceReady \<and> devLeaseRef d = []"

definition freeReadyDevice :: "'w kube \<Rightarrow> DeviceLease \<Rightarrow> ('w, goError + Device option) state" where
  "freeReadyDevice k lease =
     tryE (apiListDevices k (leaseNamespace lease) [(LabelClass, lsClassRef (leaseSpec lease))])
       (\<lambda>devs. ret (Inr (find freeAndReady devs)))"

definition releasedDevice :: "time \<Rightarrow> Device \<Rightarrow> Device" where
  "releasedDevice now d = d\<lparr>devStatus := (devStatus d)\<lparr>dtLeaseRef := [], dtLastUsedTime := Some now\<rparr>\<rparr>"

definition releaseDevice :: "'w kube \<Rightarrow> DeviceLease \<Rightarrow> ('w, goError + unit) state" where
  "releaseDevice k lease =
     tryE (deviceBoundTo k lease) (\<lambda>dev.
       case dev of
         None \<Rightarrow> ret (Inr ())
       | Some d \<Rightarrow> do {
           now \<leftarrow> clockNow k;
           tryE (apiUpdateDeviceStatus k (releasedDevice now d)) (\<lambda>d'. do {
             r \<leftarrow> apiDeletePod k (devNamespace d', emulatorPodName d');
             (case r of
                Inl ErrNotFound \<Rightarrow> ret (Inr ())
              | Inl e \<Rightarrow> ret (Inl e)
              | Inr _ \<Rightarrow> ret (Inr ()))
           })
         })"

definition deviceHealth :: "'w kube \<Rightarrow> DeviceLease \<Rightarrow> ('w, bool \<times> string \<times> string) state" where
  "deviceHealth k lease =
     (let ref = ltDeviceRef (leaseStatus lease) in
      if ref = [] then ret (False, ''NoDevice'', ''no device bound'')
      else do {
        r \<leftarrow> apiGetDevice k (leaseNamespace lease, ref);
        ret (case r of
               Inl _ \<Rightarrow> (False, ''DeviceMissing'', ''bound device '' @ ref @ '' not found'')
             | Inr dev \<Rightarrow>
                 if devPhase dev = DeviceFailed
                 then (False, ''DeviceFailed'', ''bound device is failed and being recovered'')
                 else (True, ''Healthy'', ''bound device is healthy''))
      })"

subsection \<open>Capacity\<close>

definition offersClass :: "string \<Rightarrow> DevicePool \<Rightarrow> bool" where
  "offersClass cls pool = list_ex (\<lambda>c. pcName c = cls) (dpsClasses (poolSpec pool))"

definition resolvePool :: "'w kube \<Rightarrow> DeviceLease \<Rightarrow> ('w, goError + DevicePool option) state" where
  "resolvePool k lease =
     (if lsPoolRef (leaseSpec lease) \<noteq> [] then do {
        r \<leftarrow> apiGetDevicePool k (leaseNamespace lease, lsPoolRef (leaseSpec lease));
        ret (case r of
               Inl ErrNotFound \<Rightarrow> Inr None
             | Inl e \<Rightarrow> Inl e
             | Inr p \<Rightarrow> Inr (Some p))
      }
      else tryE (apiListDevicePools k (leaseNamespace lease))
             (\<lambda>pools. ret (Inr (find (offersClass (lsClassRef (leaseSpec lease))) pools))))"

definition poolDevices :: "'w kube \<Rightarrow> DevicePool \<Rightarrow> ('w, goError + Device list) state" where
  "poolDevices k pool =
     apiListDevices k (mNamespace (poolMeta pool)) [(LabelPool, mName (poolMeta pool))]"

definition provision :: "'w kube \<Rightarrow> DevicePool \<Rightarrow> DeviceClass \<Rightarrow> ('w, goError + unit) state" where
  "provision k pool dc =
     (let dev = newPoolDevice pool dc in
      tryE (ret (setControllerReference k ''DevicePool'' (poolMeta pool) (devMeta dev)))
        (\<lambda>m. tryE (apiCreateDevice k (setDeviceMeta m dev)) (\<lambda>_. ret (Inr ()))))"

definition evictFor :: "'w kube \<Rightarrow> DeviceLease \<Rightarrow> DevicePool \<Rightarrow> DeviceClass \<Rightarrow> Device \<Rightarrow> ('w, goError + unit) state" where
  "evictFor k lease pool dc victim = do {
     r \<leftarrow> apiDeleteDevice k (devNamespace victim, devName victim);
     tryE (case r of Inl ErrNotFound \<Rightarrow> ret (Inr ()) | Inl e \<Rightarrow> ret (Inl e) | Inr _ \<Rightarrow> ret (Inr ())) (\<lambda>_.
       tryE (provision k pool dc) (\<lambda>_.
         writeStatus k lease LeasePending ''Evicted''
           (''evicted idle '' @ devClass victim @ '' device; provisioning '' @ lsClassRef (leaseSpec lease))))
   }"

definition makeRoom :: "'w kube \<Rightarrow> DeviceLease \<Rightarrow> DevicePool \<Rightarrow> DeviceClass \<Rightarrow> Device list \<Rightarrow> ('w, goError + unit) state" where
  \<comment> \<open>the part of \<open>ensureCapacity\<close> once supply is known to trail demand\<close>
  "makeRoom k lease pool dc devices =
     (let cls = lsClassRef (leaseSpec lease);
          atCapacity = writeStatus k lease LeasePending ''AtCapacity''
            ''pool at maxConcurrent with no idle device of another class to evict''
      in if of_nat (length (activeDevices devices)) <s dpsMaxConcurrent (poolSpec pool)
         then tryE (provision k pool dc) (\<lambda>_.
                writeStatus k lease LeasePending ''Provisioning'' (''provisioning a device of class '' @ cls))
         else if dpsEvictionPolicy (poolSpec pool) = EvictLRUIdle
         then (case lruIdleOtherClass devices cls of
                 Some victim \<Rightarrow> evictFor k lease pool dc victim
               | None \<Rightarrow> atCapacity)
         else atCapacity)"

definition ensureCapacity :: "'w kube \<Rightarrow> DeviceLease \<Rightarrow> ('w, goError + unit) state" where
  "ensureCapacity k lease =
     (let cls = lsClassRef (leaseSpec lease) in
      tryE (resolvePool k lease) (\<lambda>mpool.
        case mpool of
          None \<Rightarrow> writeStatus k lease LeasePending ''NoPool'' (''no DevicePool offers class '' @ cls)
        | Some pool \<Rightarrow> do {
            rc \<leftarrow> apiGetDeviceClass k cls;
            (case rc of
               Inl ErrNotFound \<Rightarrow>
                 writeStatus k lease LeasePending ''DeviceClassNotFound''
                   (''DeviceClass '' @ cls @ '' does not exist'')
             | Inl e \<Rightarrow> ret (Inl e)
             | Inr dc \<Rightarrow>
                 tryE (poolDevices k pool) (\<lambda>devices.
                 tryE (pendingLeaseDemand k (mNamespace (poolMeta pool)) cls) (\<lambda>demand.
                   if demand \<le>s unclaimedSupply devices cls
                   then writeStatus k lease LeasePending ''WaitingForDevice''
                          (''waiting for a provisioning device of class '' @ cls @ '' to become Ready'')
                   else makeRoom k lease pool dc devices)))
          }))"

subsection \<open>Pending and bound leases\<close>

definition boundDevice :: "DeviceLease \<Rightarrow> time \<Rightarrow> Device \<Rightarrow> Device" where
  "boundDevice lease used d =
     d\<lparr>devStatus := (devStatus d)\<lparr>dtLeaseRef := leaseName lease, dtLastUsedTime := Some used\<rparr>\<rparr>"

definition lastUsedOrNow :: "'w kube \<Rightarrow> Device \<Rightarrow> ('w, time) state" where
  "lastUsedOrNow k d =
     (case dtLastUsedTime (devStatus d) of None \<Rightarrow> clockNow k | Some t \<Rightarrow> ret t)"

definition boundLease :: "DeviceLease \<Rightarrow> time \<Rightarrow> Device \<Rightarrow> DeviceLease" where
  \<comment> \<open>the lease as \<open>reconcilePending\<close> fills it in for the device it is bound to\<close>
  "boundLease lease now d =
     (let hb = (case ltLastHeartbeat (leaseStatus lease) of None \<Rightarrow> now | Some t \<Rightarrow> t)
      in lease\<lparr>leaseStatus := (leaseStatus lease)\<lparr>
           ltLastHeartbeat := Some hb, ltDeviceRef := devName d,
           ltADBEndpoint := dtADBEndpoint (devStatus d), ltUIEndpoint := dtUIEndpoint (devStatus d),
           ltExpiresAt := Some (timeAdd hb (ttlDuration lease))\<rparr>\<rparr>)"

definition finishBinding :: "'w kube \<Rightarrow> DeviceLease \<Rightarrow> Device \<Rightarrow> ('w, goError + ctrlResult) state" where
  "finishBinding k lease d = do {
     now \<leftarrow> clockNow k;
     let lease' = boundLease lease now d;
     let expires = timeAdd (case ltLastHeartbeat (leaseStatus lease) of None \<Rightarrow> now | Some t \<Rightarrow> t) (ttlDuration lease);
     tryE (writeStatus k lease' LeaseBound ''Bound'' (''bound to device '' @ devName d)) (\<lambda>_. do {
       now' \<leftarrow> clockNow k;
       ret (Inr (requeueAfter (timeSub expires now')))
     })
   }"

definition reconcilePending :: "'w kube \<Rightarrow> DeviceLease \<Rightarrow> ('w, goError + ctrlResult) state" where
  "reconcilePending k lease =
     tryE (deviceBoundTo k lease) (\<lambda>mine.
       case mine of
         Some d \<Rightarrow> finishBinding k lease d
       | None \<Rightarrow>
           tryE (freeReadyDevice k lease) (\<lambda>free.
             case free of
               None \<Rightarrow> tryE (ensureCapacity k lease) (\<lambda>_. ret (Inr (requeueAfter (2 * time_Second))))
             | Some d \<Rightarrow> do {
                 used \<leftarrow> lastUsedOrNow k d;
                 r \<leftarrow> apiUpdateDeviceStatus k (boundDevice lease used d);
                 (case r of
                    Inl ErrConflict \<Rightarrow> ret (Inr \<lparr> Requeue = True, RequeueAfter = 0 \<rparr>)
                  | Inl e \<Rightarrow> ret (Inl e)
                  | Inr d' \<Rightarrow> finishBinding k lease d')
               }))"

definition healthCondition :: "DeviceLease \<Rightarrow> bool \<times> string \<times> string \<Rightarrow> condition" where
  "healthCondition lease h =
     (case h of (healthy, reason, msg) \<Rightarrow>
        \<lparr> cType = ''DeviceHealthy'', cStatus = boolCondition healthy,
          cObservedGeneration = mGeneration (leaseMeta lease), cReason = reason, cMessage = msg,
          cLastTransitionTime = zeroTime \<rparr>)"

definition withHeartbeat :: "time \<Rightarrow> DeviceLease \<Rightarrow> DeviceLease" where
  "withHeartbeat t lease = lease\<lparr>leaseStatus := (leaseStatus lease)\<lparr>ltLastHeartbeat := Some t\<rparr>\<rparr>"

definition refreshBound :: "'w kube \<Rightarrow> DeviceLease \<Rightarrow> time \<Rightarrow> ('w, goError + ctrlResult) state" where
  \<comment> \<open>the part of \<open>reconcileBound\<close> for a lease that has not expired\<close>
  "refreshBound k lease expires = do {
     h \<leftarrow> deviceHealth k lease;
     (healthChanged, conds) \<leftarrow> setStatusCondition k (ltConditions (leaseStatus lease)) (healthCondition lease h);
     let expiryChanged = (ltExpiresAt (leaseStatus lease) \<noteq> Some expires);
     let lease' = lease\<lparr>leaseStatus := (leaseStatus lease)\<lparr>ltConditions := conds, ltExpiresAt := Some expires\<rparr>\<rparr>;
     tryE (if healthChanged \<or> expiryChanged
           then writeStatus k lease' LeaseBound ''Heartbeat'' ''lease active'' else ret (Inr ())) (\<lambda>_. do {
       now \<leftarrow> clockNow k;
       ret (Inr (requeueAfter (timeSub expires now)))
     })
   }"

definition heartbeatOrNow :: "'w kube \<Rightarrow> DeviceLease \<Rightarrow> ('w, time) state" where
  "heartbeatOrNow k lease =
     (case ltLastHeartbeat (leaseStatus lease) of None \<Rightarrow> clockNow k | Some t \<Rightarrow> ret t)"

definition reconcileBound :: "'w kube \<Rightarrow> DeviceLease \<Rightarrow> ('w, goError + ctrlResult) state" where
  "reconcileBound k lease = do {
     hb \<leftarrow> heartbeatOrNow k lease;
     let lease = withHeartbeat hb lease;
     let expires = timeAdd hb (ttlDuration lease);
     now \<leftarrow> clockNow k;
     (if expires < now
      then tryE (releaseDevice k lease) (\<lambda>_.
             tryE (writeStatus k lease LeaseExpired ''TTLExpired''
                     ''lease expired without a heartbeat; device recycled'') (\<lambda>_. ret (Inr emptyResult)))
      else refreshBound k lease expires)
   }"

subsection \<open>Reconcile\<close>

definition reconcileDeleted :: "'w kube \<Rightarrow> DeviceLease \<Rightarrow> ('w, goError + ctrlResult) state" where
  "reconcileDeleted k lease =
     (if containsFinalizer k (leaseMeta lease) leaseFinalizer
      then tryE (releaseDevice k lease) (\<lambda>_.
             tryE (apiUpdateDeviceLease k (setLeaseMeta (removeFinalizer k (leaseMeta lease) leaseFinalizer) lease))
               (\<lambda>_. ret (Inr emptyResult)))
      else ret (Inr emptyResult))"

definition leaseReconcile :: "'w kube \<Rightarrow> objectKey \<Rightarrow> ('w, goError + ctrlResult) state" where
  "leaseReconcile k req = do {
     r \<leftarrow> apiGetDeviceLease k req;
     (case r of
        Inl ErrNotFound \<Rightarrow> ret (Inr emptyResult)
      | Inl e \<Rightarrow> ret (Inl e)
      | Inr lease \<Rightarrow>
          if leaseTerminating lease then reconcileDeleted k lease
          else if \<not> containsFinalizer k (leaseMeta lease) leaseFinalizer
          then tryE (apiUpdateDeviceLease k (setLeaseMeta (addFinalizer k (leaseMeta lease) leaseFinalizer) lease))
                 (\<lambda>_. ret (Inr emptyResult))
          else (case leasePhase lease of
                  LeaseReleased \<Rightarrow> ret (Inr emptyResult)
                | LeaseFailed \<Rightarrow> ret (Inr emptyResult)
                | LeaseExpired \<Rightarrow> ret (Inr emptyResult)
                | LeaseBound \<Rightarrow> reconcileBound k lease
                | _ \<Rightarrow> reconcilePending k lease))
   }"

definition leasesForDevice :: "'w kube \<Rightarrow> objectMeta \<Rightarrow> ('w, objectKey list) state" where
  "leasesForDevice k obj = do {
     r \<leftarrow> apiListDeviceLeases k (mNamespace obj);
     ret (case r of
            Inl _ \<Rightarrow> []
          | Inr ls \<Rightarrow> map (\<lambda>l. (leaseNamespace l, leaseName l))
              (filter (\<lambda>l. leasePhase l = LeasePhaseUnset \<or> leasePhase l = LeasePending
                         \<or> ltDeviceRef (leaseStatus l) = mName obj) ls))
   }"

end
