(* ===== verification/Policy.thy ===== *)
theory Policy
  imports Kube "HOL-Library.Sublist"
begin

text \<open>
  Write policies. A policy says of every API call a controller makes whether it is permitted,
  given the calls made before it in the same run with their results. \<open>obeys A t\<close>: every
  call of the trace \<open>t\<close> is permitted by \<open>A\<close>. The controllers' safety properties are policies
  their runs obey against every client, so nothing is assumed of the cluster, of other
  actors or of the freshness of what is read.

  \<open>within A l m I\<close> is the proof rule for one program: run after the calls \<open>l\<close>, it only adds
  permitted calls, and the result with the calls so far satisfies \<open>I\<close>; \<open>reading A m I\<close> says, for
  every permitted past, that it adds only reads. The locale
  \<open>write_policy\<close> is the contract shared by all policies (reading is always permitted); what the
  reading operations establish is proved there once.
\<close>

subsection \<open>What a call shows and whether it writes\<close>

fun servedBy :: "action \<Rightarrow> Device list" where
  "servedBy (ActGetDevice _ (Inr d)) = [d]"
| "servedBy (ActListDevices _ _ (Inr ds)) = ds"
| "servedBy (ActUpdateDevice _ (Inr d)) = [d]"
| "servedBy (ActUpdateDeviceStatus _ (Inr d)) = [d]"
| "servedBy (ActCreateDevice _ (Inr d)) = [d]"
| "servedBy _ = []"

definition served :: "action list \<Rightarrow> Device list" where "served h = concat (map servedBy h)"

fun isRead :: "action \<Rightarrow> bool" where
  "isRead (ActClockNow _) = True"
| "isRead (ActGetDevice _ _) = True"
| "isRead (ActGetDeviceClass _ _) = True"
| "isRead (ActGetDevicePool _ _) = True"
| "isRead (ActGetDeviceLease _ _) = True"
| "isRead (ActGetPod _ _) = True"
| "isRead (ActGetService _ _) = True"
| "isRead (ActGetJob _ _) = True"
| "isRead (ActListDevices _ _ _) = True"
| "isRead (ActListDeviceLeases _ _) = True"
| "isRead (ActListDevicePools _ _) = True"
| "isRead _ = False"

abbreviation writesIn :: "action list \<Rightarrow> action list" where
  "writesIn t \<equiv> filter (\<lambda>a. \<not> isRead a) t"

fun createsDevice :: "action \<Rightarrow> bool" where
  "createsDevice (ActCreateDevice _ _) = True"
| "createsDevice _ = False"

lemma served_simps [simp]: "served [] = []" "served (h @ t) = served h @ served t"
  "served (a # t) = servedBy a @ served t"
  by (simp_all add: served_def)

lemma served_prefix: "prefix l l' \<Longrightarrow> d \<in> set (served l) \<Longrightarrow> d \<in> set (served l')"
  by (auto simp: prefix_def)

lemma prefix_in: "prefix l l' \<Longrightarrow> a \<in> set l \<Longrightarrow> a \<in> set l'"
  by (auto simp: prefix_def)

text \<open>A bound on the lists the server returned.\<close>

definition listedWithin :: "int \<Rightarrow> action list \<Rightarrow> bool" where
  "listedWithin b h \<longleftrightarrow> list_all (\<lambda>a. case a of
      ActListDevices _ _ (Inr ds) \<Rightarrow> int (length ds) \<le> b
    | ActListDeviceLeases _ (Inr ls) \<Rightarrow> int (length ls) \<le> b
    | _ \<Rightarrow> True) h"

lemma listedWithinD:
  "listedWithin b h \<Longrightarrow> ActListDevices ns sel (Inr ds) \<in> set h \<Longrightarrow> int (length ds) \<le> b"
  "listedWithin b h \<Longrightarrow> ActListDeviceLeases ns (Inr ls) \<in> set h \<Longrightarrow> int (length ls) \<le> b"
  unfolding listedWithin_def list_all_iff by force+

definition listedShort :: "action list \<Rightarrow> bool" where
  \<comment> \<open>no list has more elements than an \<open>int32\<close> counts\<close>
  "listedShort h \<longleftrightarrow> listedWithin 2147483647 h"

lemma listedShortD:
  "listedShort h \<Longrightarrow> ActListDevices ns sel (Inr ds) \<in> set h \<Longrightarrow> length ds < 2 ^ 31"
  "listedShort h \<Longrightarrow> ActListDeviceLeases ns (Inr ls) \<in> set h \<Longrightarrow> length ls < 2 ^ 31"
  unfolding listedShort_def by (drule (1) listedWithinD; simp)+

lemma listedWithin_prefix: "listedWithin b (h @ t) \<Longrightarrow> listedWithin b h"
  by (simp add: listedWithin_def)

subsection \<open>Policies\<close>

type_synonym policy = "action list \<Rightarrow> action \<Rightarrow> bool"

fun obeysFrom :: "policy \<Rightarrow> action list \<Rightarrow> action list \<Rightarrow> bool" where
  "obeysFrom A h [] = True"
| "obeysFrom A h (a # t) = (A h a \<and> obeysFrom A (h @ [a]) t)"

definition obeys :: "policy \<Rightarrow> action list \<Rightarrow> bool" where
  "obeys A t = obeysFrom A [] t"

lemma obeysFrom_append: "obeysFrom A h (t @ u) \<longleftrightarrow> obeysFrom A h t \<and> obeysFrom A (h @ t) u"
  by (induction t arbitrary: h) auto

lemma obeys_simps [simp]: "obeys A []" "obeys A (t @ [a]) \<longleftrightarrow> obeys A t \<and> A t a"
  by (simp_all add: obeys_def obeysFrom_append)

text \<open>What obeying a policy says of each single call.\<close>

lemma obeysI: "(\<And>h a u. t = h @ a # u \<Longrightarrow> A h a) \<Longrightarrow> obeys A t"
proof (induction t rule: rev_induct)
  case (snoc a t)
  have "A h b" if "t = h @ b # u" for h b u using snoc.prems [of h b "u @ [a]"] that by simp
  then show ?case using snoc.IH snoc.prems [of t a "[]"] by simp
qed simp

lemma obeys_split: "obeys A t \<Longrightarrow> t = h @ a # t' \<Longrightarrow> A h a"
  by (simp add: obeys_def obeysFrom_append)

definition within :: "policy \<Rightarrow> action list \<Rightarrow> ('w \<times> action list, 'a) state \<Rightarrow> ('a \<Rightarrow> action list \<Rightarrow> bool) \<Rightarrow> bool" where
  \<comment> \<open>run from the permitted past \<open>l\<close>, the program adds permitted calls only and establishes \<open>I\<close>\<close>
  "within A l m I \<longleftrightarrow> lwp m (\<lambda>x l'. obeys A l' \<and> prefix l l' \<and> I x l') l"

named_theorems within_intro \<open>rules that step through a program under a policy\<close>

lemma within_ret [within_intro]: "obeys A l \<Longrightarrow> I x l \<Longrightarrow> within A l (ret x) I"
  by (simp add: within_def lwp_ret)

lemma within_bind:
  assumes "within A l m I"
    and "\<And>x l'. obeys A l' \<Longrightarrow> prefix l l' \<Longrightarrow> I x l' \<Longrightarrow> within A l' (f x) J"
  shows "within A l (State_Monad.bind m f) J"
proof -
  have "lwp m (\<lambda>x l'. lwp (f x) (\<lambda>y l''. obeys A l'' \<and> prefix l l'' \<and> J y l'') l') l"
  proof (rule lwp_conseq [OF assms(1) [unfolded within_def]])
    fix x l'
    assume *: "obeys A l' \<and> prefix l l' \<and> I x l'"
    then have "lwp (f x) (\<lambda>y l''. obeys A l'' \<and> prefix l' l'' \<and> J y l'') l'"
      using assms(2) by (simp add: within_def)
    then show "lwp (f x) (\<lambda>y l''. obeys A l'' \<and> prefix l l'' \<and> J y l'') l'"
      by (rule lwp_conseq) (use * in \<open>auto intro: prefix_order.trans\<close>)
  qed
  then show ?thesis by (simp add: within_def lwp_bind)
qed

lemma within_conseq: "within A l m I \<Longrightarrow> (\<And>x l'. prefix l l' \<Longrightarrow> I x l' \<Longrightarrow> J x l') \<Longrightarrow> within A l m J"
  unfolding within_def by (erule lwp_conseq) simp

lemma within_tryE:
  assumes "within A l m I"
    and "\<And>e l'. prefix l l' \<Longrightarrow> I (Inl e) l' \<Longrightarrow> J (Inl e) l'"
    and "\<And>x l'. obeys A l' \<Longrightarrow> prefix l l' \<Longrightarrow> I (Inr x) l' \<Longrightarrow> within A l' (f x) J"
  shows "within A l (tryE m f) J"
  unfolding tryE_def
  by (rule within_bind [OF assms(1)]) (auto intro: within_ret assms(2,3) split: sum.split)

lemma within_call [within_intro]:
  "obeys A l \<Longrightarrow> (\<And>x. A l (C x)) \<Longrightarrow> (\<And>x. I x (l @ [C x])) \<Longrightarrow> within A l (logged C m) I"
  by (auto simp: within_def intro!: lwp_logged)

lemma within_unlogged [within_intro]:
  "obeys A l \<Longrightarrow> (\<And>x. I x l) \<Longrightarrow> within A l (unlogged m) I"
  by (auto simp: within_def intro!: lwp_unlogged)

lemma within_obeys: "within A [] m I \<Longrightarrow> obeys A (traceOf m w)"
  unfolding within_def by (rule lwp_trace [where Q = "\<lambda>_ l. obeys A l"]) (erule lwp_conseq, simp)

text \<open>An operation that only reads, whatever was called before it.\<close>

definition reading :: "policy \<Rightarrow> ('w \<times> action list, 'a) state \<Rightarrow> ('a \<Rightarrow> action list \<Rightarrow> bool) \<Rightarrow> bool" where
  "reading A m I \<longleftrightarrow> (\<forall>l. obeys A l \<longrightarrow> within A l m (\<lambda>x l'. writesIn l' = writesIn l \<and> I x l'))"

lemma readingD: "reading A m I \<Longrightarrow> obeys A l \<Longrightarrow> within A l m (\<lambda>x l'. writesIn l' = writesIn l \<and> I x l')"
  by (simp add: reading_def)

lemma reading_within:
  "(\<And>l. obeys A l \<Longrightarrow> within A l m (\<lambda>x l'. writesIn l' = writesIn l \<and> I x l')) \<Longrightarrow> reading A m I"
  by (simp add: reading_def)

lemma readingI:
  "(\<And>l. obeys A l \<Longrightarrow> lwp m (\<lambda>x l'. obeys A l' \<and> prefix l l' \<and> writesIn l' = writesIn l \<and> I x l') l) \<Longrightarrow> reading A m I"
  by (simp add: reading_def within_def)

subsection \<open>The contract: reading is always permitted\<close>

locale write_policy =
  fixes A :: policy
  assumes reads: "isRead a \<Longrightarrow> A h a"
begin

lemma reading_call:
  assumes "\<And>x. isRead (C x)"
  shows "reading A (logged C m) (\<lambda>x l'. C x \<in> set l')"
  by (rule readingI) (auto intro!: lwp_intro simp: reads assms)

lemma within_readCall:
  assumes "obeys A l" and "\<And>x. isRead (C x)"
  shows "within A l (logged C m) (\<lambda>x l'. l' = l @ [C x])"
  using assms by (auto intro!: within_intro simp: reads)

end

end
