(* ===== verification/Lease_Safety.thy ===== *)
theory Lease_Safety
  imports Lease_Controller Policy
begin

text \<open>
  What a reconcile of the DeviceLease controller is allowed to write. \<open>leaseMay\<close> states, for
  each kind of write, what the run must have read or done before; \<open>lease_run_obeys\<close> proves that
  every run obeys it, against every client.
\<close>

subsection \<open>What a run has seen and done\<close>

definition leaseRead :: "action list \<Rightarrow> DeviceLease option" where
  "leaseRead h = (case h of ActGetDeviceLease _ (Inr le) # _ \<Rightarrow> Some le | _ \<Rightarrow> None)"

definition isPending :: "DeviceLease \<Rightarrow> bool" where
  "isPending le \<longleftrightarrow> \<not> leaseTerminating le \<and> (leasePhase le = LeasePhaseUnset \<or> leasePhase le = LeasePending)"

definition isBound :: "DeviceLease \<Rightarrow> bool" where
  "isBound le \<longleftrightarrow> \<not> leaseTerminating le \<and> leasePhase le = LeaseBound"

definition heartbeatIn :: "action list \<Rightarrow> DeviceLease \<Rightarrow> time \<Rightarrow> bool" where
  \<comment> \<open>the heartbeat the run works with: the recorded one, else a reading of the clock\<close>
  "heartbeatIn h le hb \<longleftrightarrow>
     (case ltLastHeartbeat (leaseStatus le) of Some t \<Rightarrow> hb = t | None \<Rightarrow> ActClockNow hb \<in> set h)"

definition expiredIn :: "action list \<Rightarrow> DeviceLease \<Rightarrow> bool" where
  "expiredIn h le \<longleftrightarrow>
     (\<exists>hb t. heartbeatIn h le hb \<and> ActClockNow t \<in> set h \<and> timeAdd hb (ttlDuration le) < t)"

definition aliveIn :: "action list \<Rightarrow> DeviceLease \<Rightarrow> time \<Rightarrow> bool" where
  "aliveIn h le expires \<longleftrightarrow>
     (\<exists>hb t. heartbeatIn h le hb \<and> expires = timeAdd hb (ttlDuration le) \<and>
        ActClockNow t \<in> set h \<and> t \<le> expires)"

definition gone :: "goError + unit \<Rightarrow> bool" where
  "gone r \<longleftrightarrow> r = Inr () \<or> r = Inl ErrNotFound"

definition freedBy :: "action list \<Rightarrow> DeviceLease \<Rightarrow> Device \<Rightarrow> bool" where
  \<comment> \<open>the update clears the \<open>leaseRef\<close> of a device seen bound to the lease, and nothing else but its last use\<close>
  "freedBy h le x \<longleftrightarrow>
     (\<exists>d0 t. d0 \<in> set (served h) \<and> devLeaseRef d0 = leaseName le \<and> ActClockNow t \<in> set h \<and> x = releasedDevice t d0)"

definition releaseDone :: "action list \<Rightarrow> DeviceLease \<Rightarrow> bool" where
  \<comment> \<open>no device was bound to the lease, or its device was freed and its pod is gone\<close>
  "releaseDone h le \<longleftrightarrow>
     (\<exists>ds. ActListDevices (leaseNamespace le) [] (Inr ds) \<in> set h \<and> (\<forall>d \<in> set ds. devLeaseRef d \<noteq> leaseName le)) \<or>
     (\<exists>x d r. ActUpdateDeviceStatus x (Inr d) \<in> set h \<and> freedBy h le x \<and>
        ActDeletePod (devNamespace d, emulatorPodName d) r \<in> set h \<and> gone r)"

definition holdsIn :: "action list \<Rightarrow> DeviceLease \<Rightarrow> Device \<Rightarrow> bool" where
  \<comment> \<open>the run saw the device bound to the lease, or the server accepted its binding\<close>
  "holdsIn h le d \<longleftrightarrow>
     (d \<in> set (served h) \<and> devLeaseRef d = leaseName le) \<or>
     (\<exists>x. ActUpdateDeviceStatus x (Inr d) \<in> set h \<and> devLeaseRef x = leaseName le)"

definition resolvedIn :: "action list \<Rightarrow> DeviceLease \<Rightarrow> DevicePool \<Rightarrow> bool" where
  "resolvedIn h le pool \<longleftrightarrow>
     (if lsPoolRef (leaseSpec le) \<noteq> []
      then ActGetDevicePool (leaseNamespace le, lsPoolRef (leaseSpec le)) (Inr pool) \<in> set h
      else \<exists>ps. ActListDevicePools (leaseNamespace le) (Inr ps) \<in> set h \<and>
             find (offersClass (lsClassRef (leaseSpec le))) ps = Some pool)"

definition shortageIn :: "action list \<Rightarrow> DeviceLease \<Rightarrow> DevicePool \<Rightarrow> Device list \<Rightarrow> bool" where
  \<comment> \<open>the lease's pool, its devices, and a pending demand they do not cover\<close>
  "shortageIn h le pool ds \<longleftrightarrow>
     resolvedIn h le pool \<and>
     ActListDevices (mNamespace (poolMeta pool)) [(LabelPool, mName (poolMeta pool))] (Inr ds) \<in> set h \<and>
     (\<exists>ls. ActListDeviceLeases (mNamespace (poolMeta pool)) (Inr ls) \<in> set h \<and>
        unclaimedSupply ds (lsClassRef (leaseSpec le)) <s demandOf (lsClassRef (leaseSpec le)) ls)"

definition belowMax :: "DevicePool \<Rightarrow> Device list \<Rightarrow> bool" where
  "belowMax pool ds \<longleftrightarrow> of_nat (length (activeDevices ds)) <s dpsMaxConcurrent (poolSpec pool)"

definition victimIn :: "DeviceLease \<Rightarrow> DevicePool \<Rightarrow> Device list \<Rightarrow> Device \<Rightarrow> bool" where
  "victimIn le pool ds v \<longleftrightarrow>
     \<not> belowMax pool ds \<and> dpsEvictionPolicy (poolSpec pool) = EvictLRUIdle \<and>
     lruIdleOtherClass ds (lsClassRef (leaseSpec le)) = Some v"

subsection \<open>What may be written\<close>

definition mayBind :: "action list \<Rightarrow> DeviceLease \<Rightarrow> Device \<Rightarrow> bool" where
  \<comment> \<open>the run's first write: it claims a free and Ready device of the class for the lease\<close>
  "mayBind h le x \<longleftrightarrow> isPending le \<and> writesIn h = [] \<and>
     (\<exists>ds d0 used. ActListDevices (leaseNamespace le) [(LabelClass, lsClassRef (leaseSpec le))] (Inr ds) \<in> set h \<and>
        d0 \<in> set ds \<and> freeAndReady d0 \<and> x = boundDevice le used d0 \<and>
        (case dtLastUsedTime (devStatus d0) of Some t \<Rightarrow> used = t | None \<Rightarrow> ActClockNow used \<in> set h))"

definition mayFree :: "'w kube \<Rightarrow> action list \<Rightarrow> DeviceLease \<Rightarrow> Device \<Rightarrow> bool" where
  \<comment> \<open>the run's first write: the lease is being deleted, or its heartbeats have stopped\<close>
  "mayFree k h le x \<longleftrightarrow> freedBy h le x \<and> writesIn h = [] \<and>
     (leaseTerminating le \<and> containsFinalizer k (leaseMeta le) leaseFinalizer \<or> isBound le \<and> expiredIn h le)"

definition mayRecycle :: "action list \<Rightarrow> DeviceLease \<Rightarrow> objectKey \<Rightarrow> bool" where
  "mayRecycle h le key \<longleftrightarrow>
     (\<exists>x d. ActUpdateDeviceStatus x (Inr d) \<in> set h \<and> freedBy h le x \<and> key = (devNamespace d, emulatorPodName d))"

definition mayEdit :: "'w kube \<Rightarrow> action list \<Rightarrow> DeviceLease \<Rightarrow> DeviceLease \<Rightarrow> bool" where
  "mayEdit k h le l \<longleftrightarrow>
     (if leaseTerminating le
      then containsFinalizer k (leaseMeta le) leaseFinalizer \<and> releaseDone h le \<and>
        l = setLeaseMeta (removeFinalizer k (leaseMeta le) leaseFinalizer) le
      else \<not> containsFinalizer k (leaseMeta le) leaseFinalizer \<and>
        l = setLeaseMeta (addFinalizer k (leaseMeta le) leaseFinalizer) le)"

definition mayReport :: "'w kube \<Rightarrow> action list \<Rightarrow> DeviceLease \<Rightarrow> DeviceLease \<Rightarrow> bool" where
  "mayReport k h le l \<longleftrightarrow>
     leaseMeta l = leaseMeta le \<and> leaseSpec l = leaseSpec le \<and>
     containsFinalizer k (leaseMeta le) leaseFinalizer \<and>
     (case leasePhase l of
        LeasePending \<Rightarrow> isPending le
      | LeaseBound \<Rightarrow>
          (isPending le \<and>
             (\<exists>d hb. holdsIn h le d \<and> heartbeatIn h le hb \<and> ltDeviceRef (leaseStatus l) = devName d \<and>
                ltADBEndpoint (leaseStatus l) = dtADBEndpoint (devStatus d) \<and>
                ltExpiresAt (leaseStatus l) = Some (timeAdd hb (ttlDuration le)))) \<or>
          (isBound le \<and> ltDeviceRef (leaseStatus l) = ltDeviceRef (leaseStatus le) \<and>
             ltADBEndpoint (leaseStatus l) = ltADBEndpoint (leaseStatus le) \<and>
             (\<exists>e. aliveIn h le e \<and> ltExpiresAt (leaseStatus l) = Some e))
      | LeaseExpired \<Rightarrow> isBound le \<and> expiredIn h le \<and> releaseDone h le
      | _ \<Rightarrow> False)"

definition mayProvision :: "'w kube \<Rightarrow> action list \<Rightarrow> DeviceLease \<Rightarrow> Device \<Rightarrow> bool" where
  \<comment> \<open>the run's first write while the pool is below its maximum, else the second, after the eviction\<close>
  "mayProvision k h le x \<longleftrightarrow> isPending le \<and>
     (\<exists>pool ds dc m. shortageIn h le pool ds \<and> ActGetDeviceClass (lsClassRef (leaseSpec le)) (Inr dc) \<in> set h \<and>
        setControllerReference k ''DevicePool'' (poolMeta pool) (devMeta (newPoolDevice pool dc)) = Inr m \<and>
        x = setDeviceMeta m (newPoolDevice pool dc) \<and>
        (belowMax pool ds \<and> writesIn h = [] \<or>
          (\<exists>v r. victimIn le pool ds v \<and> writesIn h = [ActDeleteDevice (devNamespace v, devName v) r] \<and> gone r)))"

definition mayEvict :: "action list \<Rightarrow> DeviceLease \<Rightarrow> objectKey \<Rightarrow> bool" where
  "mayEvict h le key \<longleftrightarrow> isPending le \<and> writesIn h = [] \<and>
     (\<exists>pool ds v. shortageIn h le pool ds \<and> victimIn le pool ds v \<and> key = (devNamespace v, devName v))"

definition leaseMay :: "'w kube \<Rightarrow> policy" where
  "leaseMay k h a =
     (isRead a \<or>
      (case leaseRead h of
         None \<Rightarrow> False
       | Some le \<Rightarrow>
           (case a of
              ActUpdateDeviceStatus x _ \<Rightarrow> mayBind h le x \<or> mayFree k h le x
            | ActDeletePod key _ \<Rightarrow> mayRecycle h le key
            | ActUpdateDeviceLease l _ \<Rightarrow> mayEdit k h le l
            | ActUpdateDeviceLeaseStatus l _ \<Rightarrow> mayReport k h le l
            | ActCreateDevice x _ \<Rightarrow> mayProvision k h le x
            | ActDeleteDevice key _ \<Rightarrow> mayEvict h le key
            | _ \<Rightarrow> False)))"

subsection \<open>The reading operations, under any policy\<close>

context write_policy begin

lemma reading_deviceBoundTo:
  "reading A (deviceBoundTo (traced k) le)
     (\<lambda>r l. case r of
        Inl _ \<Rightarrow> True
      | Inr None \<Rightarrow> (\<exists>ds. ActListDevices (leaseNamespace le) [] (Inr ds) \<in> set l \<and> (\<forall>d \<in> set ds. devLeaseRef d \<noteq> leaseName le))
      | Inr (Some d) \<Rightarrow> d \<in> set (served l) \<and> devLeaseRef d = leaseName le)"
  unfolding deviceBoundTo_def
  by (rule readingI) (auto intro!: lwp_intro exI simp: reads find_None_iff split: sum.split option.split dest!: find_SomeD)

lemma reading_freeReadyDevice:
  "reading A (freeReadyDevice (traced k) le)
     (\<lambda>r l. \<forall>d. r = Inr (Some d) \<longrightarrow> freeAndReady d \<and>
        (\<exists>ds. ActListDevices (leaseNamespace le) [(LabelClass, lsClassRef (leaseSpec le))] (Inr ds) \<in> set l \<and> d \<in> set ds))"
  unfolding freeReadyDevice_def
  by (rule readingI) (fastforce intro!: lwp_intro simp: reads split: sum.split dest!: find_SomeD)

lemma reading_resolvePool:
  "reading A (resolvePool (traced k) le) (\<lambda>r l. \<forall>pool. r = Inr (Some pool) \<longrightarrow> resolvedIn l le pool)"
  unfolding resolvePool_def
  by (rule readingI) (auto intro!: lwp_intro exI simp: reads resolvedIn_def split: sum.splits goError.splits)

lemma reading_pendingLeaseDemand:
  "reading A (pendingLeaseDemand (traced k) ns cls)
     (\<lambda>r l. \<forall>n. r = Inr n \<longrightarrow> (\<exists>ls. ActListDeviceLeases ns (Inr ls) \<in> set l \<and> n = demandOf cls ls))"
  unfolding pendingLeaseDemand_def
  by (rule readingI) (auto intro!: lwp_intro exI simp: reads split: sum.split)

lemma reading_poolDevices:
  "reading A (poolDevices (traced k) pool)
     (\<lambda>r l. ActListDevices (mNamespace (poolMeta pool)) [(LabelPool, mName (poolMeta pool))] r \<in> set l)"
  unfolding poolDevices_def by (simp add: reading_call)

lemma reading_deviceHealth: "reading A (deviceHealth (traced k) le) (\<lambda>_ _. True)"
  unfolding deviceHealth_def Let_def
  by (rule readingI) (auto intro!: lwp_intro simp: reads split: sum.split)

lemma reading_heartbeatOrNow:
  "reading A (heartbeatOrNow (traced k) le) (\<lambda>hb l. heartbeatIn l le hb)"
  unfolding heartbeatOrNow_def
  by (rule readingI) (auto intro!: lwp_intro simp: reads heartbeatIn_def split: option.split)

lemma reading_lastUsedOrNow:
  "reading A (lastUsedOrNow (traced k) d)
    (\<lambda>u l. case dtLastUsedTime (devStatus d) of Some t \<Rightarrow> u = t | None \<Rightarrow> ActClockNow u \<in> set l)"
  unfolding lastUsedOrNow_def
  by (rule readingI) (auto intro!: lwp_intro simp: reads split: option.split)
end

interpretation lp: write_policy "leaseMay k" for k :: "'w kube"
  by unfold_locales (simp add: leaseMay_def)

text \<open>What a run has seen stays seen.\<close>

lemma heartbeatIn_mono: "prefix h h' \<Longrightarrow> heartbeatIn h le hb \<Longrightarrow> heartbeatIn h' le hb"
  by (auto simp: heartbeatIn_def dest: prefix_in split: option.splits)

lemma freedBy_mono: "prefix h h' \<Longrightarrow> freedBy h le x \<Longrightarrow> freedBy h' le x"
  unfolding freedBy_def by (blast dest: served_prefix prefix_in)

lemma expiredIn_mono: "prefix h h' \<Longrightarrow> expiredIn h le \<Longrightarrow> expiredIn h' le"
  unfolding expiredIn_def by (meson heartbeatIn_mono prefix_in)

lemma releaseDone_mono: "prefix h h' \<Longrightarrow> releaseDone h le \<Longrightarrow> releaseDone h' le"
  unfolding releaseDone_def by (meson freedBy_mono prefix_in)

lemma holdsIn_mono: "prefix h h' \<Longrightarrow> holdsIn h le d \<Longrightarrow> holdsIn h' le d"
  unfolding holdsIn_def by (meson served_prefix prefix_in)

lemma resolvedIn_mono: "prefix h h' \<Longrightarrow> resolvedIn h le p \<Longrightarrow> resolvedIn h' le p"
  unfolding resolvedIn_def by (simp split: if_splits) (blast dest: prefix_in)+

lemma shortageIn_mono: "prefix h h' \<Longrightarrow> shortageIn h le p ds \<Longrightarrow> shortageIn h' le p ds"
  unfolding shortageIn_def by (meson resolvedIn_mono prefix_in)

lemma leaseRead_mono: "prefix h h' \<Longrightarrow> leaseRead h = Some le \<Longrightarrow> leaseRead h' = Some le"
  by (auto simp: leaseRead_def prefix_def split: list.splits action.splits sum.splits)

lemmas seen = heartbeatIn_mono freedBy_mono expiredIn_mono releaseDone_mono holdsIn_mono
  shortageIn_mono leaseRead_mono prefix_in served_prefix

subsection \<open>Every run obeys the policy\<close>

lemma leaseMayI:
  "leaseRead l = Some le \<Longrightarrow> mayReport k l le x \<Longrightarrow> leaseMay k l (ActUpdateDeviceLeaseStatus x r)"
  by (simp add: leaseMay_def)

definition reported :: "DeviceLease \<Rightarrow> LeasePhase \<Rightarrow> condition list \<Rightarrow> DeviceLease" where
  "reported le phase conds = le\<lparr>leaseStatus := (leaseStatus le)\<lparr>ltPhase := phase, ltConditions := conds\<rparr>\<rparr>"

lemma within_writeStatus:
  assumes "obeys (leaseMay k) l" and "leaseRead l = Some le" and "\<And>conds. mayReport k l le (reported le' phase conds)"
  shows "within (leaseMay k) l (writeStatus (traced k) le' phase reason msg) (\<lambda>_ _. True)"
proof -
  have ok: "leaseMay k l (ActUpdateDeviceLeaseStatus
     (le'\<lparr>leaseStatus := (leaseStatus le')\<lparr>ltPhase := phase, ltConditions := conds\<rparr>\<rparr>) r)" for conds r
    using leaseMayI [OF assms(2) assms(3)] by (simp add: reported_def)
  show ?thesis
    unfolding writeStatus_def Let_def
    using assms(1) by (auto intro!: within_bind [where I = "\<lambda>_ l'. l' = l"] within_tryE [where I = "\<lambda>_ _. True"] within_intro ok)
qed

lemma within_deletePod:
  assumes "obeys (leaseMay k) l" and "leaseRead l = Some le" and "mayRecycle l le key"
  shows "within (leaseMay k) l (apiDeletePod (traced k) key) (\<lambda>r l'. ActDeletePod key r \<in> set l')"
  using assms by (auto intro!: within_intro simp: leaseMay_def)

lemma within_releaseDevice:
  assumes "obeys (leaseMay k) l" and le: "leaseRead l = Some le" "leaseName le' = leaseName le" "leaseNamespace le' = leaseNamespace le"
    and due: "leaseTerminating le \<and> containsFinalizer k (leaseMeta le) leaseFinalizer \<or> isBound le \<and> expiredIn l le"
    and q: "writesIn l = []"
  shows "within (leaseMay k) l (releaseDevice (traced k) le') (\<lambda>r l'. r = Inr () \<longrightarrow> releaseDone l' le)"
  unfolding releaseDevice_def
proof (rule within_tryE [OF readingD [OF lp.reading_deviceBoundTo assms(1)]], simp, goal_cases)
  case (1 dev l1)
  note l1 = 1(1,2) and dev = 1(3)
  have le1: "leaseRead l1 = Some le" using l1 le by (auto dest: seen)
  show ?case
  proof (cases dev)
    case None
    then show ?thesis using l1 dev le by (auto intro!: within_intro simp: releaseDone_def)
  next
    case (Some d)
    show ?thesis unfolding Some option.case
    proof (rule within_bind [where I = "\<lambda>now l'. l' = l1 @ [ActClockNow now]"], goal_cases)
      case 1
      show ?case using l1 by (auto intro!: within_intro simp: lp.reads)
    next
      case (2 now l2)
      have le2: "leaseRead l2 = Some le" using seen [OF 2(2)] le1 by blast
      have freed: "freedBy l2 le (releasedDevice now d)"
        using 2 dev Some le by (auto simp: freedBy_def)
      have due2: "mayFree k l2 le (releasedDevice now d)"
        using freed due expiredIn_mono [OF 2(2)] expiredIn_mono [OF l1(2)] 2(3) dev q
        unfolding mayFree_def by auto
      show ?case
      proof (rule within_tryE [where I = "\<lambda>r l'. ActUpdateDeviceStatus (releasedDevice now d) r \<in> set l'"], goal_cases)
        case 1
        show ?case using 2 le2 due2 by (auto intro!: within_intro simp: leaseMay_def)
      next
        case (3 d' l3)
        have le3: "leaseRead l3 = Some le" and freed3: "freedBy l3 le (releasedDevice now d)"
          using 3 le2 freed by (auto dest: seen)
        show ?case
        proof (rule within_bind [OF within_deletePod [OF 3(1) le3]], goal_cases)
          case 1
          show ?case using 3 freed3 by (auto simp: mayRecycle_def)
        next
          case (2 r l4)
          then have "gone r \<Longrightarrow> releaseDone l4 le"
            using 3 freed3 unfolding releaseDone_def by (blast dest: seen)
          then show ?case using 2 
            by (auto intro!: within_intro simp: gone_def split: sum.split goError.split)
        qed
      qed simp
    qed
  qed
qed


lemma within_provision:
  assumes "obeys (leaseMay k) l" and le: "leaseRead l = Some le" and "isPending le"
    and "shortageIn l le pool ds" and "ActGetDeviceClass (lsClassRef (leaseSpec le)) (Inr dc) \<in> set l"
    and "belowMax pool ds \<and> writesIn l = [] \<or>
      (\<exists>v r. victimIn le pool ds v \<and> writesIn l = [ActDeleteDevice (devNamespace v, devName v) r] \<and> gone r)"
  shows "within (leaseMay k) l (provision (traced k) pool dc) (\<lambda>_ _. True)"
proof -
  have "mayProvision k l le (setDeviceMeta m (newPoolDevice pool dc))"
    if "setControllerReference k ''DevicePool'' (poolMeta pool) (devMeta (newPoolDevice pool dc)) = Inr m" for m
    using assms that unfolding mayProvision_def by blast
  then have ok: "leaseMay k l (ActCreateDevice (setDeviceMeta m (newPoolDevice pool dc)) r)"
    if "setControllerReference k ''DevicePool'' (poolMeta pool) (devMeta (newPoolDevice pool dc)) = Inr m" for m r
    using le that by (simp add: leaseMay_def)
  show ?thesis unfolding provision_def Let_def
    using assms(1) ok
    by (cases "setControllerReference k ''DevicePool'' (poolMeta pool) (devMeta (newPoolDevice pool dc))")
     (auto simp: tryE_def intro!: within_bind [where I = "\<lambda>_ _. True"] within_intro split: sum.split)
qed

lemma mayReport_pending:
  assumes "leaseRead l = Some le" and "isPending le" and "containsFinalizer k (leaseMeta le) leaseFinalizer"
  shows "mayReport k l le (reported le LeasePending conds)"
  using assms by (simp add: mayReport_def reported_def)

lemma within_writePending:
  assumes "obeys (leaseMay k) l" and "leaseRead l = Some le" and "isPending le" and "containsFinalizer k (leaseMeta le) leaseFinalizer"
  shows "within (leaseMay k) l (writeStatus (traced k) le LeasePending reason msg) (\<lambda>_ _. True)"
  using assms by (auto intro: within_writeStatus mayReport_pending)

lemma within_evictFor:
  assumes "obeys (leaseMay k) l" and le: "leaseRead l = Some le" and p: "isPending le" "containsFinalizer k (leaseMeta le) leaseFinalizer"
    and q: "writesIn l = []"
    and s: "shortageIn l le pool ds" and dc: "ActGetDeviceClass (lsClassRef (leaseSpec le)) (Inr dc) \<in> set l"
    and v: "victimIn le pool ds v"
  shows "within (leaseMay k) l (evictFor (traced k) le pool dc v) (\<lambda>_ _. True)"
  unfolding evictFor_def
proof (rule within_bind [where I = "\<lambda>r l'. l' = l @ [ActDeleteDevice (devNamespace v, devName v) r]"], goal_cases)
  case 1
  have "mayEvict l le (devNamespace v, devName v)" using assms unfolding mayEvict_def by blast
  then show ?case using assms(1) le by (auto intro!: within_intro simp: leaseMay_def)
next
  case (2 r l1)
  have l1: "leaseRead l1 = Some le" "shortageIn l1 le pool ds" "ActGetDeviceClass (lsClassRef (leaseSpec le)) (Inr dc) \<in> set l1"
    using seen [OF 2(2)] le s dc by blast+
  show ?case
  proof (rule within_tryE [where I = "\<lambda>x l'. l' = l1 \<and> (x = Inr () \<longrightarrow> gone r)"], goal_cases)
    case 1
    show ?case using 2 by (auto intro!: within_intro simp: gone_def split: sum.split goError.split)
  next
    case (3 u l2)
    have "victimIn le pool ds v \<and> writesIn l2 = [ActDeleteDevice (devNamespace v, devName v) r] \<and> gone r"
      using 3 2 v q by auto
    then have "within (leaseMay k) l2 (provision (traced k) pool dc) (\<lambda>_ _. True)"
      using 3 l1 by (intro within_provision [OF _ _ p(1)]) auto
    then show ?case
    proof (rule within_tryE, goal_cases)
      case (2 x l3)
      then show ?case using 3 l1 p by (auto intro!: within_writePending dest: seen)
    qed simp
  qed simp
qed

lemma within_makeRoom:
  assumes "obeys (leaseMay k) l" and le: "leaseRead l = Some le" and p: "isPending le" "containsFinalizer k (leaseMeta le) leaseFinalizer"
    and q: "writesIn l = []"
    and s: "shortageIn l le pool ds" and dc: "ActGetDeviceClass (lsClassRef (leaseSpec le)) (Inr dc) \<in> set l"
  shows "within (leaseMay k) l (makeRoom (traced k) le pool dc ds) (\<lambda>_ _. True)"
proof -
  consider (below) "belowMax pool ds"
    | (evict) v where "victimIn le pool ds v" "\<not> belowMax pool ds"
    | (full) "makeRoom (traced k) le pool dc ds = writeStatus (traced k) le LeasePending ''AtCapacity''
            ''pool at maxConcurrent with no idle device of another class to evict''"
    by (cases "belowMax pool ds"; cases "dpsEvictionPolicy (poolSpec pool) = EvictLRUIdle";
        cases "lruIdleOtherClass ds (lsClassRef (leaseSpec le))")
      (auto simp: makeRoom_def victimIn_def belowMax_def Let_def)
  then show ?thesis
  proof cases
    case below
    then have "within (leaseMay k) l (provision (traced k) pool dc) (\<lambda>_ _. True)"
      using assms by (intro within_provision) auto
    then have "within (leaseMay k) l (tryE (provision (traced k) pool dc) (\<lambda>_.
       writeStatus (traced k) le LeasePending ''Provisioning'' (''provisioning a device of class '' @ lsClassRef (leaseSpec le)))) (\<lambda>_ _. True)"
      by (rule within_tryE) (use le p in \<open>auto intro!: within_writePending dest: seen\<close>)
    then show ?thesis using below by (simp add: makeRoom_def belowMax_def)
  next
    case evict
    then have "makeRoom (traced k) le pool dc ds = evictFor (traced k) le pool dc v"
      by (simp add: makeRoom_def victimIn_def belowMax_def)
    then show ?thesis using within_evictFor assms evict(1) by metis
  next
    case full
    then show ?thesis using assms by (simp add: within_writePending)
  qed
qed


lemma within_ensureCapacity:
  assumes l: "obeys (leaseMay k) l" and le: "leaseRead l = Some le"
    and p: "isPending le" "containsFinalizer k (leaseMeta le) leaseFinalizer" and q: "writesIn l = []"
  shows "within (leaseMay k) l (ensureCapacity (traced k) le) (\<lambda>_ _. True)"
  unfolding ensureCapacity_def Let_def
proof (rule within_tryE [OF readingD [OF lp.reading_resolvePool l]], simp, goal_cases)
  case (1 mpool l1)
  have l1: "obeys (leaseMay k) l1" "prefix l l1" using 1 by simp_all
  have le1: "leaseRead l1 = Some le" and q1: "writesIn l1 = []"
    using seen [OF l1(2)] le 1 q by auto
  show ?case
  proof (cases mpool)
    case None
    then show ?thesis using within_writePending l1 le1 p by simp
  next
    case (Some pool)
    show ?thesis unfolding Some option.case traced_simps
    proof (rule within_bind [OF lp.within_readCall], goal_cases)
      case (3 rc l2)
      have le2: "leaseRead l2 = Some le" and q2: "writesIn l2 = []" and pool2: "resolvedIn l2 le pool"
        using seen [OF 3(2)] le1 q1 3(3) 1(3) Some resolvedIn_mono [OF 3(2)] by auto
      show ?case
      proof (cases rc)
        case (Inl e)
        then show ?thesis using 3(1) le2 p by (cases e) (auto intro!: within_writePending within_intro)
      next
        case (Inr dc)
        have dc: "ActGetDeviceClass (lsClassRef (leaseSpec le)) (Inr dc) \<in> set l2" using 3(3) Inr by simp
        show ?thesis unfolding Inr sum.case
        proof (rule within_tryE [OF readingD [OF lp.reading_poolDevices 3(1)]], simp, rule within_tryE [OF readingD [OF lp.reading_pendingLeaseDemand]], assumption, simp, goal_cases)
          case (1 devices l3 demand l4)
          have l4: "prefix l2 l4" and w4: "writesIn l4 = writesIn l2" using 1 by (auto intro: prefix_order.trans)
          have le4: "leaseRead l4 = Some le" and q4: "writesIn l4 = []"
            and dc4: "ActGetDeviceClass (lsClassRef (leaseSpec le)) (Inr dc) \<in> set l4"
            and pool4: "resolvedIn l4 le pool"
            and ds4: "ActListDevices (mNamespace (poolMeta pool)) [(LabelPool, mName (poolMeta pool))] (Inr devices) \<in> set l4"
            using seen [OF l4] le2 q2 w4 dc pool2 resolvedIn_mono [OF l4] prefix_in [OF 1(5)] 1 by auto
          show ?case
          proof (cases "demand \<le>s unclaimedSupply devices (lsClassRef (leaseSpec le))")
            case True
            then show ?thesis using within_writePending 1 le4 p by simp
          next
            case False
            then have "shortageIn l4 le pool devices"
              using pool4 ds4 1 by (auto simp: shortageIn_def word_sless_alt word_sle_eq not_le)
            then show ?thesis using False within_makeRoom [OF 1(4) le4 p q4 _ dc4] by simp
          qed
        qed
      qed
    qed (use l1 in simp_all)
  qed
qed

lemma mayReport_bound:
  assumes "leaseRead l = Some le" and "isPending le" and "containsFinalizer k (leaseMeta le) leaseFinalizer"
    and "holdsIn l le d" and "ActClockNow now \<in> set l"
  shows "mayReport k l le (reported (boundLease le now d) LeaseBound conds)"
proof -
  have "heartbeatIn l le (case ltLastHeartbeat (leaseStatus le) of None \<Rightarrow> now | Some t \<Rightarrow> t)"
    using assms(5) by (simp add: heartbeatIn_def split: option.split)
  then show ?thesis
    using assms by (auto simp: mayReport_def reported_def boundLease_def Let_def)
qed

lemma within_finishBinding:
  assumes l: "obeys (leaseMay k) l" and le: "leaseRead l = Some le"
    and p: "isPending le" "containsFinalizer k (leaseMeta le) leaseFinalizer" and d: "holdsIn l le d"
  shows "within (leaseMay k) l (finishBinding (traced k) le d) (\<lambda>_ _. True)"
  unfolding finishBinding_def Let_def traced_simps
proof (rule within_bind [OF lp.within_readCall [OF l]], simp, goal_cases)
  case (1 now l1)
  have l1: "leaseRead l1 = Some le" "holdsIn l1 le d" "ActClockNow now \<in> set l1"
    using seen [OF 1(2)] le d 1(3) by auto
  show ?case
    by (rule within_tryE [OF within_writeStatus [OF 1(1) l1(1)]])
      (use mayReport_bound [OF l1(1) p l1(2,3)] in
        \<open>auto intro!: within_bind [OF lp.within_readCall] within_intro\<close>)
qed

lemma within_reconcilePending:
  assumes l: "obeys (leaseMay k) l" and le: "leaseRead l = Some le"
    and p: "isPending le" "containsFinalizer k (leaseMeta le) leaseFinalizer" and q: "writesIn l = []"
  shows "within (leaseMay k) l (reconcilePending (traced k) le) (\<lambda>_ _. True)"
  unfolding reconcilePending_def
proof (rule within_tryE [OF readingD [OF lp.reading_deviceBoundTo l]], simp, goal_cases)
  case (1 mine l1)
  note mine = 1
  have le1: "leaseRead l1 = Some le" and q1: "writesIn l1 = []" using seen [OF 1(2)] le 1 q by auto
  show ?case
  proof (cases mine)
    case (Some d)
    then show ?thesis using mine le1 p by (auto intro!: within_finishBinding simp: holdsIn_def)
  next
    case None
    show ?thesis unfolding None option.case
    proof (rule within_tryE [OF readingD [OF lp.reading_freeReadyDevice mine(1)]], simp, goal_cases)
      case (1 free l2)
      note free = 1
      have le2: "leaseRead l2 = Some le" and q2: "writesIn l2 = []" using seen [OF 1(2)] le1 1 q1 by auto
      show ?case
      proof (cases free)
        case None
        then show ?thesis
          using within_ensureCapacity [OF free(1) le2 p q2] by (auto intro!: within_tryE within_intro)
      next
        case (Some d)
        show ?thesis unfolding Some option.case
        proof (rule within_bind [OF readingD [OF lp.reading_lastUsedOrNow free(1)]], goal_cases)
          case (1 used l3)
          have le3: "leaseRead l3 = Some le" and q3: "writesIn l3 = []" using seen [OF 1(2)] le2 q2 1 by simp_all
          obtain ds where ds: "ActListDevices (leaseNamespace le) [(LabelClass, lsClassRef (leaseSpec le))] (Inr ds) \<in> set l2"
            "d \<in> set ds" "freeAndReady d" using free Some by blast
          have "mayBind l3 le (boundDevice le used d)"
            using p(1) q3 prefix_in [OF 1(2) ds(1)] ds(2,3) 1(3) unfolding mayBind_def by blast
          with le3 have may: "leaseMay k l3 (ActUpdateDeviceStatus (boundDevice le used d) r)" for r
            by (simp add: leaseMay_def)
          show ?case unfolding traced_simps
          proof (rule within_bind [OF within_call [where I = "\<lambda>r l'. ActUpdateDeviceStatus (boundDevice le used d) r \<in> set l'", OF 1(1) may]], simp, goal_cases)
            case (1 r l4)
            have le4: "leaseRead l4 = Some le" using seen [OF 1(2)] le3 by auto
            have "within (leaseMay k) l4 (finishBinding (traced k) le d') (\<lambda>_ _. True)" if "r = Inr d'" for d'
              by (rule within_finishBinding [OF 1(1) le4 p])
                (use 1(3) that in \<open>auto simp: holdsIn_def boundDevice_def\<close>)
            then show ?case using 1(1) by (auto intro!: within_intro split: sum.split goError.split)
          qed
        qed
      qed
    qed
  qed
qed

lemma withHeartbeat_simps [simp]:
  "leaseMeta (withHeartbeat hb le) = leaseMeta le" "leaseSpec (withHeartbeat hb le) = leaseSpec le"
  "ttlDuration (withHeartbeat hb le) = ttlDuration le"
  "leasePhase (withHeartbeat hb le) = leasePhase le"
  "ltDeviceRef (leaseStatus (withHeartbeat hb le)) = ltDeviceRef (leaseStatus le)"
  "ltADBEndpoint (leaseStatus (withHeartbeat hb le)) = ltADBEndpoint (leaseStatus le)"
  by (simp_all add: withHeartbeat_def ttlDuration_def)

lemma within_refreshBound:
  assumes l: "obeys (leaseMay k) l" and le: "leaseRead l = Some le"
    and b: "isBound le" "containsFinalizer k (leaseMeta le) leaseFinalizer" and e: "aliveIn l le e"
  shows "within (leaseMay k) l (refreshBound (traced k) (withHeartbeat hb le) e) (\<lambda>_ _. True)"
  unfolding refreshBound_def
proof (rule within_bind [OF readingD [OF lp.reading_deviceHealth l]], goal_cases)
  case (1 h l1)
  have l1: "leaseRead l1 = Some le" "aliveIn l1 le e"
    using seen [OF 1(2)] le e unfolding aliveIn_def by blast+
  have may: "mayReport k l1 le (reported ((withHeartbeat hb le)\<lparr>leaseStatus :=
      (leaseStatus (withHeartbeat hb le))\<lparr>ltConditions := conds, ltExpiresAt := Some e\<rparr>\<rparr>) LeaseBound conds')" for conds conds'
    using l1 b by (auto simp: mayReport_def reported_def)
  show ?case unfolding traced_simps Let_def
  proof (rule within_bind [where I = "\<lambda>_ l'. l' = l1"], goal_cases)
    case 1
    show ?case using \<open>obeys (leaseMay k) l1\<close> by (auto intro!: within_intro)
  next
    case (2 hc l2)
    then show ?case using l1 may
      by (cases hc) (auto intro!: within_tryE [where I = "\<lambda>_ _. True"] within_writeStatus within_bind [OF lp.within_readCall] within_intro)
  qed
qed

lemma within_reconcileBound:
  assumes l: "obeys (leaseMay k) l" and le: "leaseRead l = Some le"
    and b: "isBound le" "containsFinalizer k (leaseMeta le) leaseFinalizer" and q: "writesIn l = []"
  shows "within (leaseMay k) l (reconcileBound (traced k) le) (\<lambda>_ _. True)"
  unfolding reconcileBound_def Let_def withHeartbeat_simps
proof (rule within_bind [OF readingD [OF lp.reading_heartbeatOrNow l]], unfold traced_simps,
    rule within_bind [OF lp.within_readCall], assumption, simp, goal_cases)
  case (1 hb l1 now l2)
  have l2: "leaseRead l2 = Some le" "heartbeatIn l2 le hb" "ActClockNow now \<in> set l2"
    using 1 seen [OF 1(2)] seen [OF 1(5)] le by auto
  show ?case
  proof (cases "timeAdd hb (ttlDuration le) < now")
    case True
    then have ex: "expiredIn l2 le" using l2 unfolding expiredIn_def by blast
    have "within (leaseMay k) l2 (releaseDevice (traced k) (withHeartbeat hb le)) (\<lambda>r l'. r = Inr () \<longrightarrow> releaseDone l' le)"
      using 1 l2 b ex q by (auto intro!: within_releaseDevice)
    then have "within (leaseMay k) l2 (tryE (releaseDevice (traced k) (withHeartbeat hb le)) (\<lambda>_.
        tryE (writeStatus (traced k) (withHeartbeat hb le) LeaseExpired ''TTLExpired''
                     ''lease expired without a heartbeat; device recycled'') (\<lambda>_. ret (Inr emptyResult)))) (\<lambda>_ _. True)"
    proof (rule within_tryE, goal_cases)
      case (2 x l3)
      have l3: "leaseRead l3 = Some le" "expiredIn l3 le" using seen [OF 2(2)] l2 ex by auto
      have "mayReport k l3 le (reported (withHeartbeat hb le) LeaseExpired conds)" for conds
        using 2 l3 b by (simp add: mayReport_def reported_def)
      then show ?case using 2 l3 by (auto intro!: within_tryE [OF within_writeStatus] within_intro)
    qed simp
    then show ?thesis using True by simp
  next
    case False
    then have "aliveIn l2 le (timeAdd hb (ttlDuration le))" using l2 unfolding aliveIn_def by force
    then show ?thesis using False within_refreshBound [OF 1(4) l2(1) b] by simp
  qed
qed

lemma within_reconcileDeleted:
  assumes l: "obeys (leaseMay k) l" and le: "leaseRead l = Some le" and t: "leaseTerminating le" and q: "writesIn l = []"
  shows "within (leaseMay k) l (reconcileDeleted (traced k) le) (\<lambda>_ _. True)"
proof (cases "containsFinalizer k (leaseMeta le) leaseFinalizer")
  case True
  have "within (leaseMay k) l (releaseDevice (traced k) le) (\<lambda>r l'. r = Inr () \<longrightarrow> releaseDone l' le)"
    using l le t q True by (intro within_releaseDevice) auto
  then have "within (leaseMay k) l (tryE (releaseDevice (traced k) le) (\<lambda>_.
      tryE (apiUpdateDeviceLease (traced k) (setLeaseMeta (removeFinalizer k (leaseMeta le) leaseFinalizer) le))
               (\<lambda>_. ret (Inr emptyResult)))) (\<lambda>_ _. True)"
  proof (rule within_tryE, goal_cases)
    case (2 x l1)
    have "leaseMay k l1 (ActUpdateDeviceLease (setLeaseMeta (removeFinalizer k (leaseMeta le) leaseFinalizer) le) r)" for r
      using 2 t True seen [OF 2(2)] le by (auto simp: leaseMay_def mayEdit_def)
    then show ?case using 2 unfolding traced_simps
      by (auto intro!: within_tryE [OF within_call [where I = "\<lambda>_ _. True"]] within_intro)
  qed simp
  then show ?thesis using True by (simp add: reconcileDeleted_def)
next
  case False
  then show ?thesis using l by (auto simp: reconcileDeleted_def intro!: within_intro)
qed

lemma lease_run_obeys: "within (leaseMay k) [] (leaseReconcile (traced k) key) (\<lambda>_ _. True)"
  unfolding leaseReconcile_def traced_simps
proof (rule within_bind [OF lp.within_readCall], simp, simp, goal_cases)
  case (1 r l)
  show ?case
  proof (cases r)
    case (Inl e)
    then show ?thesis using 1 by (auto intro!: within_intro split: goError.split)
  next
    case (Inr le)
    have le: "leaseRead l = Some le" and q: "writesIn l = []" using 1(3) Inr by (simp_all add: leaseRead_def)
    have addok: "leaseMay k l (ActUpdateDeviceLease (setLeaseMeta (addFinalizer k (leaseMeta le) leaseFinalizer) le) r')"
      if "\<not> leaseTerminating le" "\<not> containsFinalizer k (leaseMeta le) leaseFinalizer" for r'
      using le that by (simp add: leaseMay_def mayEdit_def)
    consider (del) "leaseTerminating le" | (add) "\<not> leaseTerminating le" "\<not> containsFinalizer k (leaseMeta le) leaseFinalizer"
      | (live) "\<not> leaseTerminating le" "containsFinalizer k (leaseMeta le) leaseFinalizer" by blast
    then show ?thesis
    proof cases
      case del
      then show ?thesis using within_reconcileDeleted [OF 1(1) le _ q] Inr by simp
    next
      case add
      then show ?thesis using Inr 1(1) addok
        by (auto intro!: within_tryE [OF within_call [where I = "\<lambda>_ _. True"]] within_intro)
    next
      case live
      then show ?thesis
        using Inr 1(1) within_reconcilePending [OF 1(1) le _ live(2) q] within_reconcileBound [OF 1(1) le _ live(2) q]
        by (cases "leasePhase le") (auto simp: isPending_def isBound_def intro!: within_intro)
    qed
  qed
qed

end
