(* ===== verification/Contracts.thy ===== *)
theory Contracts
  imports Kube
begin

text \<open>
  The interfaces the controllers rely on, as locales: what is documented of the library
  functions they call, and what is proved there once for every client. \<open>status_conditions\<close>:
  \<open>meta.SetStatusCondition\<close>; \<open>finalizers\<close>: the three finalizer helpers of controllerutil;
  \<open>owner_references\<close>: \<open>ctrl.SetControllerReference\<close>.
\<close>

subsection \<open>Status conditions\<close>

definition sameCondition :: "condition \<Rightarrow> condition \<Rightarrow> bool" where
  \<comment> \<open>all fields but the transition time\<close>
  "sameCondition a b \<longleftrightarrow> cType a = cType b \<and> cStatus a = cStatus b \<and>
     cObservedGeneration a = cObservedGeneration b \<and> cReason a = cReason b \<and> cMessage a = cMessage b"

definition hasCondition :: "condition list \<Rightarrow> condition \<Rightarrow> bool" where
  \<comment> \<open>the condition of \<open>c\<close>'s type is there, with \<open>c\<close>'s content\<close>
  "hasCondition cs c \<longleftrightarrow> (case find (\<lambda>x. cType x = cType c) cs of None \<Rightarrow> False | Some x \<Rightarrow> sameCondition x c)"

locale status_conditions =
  fixes setc :: "condition list \<Rightarrow> condition \<Rightarrow> ('w, bool \<times> condition list) state"
  assumes set_reflects: "run_state (setc cs c) w = ((b, cs'), w') \<Longrightarrow> hasCondition cs' c"
    and set_settled: "hasCondition cs c \<Longrightarrow> run_state (setc cs c) w = ((False, cs), w)"
begin

lemma set_again: "run_state (setc cs c) w = ((b, cs'), w') \<Longrightarrow> run_state (setc cs' c) v = ((False, cs'), v)"
  by (rule set_settled) (rule set_reflects)

end

subsection \<open>Finalizers\<close>

locale finalizers =
  fixes has :: "objectMeta \<Rightarrow> string \<Rightarrow> bool" and add :: "objectMeta \<Rightarrow> string \<Rightarrow> objectMeta"
    and rem :: "objectMeta \<Rightarrow> string \<Rightarrow> objectMeta"
  assumes has_add: "has (add m f) f"
    and not_has_rem: "\<not> has (rem m f) f"
    and add_other: "g \<noteq> f \<Longrightarrow> has (add m f) g \<longleftrightarrow> has m g"
    and rem_other: "g \<noteq> f \<Longrightarrow> has (rem m f) g \<longleftrightarrow> has m g"
    and keeps_name: "mName (add m f) = mName m" "mName (rem m f) = mName m"
    and keeps_deletion: "mDeletionTimestamp (add m f) = mDeletionTimestamp m"
      "mDeletionTimestamp (rem m f) = mDeletionTimestamp m"
begin

lemma add_then_rem: "\<not> has (rem (add m f) f) f" and has_after_rem_add: "has (add (rem m f) f) f"
  by (simp_all add: has_add not_has_rem)

end

subsection \<open>Owner references\<close>

definition farmAPIVersion :: string where
  \<comment> \<open>the group and version under which the scheme knows the owners' kinds\<close>
  "farmAPIVersion = ''farm.example.com/v1alpha1''"

definition controllerOf :: "objectMeta \<Rightarrow> ownerRef option" where
  \<comment> \<open>\<open>metav1.GetControllerOf\<close>\<close>
  "controllerOf m = find orController (mOwnerReferences m)"

locale owner_references =
  fixes setref :: "string \<Rightarrow> objectMeta \<Rightarrow> objectMeta \<Rightarrow> goError + objectMeta"
  assumes sets_controller: "setref kind owner m = Inr m' \<Longrightarrow>
      controllerOf m' = Some \<lparr> orAPIVersion = farmAPIVersion, orKind = kind, orName = mName owner, orController = True \<rparr>"
    and keeps_key: "setref kind owner m = Inr m' \<Longrightarrow>
      mNamespace m' = mNamespace m \<and> mName m' = mName m \<and> mGenerateName m' = mGenerateName m \<and> mLabels m' = mLabels m"

end
