(* ===== verification/Cluster.thy ===== *)
theory Cluster
  imports Contracts
begin

text \<open>
  A reference API server: the smallest cluster that behaves as the Kubernetes documentation
  says of the calls the controllers make. It is no part of the program; it is the concrete
  instance on which the contracts the program relies on are interpreted, and the
  world in which witnesses run the controllers.

  Objects are kept per kind in a list. Every write gives the object a new resource version and is
  refused with a conflict when the version it was based on is not the stored one; writing a main
  resource keeps the stored status and deletion timestamp, writing a status keeps the rest;
  deleting an object with finalizers, and any pod, only stamps it; timestamps in a status are kept
  to the second.
\<close>

subsection \<open>The cluster\<close>

record cluster =
  clNow :: time
  clVersion :: nat
  clDevices :: "Device list"
  clClasses :: "DeviceClass list"
  clPools :: "DevicePool list"
  clLeases :: "DeviceLease list"
  clPods :: "pod list"
  clServices :: "service list"
  clJobs :: "job list"

definition emptyCluster :: cluster where
  "emptyCluster = \<lparr> clNow = 0, clVersion = 0, clDevices = [], clClasses = [], clPools = [], clLeases = [],
     clPods = [], clServices = [], clJobs = [] \<rparr>"

definition hasKey :: "objectKey \<Rightarrow> objectMeta \<Rightarrow> bool" where
  "hasKey key m \<longleftrightarrow> (mNamespace m, mName m) = key"

definition matchesLabels :: "(string \<times> string) list \<Rightarrow> objectMeta \<Rightarrow> bool" where
  "matchesLabels sel m \<longleftrightarrow> list_all (\<lambda>(l, v). mLabels m l = Some v) sel"

subsection \<open>Operations on one kind of object\<close>

text \<open>\<open>mt\<close> reads an object's metadata.\<close>

definition getObj :: "('a \<Rightarrow> objectMeta) \<Rightarrow> objectKey \<Rightarrow> 'a list \<Rightarrow> goError + 'a" where
  "getObj mt key xs = (case find (\<lambda>x. hasKey key (mt x)) xs of None \<Rightarrow> Inl ErrNotFound | Some x \<Rightarrow> Inr x)"

definition putObj :: "('a \<Rightarrow> objectMeta) \<Rightarrow> 'a \<Rightarrow> 'a list \<Rightarrow> 'a list" where
  "putObj mt y xs = map (\<lambda>x. if hasKey (mNamespace (mt y), mName (mt y)) (mt x) then y else x) xs"

definition dropObj :: "('a \<Rightarrow> objectMeta) \<Rightarrow> objectKey \<Rightarrow> 'a list \<Rightarrow> 'a list" where
  "dropObj mt key xs = filter (\<lambda>x. \<not> hasKey key (mt x)) xs"

definition createdMeta :: "nat \<Rightarrow> objectMeta \<Rightarrow> objectMeta" where
  "createdMeta v m =
     m\<lparr> mName := (if mName m = [] then mGenerateName m @ itoa (int v) else mName m),
        mDeletionTimestamp := None, mResourceVersion := Suc v, mGeneration := 1 \<rparr>"

definition createObj :: "('a \<Rightarrow> objectMeta) \<Rightarrow> ((objectMeta \<Rightarrow> objectMeta) \<Rightarrow> 'a \<Rightarrow> 'a) \<Rightarrow> nat \<Rightarrow> 'a \<Rightarrow> 'a list
    \<Rightarrow> (goError + 'a) \<times> 'a list" where
  "createObj mt mm v x xs =
     (let y = mm (createdMeta v) x in
      if find (\<lambda>z. hasKey (mNamespace (mt y), mName (mt y)) (mt z)) xs \<noteq> None
      then (Inl (ErrOther ''already exists''), xs) else (Inr y, xs @ [y]))"

definition writeObj :: "('a \<Rightarrow> objectMeta) \<Rightarrow> ((objectMeta \<Rightarrow> objectMeta) \<Rightarrow> 'a \<Rightarrow> 'a) \<Rightarrow> ('a \<Rightarrow> 'a \<Rightarrow> 'a) \<Rightarrow> nat \<Rightarrow> 'a \<Rightarrow> 'a list
    \<Rightarrow> (goError + 'a) \<times> 'a list" where
  \<comment> \<open>\<open>mrg old new\<close> is what the write makes of the stored and the given object\<close>
  "writeObj mt mm mrg v x xs =
     (case getObj mt (mNamespace (mt x), mName (mt x)) xs of
        Inl e \<Rightarrow> (Inl e, xs)
      | Inr old \<Rightarrow>
          if mResourceVersion (mt x) \<noteq> mResourceVersion (mt old) then (Inl ErrConflict, xs)
          else let y = mm (\<lambda>m. m\<lparr>mResourceVersion := Suc v\<rparr>) (mrg old x) in
            (Inr y, if mDeletionTimestamp (mt y) \<noteq> None \<and> mFinalizers (mt y) = []
                    then dropObj mt (mNamespace (mt x), mName (mt x)) xs else putObj mt y xs))"

definition deleteObj :: "('a \<Rightarrow> objectMeta) \<Rightarrow> ((objectMeta \<Rightarrow> objectMeta) \<Rightarrow> 'a \<Rightarrow> 'a) \<Rightarrow> bool \<Rightarrow> time \<Rightarrow> nat \<Rightarrow> objectKey \<Rightarrow> 'a list
    \<Rightarrow> (goError + unit) \<times> 'a list" where
  "deleteObj mt mm graceful now v key xs =
     (case getObj mt key xs of
        Inl e \<Rightarrow> (Inl e, xs)
      | Inr old \<Rightarrow>
          (Inr (),
           if \<not> graceful \<and> mFinalizers (mt old) = [] then dropObj mt key xs
           else if mDeletionTimestamp (mt old) \<noteq> None then xs
           else putObj mt (mm (\<lambda>m. m\<lparr>mDeletionTimestamp := Some (truncSecond now), mResourceVersion := Suc v\<rparr>) old) xs))"

subsection \<open>What a write keeps of the stored object\<close>

definition mapDevMeta :: "(objectMeta \<Rightarrow> objectMeta) \<Rightarrow> Device \<Rightarrow> Device" where
  "mapDevMeta f d = d\<lparr>devMeta := f (devMeta d)\<rparr>"
definition mapLeaseMeta :: "(objectMeta \<Rightarrow> objectMeta) \<Rightarrow> DeviceLease \<Rightarrow> DeviceLease" where
  "mapLeaseMeta f l = l\<lparr>leaseMeta := f (leaseMeta l)\<rparr>"
definition mapPoolMeta :: "(objectMeta \<Rightarrow> objectMeta) \<Rightarrow> DevicePool \<Rightarrow> DevicePool" where
  "mapPoolMeta f p = p\<lparr>poolMeta := f (poolMeta p)\<rparr>"
definition mapPodMeta :: "(objectMeta \<Rightarrow> objectMeta) \<Rightarrow> pod \<Rightarrow> pod" where
  "mapPodMeta f p = p\<lparr>podMeta := f (podMeta p)\<rparr>"
definition mapSvcMeta :: "(objectMeta \<Rightarrow> objectMeta) \<Rightarrow> service \<Rightarrow> service" where
  "mapSvcMeta f s = s\<lparr>svcMeta := f (svcMeta s)\<rparr>"
definition mapJobMeta :: "(objectMeta \<Rightarrow> objectMeta) \<Rightarrow> job \<Rightarrow> job" where
  "mapJobMeta f j = j\<lparr>jobMeta := f (jobMeta j)\<rparr>"

definition storedDevStatus :: "DeviceStatus \<Rightarrow> DeviceStatus" where
  "storedDevStatus s = s\<lparr>dtLastUsedTime := map_option truncSecond (dtLastUsedTime s)\<rparr>"

definition storedLeaseStatus :: "DeviceLeaseStatus \<Rightarrow> DeviceLeaseStatus" where
  "storedLeaseStatus s = s\<lparr>ltExpiresAt := map_option truncSecond (ltExpiresAt s),
     ltLastHeartbeat := map_option truncSecond (ltLastHeartbeat s)\<rparr>"

definition mergeMeta :: "objectMeta \<Rightarrow> objectMeta \<Rightarrow> objectMeta" where
  "mergeMeta old new = new\<lparr>mDeletionTimestamp := mDeletionTimestamp old, mGeneration := mGeneration old\<rparr>"

definition mergeDevice :: "Device \<Rightarrow> Device \<Rightarrow> Device" where
  "mergeDevice old new = new\<lparr>devMeta := mergeMeta (devMeta old) (devMeta new), devStatus := devStatus old\<rparr>"
definition mergeDeviceStatus :: "Device \<Rightarrow> Device \<Rightarrow> Device" where
  "mergeDeviceStatus old new = old\<lparr>devStatus := storedDevStatus (devStatus new)\<rparr>"
definition mergeLease :: "DeviceLease \<Rightarrow> DeviceLease \<Rightarrow> DeviceLease" where
  "mergeLease old new = new\<lparr>leaseMeta := mergeMeta (leaseMeta old) (leaseMeta new), leaseStatus := leaseStatus old\<rparr>"
definition mergeLeaseStatus :: "DeviceLease \<Rightarrow> DeviceLease \<Rightarrow> DeviceLease" where
  "mergeLeaseStatus old new = old\<lparr>leaseStatus := storedLeaseStatus (leaseStatus new)\<rparr>"
definition mergePoolStatus :: "DevicePool \<Rightarrow> DevicePool \<Rightarrow> DevicePool" where
  "mergePoolStatus old new = old\<lparr>poolStatus := poolStatus new\<rparr>"
definition mergeService :: "service \<Rightarrow> service \<Rightarrow> service" where
  "mergeService old new = new\<lparr>svcMeta := mergeMeta (svcMeta old) (svcMeta new)\<rparr>"

definition patchField :: "'b \<Rightarrow> 'b \<Rightarrow> 'b \<Rightarrow> 'b" where
  \<comment> \<open>a merge patch carries only what differs between the base and the modified object\<close>
  "patchField base new old = (if new = base then old else new)"

definition patchLeaseStatus :: "DeviceLeaseStatus \<Rightarrow> DeviceLeaseStatus \<Rightarrow> DeviceLeaseStatus \<Rightarrow> DeviceLeaseStatus" where
  "patchLeaseStatus b n s = \<lparr>
     ltPhase = patchField (ltPhase b) (ltPhase n) (ltPhase s),
     ltDeviceRef = patchField (ltDeviceRef b) (ltDeviceRef n) (ltDeviceRef s),
     ltADBEndpoint = patchField (ltADBEndpoint b) (ltADBEndpoint n) (ltADBEndpoint s),
     ltUIEndpoint = patchField (ltUIEndpoint b) (ltUIEndpoint n) (ltUIEndpoint s),
     ltExpiresAt = patchField (ltExpiresAt b) (ltExpiresAt n) (ltExpiresAt s),
     ltLastHeartbeat = patchField (ltLastHeartbeat b) (ltLastHeartbeat n) (ltLastHeartbeat s),
     ltConditions = patchField (ltConditions b) (ltConditions n) (ltConditions s) \<rparr>"

subsection \<open>Conditions, finalizers, owner references\<close>

fun setConditionIn :: "time \<Rightarrow> condition list \<Rightarrow> condition \<Rightarrow> bool \<times> condition list" where
  "setConditionIn now [] c = (True, [c\<lparr>cLastTransitionTime := truncSecond now\<rparr>])"
| "setConditionIn now (c' # cs) c =
     (if cType c' = cType c
      then if sameCondition c' c then (False, c' # cs)
           else (True, c\<lparr>cLastTransitionTime :=
                   (if cStatus c' = cStatus c then cLastTransitionTime c' else truncSecond now)\<rparr> # cs)
      else (case setConditionIn now cs c of (b, cs') \<Rightarrow> (b, c' # cs')))"

definition addFinalizerTo :: "objectMeta \<Rightarrow> string \<Rightarrow> objectMeta" where
  "addFinalizerTo m f = (if f \<in> set (mFinalizers m) then m else m\<lparr>mFinalizers := mFinalizers m @ [f]\<rparr>)"

definition removeFinalizerFrom :: "objectMeta \<Rightarrow> string \<Rightarrow> objectMeta" where
  "removeFinalizerFrom m f = m\<lparr>mFinalizers := filter (\<lambda>g. g \<noteq> f) (mFinalizers m)\<rparr>"

definition upsertOwner :: "ownerRef \<Rightarrow> ownerRef list \<Rightarrow> ownerRef list" where
  "upsertOwner r rs =
     (let same = (\<lambda>o'. orAPIVersion o' = orAPIVersion r \<and> orKind o' = orKind r \<and> orName o' = orName r)
      in if list_ex same rs then map (\<lambda>o'. if same o' then r else o') rs else rs @ [r])"

lemma upsertOwner_controller: "find orController rs = None \<Longrightarrow> orController r \<Longrightarrow> find orController (upsertOwner r rs) = Some r"
proof -
  assume none: "find orController rs = None" and r: "orController r"
  have "find orController (xs @ [r]) = Some r" if "find orController xs = None" for xs
    using that r by (induction xs) (auto split: if_splits)
  moreover have "find orController (map (\<lambda>o'. if P o' then r else o') xs) = Some r"
    if "find orController xs = None" "list_ex P xs" for P xs
    using that r by (induction xs) (auto split: if_splits)
  ultimately show ?thesis using none by (simp add: upsertOwner_def Let_def)
qed

definition ownedBy :: "string \<Rightarrow> objectMeta \<Rightarrow> objectMeta \<Rightarrow> goError + objectMeta" where
  "ownedBy kind owner m =
     (let r = \<lparr> orAPIVersion = farmAPIVersion, orKind = kind, orName = mName owner, orController = True \<rparr> in
      case controllerOf m of
        None \<Rightarrow> Inr (m\<lparr>mOwnerReferences := upsertOwner r (mOwnerReferences m)\<rparr>)
      | Some r' \<Rightarrow> if r' = r then Inr m else Inl (ErrOther ''already owned by another controller''))"

subsection \<open>The client\<close>

definition reads :: "(cluster \<Rightarrow> 'a) \<Rightarrow> (cluster, 'a) state" where
  "reads f = State (\<lambda>c. (f c, c))"

definition writes :: "(cluster \<Rightarrow> (goError + 'a) \<times> cluster) \<Rightarrow> (cluster, goError + 'a) state" where
  \<comment> \<open>an accepted write advances the cluster's resource version\<close>
  "writes f = State (\<lambda>c. case f c of (r, c') \<Rightarrow>
     (r, case r of Inl _ \<Rightarrow> c | Inr _ \<Rightarrow> c'\<lparr>clVersion := Suc (clVersion c)\<rparr>))"

definition onDevices :: "(nat \<Rightarrow> Device list \<Rightarrow> (goError + 'a) \<times> Device list) \<Rightarrow> (cluster, goError + 'a) state" where
  "onDevices f = writes (\<lambda>c. case f (clVersion c) (clDevices c) of (r, xs) \<Rightarrow> (r, c\<lparr>clDevices := xs\<rparr>))"
definition onLeases :: "(nat \<Rightarrow> DeviceLease list \<Rightarrow> (goError + 'a) \<times> DeviceLease list) \<Rightarrow> (cluster, goError + 'a) state" where
  "onLeases f = writes (\<lambda>c. case f (clVersion c) (clLeases c) of (r, xs) \<Rightarrow> (r, c\<lparr>clLeases := xs\<rparr>))"
definition onPools :: "(nat \<Rightarrow> DevicePool list \<Rightarrow> (goError + 'a) \<times> DevicePool list) \<Rightarrow> (cluster, goError + 'a) state" where
  "onPools f = writes (\<lambda>c. case f (clVersion c) (clPools c) of (r, xs) \<Rightarrow> (r, c\<lparr>clPools := xs\<rparr>))"
definition onPods :: "(nat \<Rightarrow> pod list \<Rightarrow> (goError + 'a) \<times> pod list) \<Rightarrow> (cluster, goError + 'a) state" where
  "onPods f = writes (\<lambda>c. case f (clVersion c) (clPods c) of (r, xs) \<Rightarrow> (r, c\<lparr>clPods := xs\<rparr>))"
definition onServices :: "(nat \<Rightarrow> service list \<Rightarrow> (goError + 'a) \<times> service list) \<Rightarrow> (cluster, goError + 'a) state" where
  "onServices f = writes (\<lambda>c. case f (clVersion c) (clServices c) of (r, xs) \<Rightarrow> (r, c\<lparr>clServices := xs\<rparr>))"
definition onJobs :: "(nat \<Rightarrow> job list \<Rightarrow> (goError + 'a) \<times> job list) \<Rightarrow> (cluster, goError + 'a) state" where
  "onJobs f = writes (\<lambda>c. case f (clVersion c) (clJobs c) of (r, xs) \<Rightarrow> (r, c\<lparr>clJobs := xs\<rparr>))"

definition withTime :: "(time \<Rightarrow> (cluster, 'a) state) \<Rightarrow> (cluster, 'a) state" where
  "withTime f = State (\<lambda>c. run_state (f (clNow c)) c)"

definition freshDevice :: "Device \<Rightarrow> Device" where "freshDevice d = d\<lparr>devStatus := emptyDeviceStatus\<rparr>"
definition freshLease :: "DeviceLease \<Rightarrow> DeviceLease" where "freshLease l = l\<lparr>leaseStatus := emptyLeaseStatus\<rparr>"

definition patchLeaseIn :: "DeviceLease \<Rightarrow> DeviceLease \<Rightarrow> nat \<Rightarrow> DeviceLease list \<Rightarrow> (goError + DeviceLease) \<times> DeviceLease list" where
  \<comment> \<open>a merge patch without a resource version: never refused with a conflict\<close>
  "patchLeaseIn base new v xs =
     (case getObj leaseMeta (leaseNamespace new, leaseName new) xs of
        Inl e \<Rightarrow> (Inl e, xs)
      | Inr old \<Rightarrow>
          writeObj leaseMeta mapLeaseMeta mergeLeaseStatus v
            (old\<lparr>leaseStatus := patchLeaseStatus (leaseStatus base) (leaseStatus new) (leaseStatus old)\<rparr>) xs)"

definition mem :: "cluster kube" where
  "mem = \<lparr>
     clockNow = reads clNow,
     localOffset = 0,
     apiGetDevice = (\<lambda>key. reads (\<lambda>c. getObj devMeta key (clDevices c))),
     apiGetDeviceClass = (\<lambda>n. reads (\<lambda>c. getObj dcMeta ([], n) (clClasses c))),
     apiGetDevicePool = (\<lambda>key. reads (\<lambda>c. getObj poolMeta key (clPools c))),
     apiGetDeviceLease = (\<lambda>key. reads (\<lambda>c. getObj leaseMeta key (clLeases c))),
     apiGetPod = (\<lambda>key. reads (\<lambda>c. getObj podMeta key (clPods c))),
     apiGetService = (\<lambda>key. reads (\<lambda>c. getObj svcMeta key (clServices c))),
     apiGetJob = (\<lambda>key. reads (\<lambda>c. getObj jobMeta key (clJobs c))),
     apiListDevices = (\<lambda>ns sel. reads (\<lambda>c.
        Inr (filter (\<lambda>d. devNamespace d = ns \<and> matchesLabels sel (devMeta d)) (clDevices c)))),
     apiListDeviceLeases = (\<lambda>ns. reads (\<lambda>c. Inr (filter (\<lambda>l. leaseNamespace l = ns) (clLeases c)))),
     apiListDevicePools = (\<lambda>ns. reads (\<lambda>c. Inr (filter (\<lambda>p. mNamespace (poolMeta p) = ns) (clPools c)))),
     apiCreateDevice = (\<lambda>d. onDevices (\<lambda>v. createObj devMeta mapDevMeta v (freshDevice d))),
     apiCreateDeviceLease = (\<lambda>l. onLeases (\<lambda>v. createObj leaseMeta mapLeaseMeta v (freshLease l))),
     apiCreatePod = (\<lambda>p. onPods (\<lambda>v. createObj podMeta mapPodMeta v p)),
     apiCreateService = (\<lambda>s. onServices (\<lambda>v. createObj svcMeta mapSvcMeta v s)),
     apiCreateJob = (\<lambda>j. onJobs (\<lambda>v. createObj jobMeta mapJobMeta v j)),
     apiUpdateDevice = (\<lambda>d. onDevices (\<lambda>v. writeObj devMeta mapDevMeta mergeDevice v d)),
     apiUpdateDeviceLease = (\<lambda>l. onLeases (\<lambda>v. writeObj leaseMeta mapLeaseMeta mergeLease v l)),
     apiUpdateService = (\<lambda>s. onServices (\<lambda>v. writeObj svcMeta mapSvcMeta mergeService v s)),
     apiUpdateDeviceStatus = (\<lambda>d. onDevices (\<lambda>v. writeObj devMeta mapDevMeta mergeDeviceStatus v d)),
     apiUpdateDeviceLeaseStatus = (\<lambda>l. onLeases (\<lambda>v. writeObj leaseMeta mapLeaseMeta mergeLeaseStatus v l)),
     apiUpdateDevicePoolStatus = (\<lambda>p. onPools (\<lambda>v. writeObj poolMeta mapPoolMeta mergePoolStatus v p)),
     apiPatchDeviceLeaseStatus = (\<lambda>b l. onLeases (patchLeaseIn b l)),
     apiDeleteDevice = (\<lambda>key. withTime (\<lambda>now. onDevices (\<lambda>v. deleteObj devMeta mapDevMeta False now v key))),
     apiDeletePod = (\<lambda>key. withTime (\<lambda>now. onPods (\<lambda>v. deleteObj podMeta mapPodMeta True now v key))),
     apiDeleteDeviceLease = (\<lambda>key. withTime (\<lambda>now. onLeases (\<lambda>v. deleteObj leaseMeta mapLeaseMeta False now v key))),
     setStatusCondition = (\<lambda>cs c. reads (\<lambda>cl. setConditionIn (clNow cl) cs c)),
     containsFinalizer = (\<lambda>m f. f \<in> set (mFinalizers m)),
     addFinalizer = addFinalizerTo,
     removeFinalizer = removeFinalizerFrom,
     setControllerReference = ownedBy \<rparr>"

subsection \<open>The contracts hold here\<close>

lemma setConditionIn_reflects: "hasCondition (snd (setConditionIn now cs c)) c"
proof (induction cs)
  case Nil
  show ?case by (simp add: hasCondition_def sameCondition_def)
next
  case (Cons c' cs)
  then show ?case
    by (auto simp: hasCondition_def sameCondition_def split: prod.splits option.splits)
qed

lemma setConditionIn_settled: "hasCondition cs c \<Longrightarrow> setConditionIn now cs c = (False, cs)"
  by (induction cs) (auto simp: hasCondition_def sameCondition_def split: option.splits if_splits)

interpretation mem_conditions: status_conditions "setStatusCondition mem"
proof
  fix cs c w b cs' and w' :: cluster
  assume "run_state (setStatusCondition mem cs c) w = ((b, cs'), w')"
  then have "cs' = snd (setConditionIn (clNow w) cs c)" by (auto simp: mem_def reads_def)
  then show "hasCondition cs' c" by (simp add: setConditionIn_reflects)
qed (simp add: mem_def reads_def setConditionIn_settled)

interpretation mem_finalizers: finalizers "containsFinalizer mem" "addFinalizer mem" "removeFinalizer mem"
  by unfold_locales (auto simp: mem_def addFinalizerTo_def removeFinalizerFrom_def)

interpretation mem_owners: owner_references "setControllerReference mem"
proof
  fix kind owner m m' assume "setControllerReference mem kind owner m = Inr m'"
  then show "controllerOf m' = Some \<lparr> orAPIVersion = farmAPIVersion, orKind = kind, orName = mName owner, orController = True \<rparr>"
    by (auto simp: mem_def ownedBy_def controllerOf_def upsertOwner_controller Let_def split: option.splits if_splits)
qed (auto simp: mem_def ownedBy_def Let_def split: option.splits if_splits)

end
