(* ===== verification/Demo.thy ===== *)
theory Demo
  imports Cluster Capacity Policy
begin

text \<open>
  A small farm for the witnesses: pools, classes, devices and leases in namespace \<open>ns\<close>, built
  from the names a witness varies.
\<close>

definition demoClass :: "string \<Rightarrow> DeviceClass" where
  "demoClass n = \<lparr> dcMeta = emptyMeta\<lparr>mName := n\<rparr>,
     dcSpec = \<lparr> dcsProviderType = ProviderEmulator, dcsImage = ''emulator:'' @ n, dcsAPILevel = 34, dcsArch = ''x86_64'',
       dcsAVD = None, dcsResources = \<lparr> rrLimits = Map.empty, rrRequests = Map.empty \<rparr>, dcsReadinessProbe = None,
       dcsNodeSelector = Map.empty, dcsTolerations = [] \<rparr>,
     dcConditions = [] \<rparr>"

definition demoPool :: "int32 \<Rightarrow> (string \<times> int32) list \<Rightarrow> DevicePool" where
  \<comment> \<open>\<open>maxConcurrent\<close>, and \<open>minWarm\<close> of each class\<close>
  "demoPool m cs = \<lparr> poolMeta = emptyMeta\<lparr>mName := ''pool'', mNamespace := ''ns''\<rparr>,
     poolSpec = \<lparr> dpsClasses = map (\<lambda>(c, w). \<lparr> pcName = c, pcMinWarm = w, pcMaxWarm = 0 \<rparr>) cs,
       dpsMaxConcurrent = m, dpsEvictionPolicy = EvictLRUIdle, dpsSTFRef = None \<rparr>,
     poolStatus = \<lparr> dptPerClass = [], dptConditions = [] \<rparr> \<rparr>"

definition demoDevice :: "string \<Rightarrow> string \<Rightarrow> DevicePhase \<Rightarrow> string \<Rightarrow> Device" where
  \<comment> \<open>name, class, phase, \<open>leaseRef\<close>\<close>
  "demoDevice n c ph ref = \<lparr>
     devMeta = emptyMeta\<lparr>mName := n, mNamespace := ''ns'', mLabels := [LabelPool \<mapsto> ''pool'', LabelClass \<mapsto> c]\<rparr>,
     devSpec = \<lparr> dsClassRef = c, dsPoolRef = ''pool'', dsProviderType = ProviderEmulator, dsADBEndpoint = [],
       dsNodeName = [], dsSerial = [] \<rparr>,
     devStatus = emptyDeviceStatus\<lparr>dtPhase := ph, dtLeaseRef := ref, dtADBEndpoint := n @ ''-adb:5555''\<rparr> \<rparr>"

definition demoLease :: "string \<Rightarrow> string \<Rightarrow> LeasePhase \<Rightarrow> string \<Rightarrow> time option \<Rightarrow> DeviceLease" where
  \<comment> \<open>name, class, phase, \<open>deviceRef\<close>, last heartbeat; five minutes to live\<close>
  "demoLease n c ph ref hb = \<lparr>
     leaseMeta = emptyMeta\<lparr>mName := n, mNamespace := ''ns'', mFinalizers := [''farm.example.com/lease-cleanup'']\<rparr>,
     leaseSpec = \<lparr> lsClassRef = c, lsPoolRef = [], lsRequester = ''ci'', lsTTLSeconds = 300 \<rparr>,
     leaseStatus = emptyLeaseStatus\<lparr>ltPhase := ph, ltDeviceRef := ref, ltLastHeartbeat := hb\<rparr> \<rparr>"

definition deletedAt :: "time \<Rightarrow> DeviceLease \<Rightarrow> DeviceLease" where
  "deletedAt t l = mapLeaseMeta (\<lambda>m. m\<lparr>mDeletionTimestamp := Some t\<rparr>) l"

definition demoCluster :: "DevicePool \<Rightarrow> Device list \<Rightarrow> DeviceLease list \<Rightarrow> cluster" where
  \<comment> \<open>1000 seconds after the clock's origin, with classes \<open>pixel\<close> and \<open>tablet\<close>\<close>
  "demoCluster p ds ls = emptyCluster\<lparr> clNow := 1000000000000, clClasses := [demoClass ''pixel'', demoClass ''tablet''],
     clPools := [p], clDevices := ds, clLeases := ls \<rparr>"

subsection \<open>Finding a call in a computed trace\<close>

lemma list_ex_split: "list_ex P t \<Longrightarrow> \<exists>h a t'. t = h @ a # t' \<and> P a"
  unfolding list_ex_iff by (meson split_list)

fun deviceStatusWrite :: "action \<Rightarrow> Device option" where
  "deviceStatusWrite (ActUpdateDeviceStatus x _) = Some x"
| "deviceStatusWrite _ = None"

fun leaseWrite :: "action \<Rightarrow> DeviceLease option" where
  "leaseWrite (ActUpdateDeviceLease x _) = Some x"
| "leaseWrite _ = None"

fun leaseStatusWrite :: "action \<Rightarrow> DeviceLease option" where
  "leaseStatusWrite (ActUpdateDeviceLeaseStatus x _) = Some x"
| "leaseStatusWrite _ = None"

fun deviceCreation :: "action \<Rightarrow> Device option" where
  "deviceCreation (ActCreateDevice x _) = Some x"
| "deviceCreation _ = None"

fun deviceDeletion :: "action \<Rightarrow> objectKey option" where
  "deviceDeletion (ActDeleteDevice x _) = Some x"
| "deviceDeletion _ = None"

fun podDeletion :: "action \<Rightarrow> objectKey option" where
  "podDeletion (ActDeletePod x _) = Some x"
| "podDeletion _ = None"

fun deviceWrite :: "action \<Rightarrow> Device option" where
  "deviceWrite (ActUpdateDevice x _) = Some x"
| "deviceWrite _ = None"

definition someCall :: "(action \<Rightarrow> 'a option) \<Rightarrow> ('a \<Rightarrow> bool) \<Rightarrow> action list \<Rightarrow> bool" where
  "someCall f P t \<longleftrightarrow> list_ex (\<lambda>a. case f a of Some x \<Rightarrow> P x | None \<Rightarrow> False) t"

lemma someCall_split: "someCall f P t \<Longrightarrow> \<exists>h a x t'. t = h @ a # t' \<and> f a = Some x \<and> P x"
  unfolding someCall_def by (drule list_ex_split) (force split: option.splits)

lemma some_deviceStatusWrite: "someCall deviceStatusWrite P t \<Longrightarrow> \<exists>h x r t'. t = h @ ActUpdateDeviceStatus x r # t' \<and> P x"
proof -
  have "\<exists>r. a = ActUpdateDeviceStatus x r" if "deviceStatusWrite a = Some x" for a x using that by (cases a) auto
  then show "someCall deviceStatusWrite P t \<Longrightarrow> ?thesis" using someCall_split [of deviceStatusWrite P t] by blast
qed

lemma some_leaseWrite: "someCall leaseWrite P t \<Longrightarrow> \<exists>h x r t'. t = h @ ActUpdateDeviceLease x r # t' \<and> P x"
proof -
  have "\<exists>r. a = ActUpdateDeviceLease x r" if "leaseWrite a = Some x" for a x using that by (cases a) auto
  then show "someCall leaseWrite P t \<Longrightarrow> ?thesis" using someCall_split [of leaseWrite P t] by blast
qed

lemma some_leaseStatusWrite: "someCall leaseStatusWrite P t \<Longrightarrow> \<exists>h x r t'. t = h @ ActUpdateDeviceLeaseStatus x r # t' \<and> P x"
proof -
  have "\<exists>r. a = ActUpdateDeviceLeaseStatus x r" if "leaseStatusWrite a = Some x" for a x using that by (cases a) auto
  then show "someCall leaseStatusWrite P t \<Longrightarrow> ?thesis" using someCall_split [of leaseStatusWrite P t] by blast
qed

lemma some_deviceCreation: "someCall deviceCreation P t \<Longrightarrow> \<exists>h x r t'. t = h @ ActCreateDevice x r # t' \<and> P x"
proof -
  have "\<exists>r. a = ActCreateDevice x r" if "deviceCreation a = Some x" for a x using that by (cases a) auto
  then show "someCall deviceCreation P t \<Longrightarrow> ?thesis" using someCall_split [of deviceCreation P t] by blast
qed

lemma some_deviceDeletion: "someCall deviceDeletion P t \<Longrightarrow> \<exists>h x r t'. t = h @ ActDeleteDevice x r # t' \<and> P x"
proof -
  have "\<exists>r. a = ActDeleteDevice x r" if "deviceDeletion a = Some x" for a x using that by (cases a) auto
  then show "someCall deviceDeletion P t \<Longrightarrow> ?thesis" using someCall_split [of deviceDeletion P t] by blast
qed

lemma some_podDeletion: "someCall podDeletion P t \<Longrightarrow> \<exists>h x r t'. t = h @ ActDeletePod x r # t' \<and> P x"
proof -
  have "\<exists>r. a = ActDeletePod x r" if "podDeletion a = Some x" for a x using that by (cases a) auto
  then show "someCall podDeletion P t \<Longrightarrow> ?thesis" using someCall_split [of podDeletion P t] by blast
qed

lemma some_deviceWrite: "someCall deviceWrite P t \<Longrightarrow> \<exists>h x r t'. t = h @ ActUpdateDevice x r # t' \<and> P x"
proof -
  have "\<exists>r. a = ActUpdateDevice x r" if "deviceWrite a = Some x" for a x using that by (cases a) auto
  then show "someCall deviceWrite P t \<Longrightarrow> ?thesis" using someCall_split [of deviceWrite P t] by blast
qed

end
