(* ===== verification/Lease_Properties.thy ===== *)
theory Lease_Properties
  imports Lease_Safety Demo
begin

text \<open>
  The properties of the DeviceLease controller, read off the policy its runs obey. Each is about
  an arbitrary run of \<open>leaseReconcile\<close> against an arbitrary client: a write \<open>a\<close> of the run stands
  after the calls \<open>h\<close> made before it. The witnesses run the controller on the reference cluster.
\<close>

lemma sint_ttlDuration: "sint (ttlDuration le) = sint (lsTTLSeconds (leaseSpec le)) * 1000000000"
proof -
  let ?s = "lsTTLSeconds (leaseSpec le)"
  have b: "- (2 ^ 63) \<le> i * 1000000000 \<and> i * 1000000000 < 2 ^ 63" if "- (2 ^ 31) \<le> i \<and> i < 2 ^ 31" for i :: int
    using that by simp
  have "ttlDuration le = word_of_int (sint ?s) * word_of_int 1000000000"
    by (simp only: ttlDuration_def time_Second_def scast_eq) simp
  also have "\<dots> = word_of_int (sint ?s * 1000000000)" by (rule wi_hom_mult)
  finally have "ttlDuration le = word_of_int (sint ?s * 1000000000)" .
  then show ?thesis using sint64_of_int b [OF sint32_range [of ?s]] by (simp only:)
qed

lemma lease_write:
  assumes "traceOf (leaseReconcile (traced k) key) w = h @ a # t" and "\<not> isRead a"
  obtains le where "leaseRead h = Some le"
    and "case a of
              ActUpdateDeviceStatus x _ \<Rightarrow> mayBind h le x \<or> mayFree k h le x
            | ActDeletePod key _ \<Rightarrow> mayRecycle h le key
            | ActUpdateDeviceLease l _ \<Rightarrow> mayEdit k h le l
            | ActUpdateDeviceLeaseStatus l _ \<Rightarrow> mayReport k h le l
            | ActCreateDevice x _ \<Rightarrow> mayProvision k h le x
            | ActDeleteDevice key _ \<Rightarrow> mayEvict h le key
            | _ \<Rightarrow> False"
proof -
  have "leaseMay k h a" by (rule obeys_split [OF within_obeys [OF lease_run_obeys] assms(1)])
  then show ?thesis using assms(2) that unfolding leaseMay_def by (auto split: option.splits)
qed

subsection \<open>The TTL\<close>

subsection \<open>Binding and freeing\<close>

text \<open>C6: The controller writes a device's \<open>leaseRef\<close> to a lease only as the first write of a run
  of a pending lease, to its own name, on a device that the run's query for the lease's class
  listed as Ready, unbound and not terminating, and the write carries that device's metadata (so
  its resource version), spec and phase unchanged.\<close>

theorem lease_claims_only_free_ready_devices:
  assumes "traceOf (leaseReconcile (traced k) key) w = h @ ActUpdateDeviceStatus x r # t"
    and "devLeaseRef x \<noteq> []"
  shows "\<exists>le ds d. leaseRead h = Some le \<and> isPending le \<and> writesIn h = [] \<and>
    ActListDevices (leaseNamespace le) [(LabelClass, lsClassRef (leaseSpec le))] (Inr ds) \<in> set h \<and>
    d \<in> set ds \<and> \<not> devTerminating d \<and> devPhase d = DeviceReady \<and> devLeaseRef d = [] \<and>
    devMeta x = devMeta d \<and> devSpec x = devSpec d \<and> devPhase x = devPhase d \<and> devLeaseRef x = leaseName le"
proof -
  obtain le where le: "leaseRead h = Some le" and may: "mayBind h le x \<or> mayFree k h le x"
    using lease_write [OF assms(1)] by auto
  from may have "mayBind h le x"
    using assms(2) by (auto simp: mayFree_def freedBy_def releasedDevice_def)
  with le show ?thesis by (fastforce simp: mayBind_def freeAndReady_def boundDevice_def)
qed

definition demoBind :: cluster where
  "demoBind = demoCluster (demoPool 2 [(''pixel'', 1)])
     [demoDevice ''d1'' ''pixel'' DeviceReady ''l0'', demoDevice ''d2'' ''pixel'' DeviceReady []]
     [demoLease ''l1'' ''pixel'' LeasePending [] None]"

lemma lease_claims_only_free_ready_devices_witness:
  "\<exists>h x r t le ds d. traceOf (leaseReconcile (traced mem) (''ns'', ''l1'')) demoBind = h @ ActUpdateDeviceStatus x r # t \<and>
     isPending le \<and> d \<in> set ds \<and> devLeaseRef d = [] \<and> devLeaseRef x = leaseName le"
proof -
  have "someCall deviceStatusWrite (\<lambda>x. devLeaseRef x \<noteq> []) (traceOf (leaseReconcile (traced mem) (''ns'', ''l1'')) demoBind)"
    by code_simp
  then obtain h x r t where
    *: "traceOf (leaseReconcile (traced mem) (''ns'', ''l1'')) demoBind = h @ ActUpdateDeviceStatus x r # t" "devLeaseRef x \<noteq> []"
    using some_deviceStatusWrite by blast
  show ?thesis using lease_claims_only_free_ready_devices [OF *] *(1) by blast
qed

text \<open>C7: The controller clears a device's \<open>leaseRef\<close> only as the first write of a run, on a device
  the run saw bound to this very lease, keeping everything else but the time of last use, and only
  when the lease is being deleted and still carries the finalizer, or is Bound and its heartbeats
  stopped more than its TTL before a reading of the clock.\<close>

theorem lease_frees_only_its_own_device:
  assumes "traceOf (leaseReconcile (traced k) key) w = h @ ActUpdateDeviceStatus x r # t"
    and "devLeaseRef x = []" and "\<forall>le. leaseRead h = Some le \<longrightarrow> leaseName le \<noteq> []"
  shows "\<exists>le d now. leaseRead h = Some le \<and> d \<in> set (served h) \<and> devLeaseRef d = leaseName le \<and> writesIn h = [] \<and>
    x = d\<lparr>devStatus := (devStatus d)\<lparr>dtLeaseRef := [], dtLastUsedTime := Some now\<rparr>\<rparr> \<and> ActClockNow now \<in> set h \<and>
    (leaseTerminating le \<and> containsFinalizer k (leaseMeta le) leaseFinalizer \<or> isBound le \<and> expiredIn h le)"
proof -
  obtain le where le: "leaseRead h = Some le" and may: "mayBind h le x \<or> mayFree k h le x"
    using lease_write [OF assms(1)] by auto
  have "\<not> mayBind h le x" using assms(2,3) le by (auto simp: mayBind_def boundDevice_def)
  with may le show ?thesis by (auto simp: mayFree_def freedBy_def releasedDevice_def)
qed

definition demoExpired :: cluster where
  \<comment> \<open>the lease's last heartbeat is 400 s old, its TTL 300 s\<close>
  "demoExpired = demoCluster (demoPool 2 [(''pixel'', 1)])
     [demoDevice ''d1'' ''pixel'' DeviceLeased ''l1'']
     [demoLease ''l1'' ''pixel'' LeaseBound ''d1'' (Some 600000000000)]"

lemma leaseRead_of_trace:
  "traceOf (leaseReconcile (traced k) key) w = h @ t \<Longrightarrow> leaseRead h = Some le \<Longrightarrow>
    leaseRead (traceOf (leaseReconcile (traced k) key) w) = Some le"
  by (simp add: leaseRead_mono [of h "h @ t"])

lemma lease_frees_only_its_own_device_witness:
  "\<exists>h x r t le d. traceOf (leaseReconcile (traced mem) (''ns'', ''l1'')) demoExpired = h @ ActUpdateDeviceStatus x r # t \<and>
     leaseRead h = Some le \<and> d \<in> set (served h) \<and> devLeaseRef d = leaseName le \<and>
     (leaseTerminating le \<and> containsFinalizer mem (leaseMeta le) leaseFinalizer \<or> isBound le \<and> expiredIn h le)"
proof -
  let ?t = "traceOf (leaseReconcile (traced mem) (''ns'', ''l1'')) demoExpired"
  have "someCall deviceStatusWrite (\<lambda>x. devLeaseRef x = []) ?t" by code_simp
  then obtain h x r t where *: "?t = h @ ActUpdateDeviceStatus x r # t" "devLeaseRef x = []"
    using some_deviceStatusWrite by blast
  have "map_option leaseName (leaseRead ?t) = Some ''l1''" by code_simp
  then have "\<forall>le. leaseRead h = Some le \<longrightarrow> leaseName le \<noteq> []"
    using leaseRead_of_trace [OF *(1)] by auto
  from lease_frees_only_its_own_device [OF * this] show ?thesis using *(1) by auto
qed

text \<open>C15: The finalizer of a lease that is being deleted is removed only after its device has been
  released in the same run: no device of the namespace was bound to it, or its device was freed by
  an accepted write and the device's pod is deleted or was gone. Nothing else of the lease's
  metadata and spec is changed.\<close>

theorem lease_finalizer_drops_after_release:
  assumes "traceOf (leaseReconcile (traced k) key) w = h @ ActUpdateDeviceLease l r # t"
    and "\<forall>le. leaseRead h = Some le \<longrightarrow> leaseTerminating le"
  shows "\<exists>le. leaseRead h = Some le \<and> releaseDone h le \<and> containsFinalizer k (leaseMeta le) leaseFinalizer \<and>
    l = setLeaseMeta (removeFinalizer k (leaseMeta le) leaseFinalizer) le"
  using lease_write [OF assms(1)] assms(2) by (fastforce simp: mayEdit_def)

definition demoDeleted :: cluster where
  "demoDeleted = demoCluster (demoPool 2 [(''pixel'', 1)])
     [demoDevice ''d1'' ''pixel'' DeviceLeased ''l1'']
     [deletedAt 900000000000 (demoLease ''l1'' ''pixel'' LeaseBound ''d1'' (Some 900000000000))]"

lemma lease_finalizer_drops_after_release_witness:
  "\<exists>h l r t le. traceOf (leaseReconcile (traced mem) (''ns'', ''l1'')) demoDeleted = h @ ActUpdateDeviceLease l r # t \<and>
     leaseRead h = Some le \<and> releaseDone h le"
proof -
  let ?t = "traceOf (leaseReconcile (traced mem) (''ns'', ''l1'')) demoDeleted"
  have "someCall leaseWrite (\<lambda>_. True) ?t" by code_simp
  then obtain h l r t where *: "?t = h @ ActUpdateDeviceLease l r # t"
    using some_leaseWrite by blast
  have "map_option leaseTerminating (leaseRead ?t) = Some True" by code_simp
  then have "\<forall>le. leaseRead h = Some le \<longrightarrow> leaseTerminating le"
    using leaseRead_of_trace [OF *] by auto
  from lease_finalizer_drops_after_release [OF * this] show ?thesis using * by blast
qed

subsection \<open>The phases of a lease\<close>

inductive leaseStep :: "LeasePhase \<Rightarrow> LeasePhase \<Rightarrow> bool" where
  waits: "p = LeasePhaseUnset \<or> p = LeasePending \<Longrightarrow> leaseStep p LeasePending"
| binds: "p = LeasePhaseUnset \<or> p = LeasePending \<Longrightarrow> leaseStep p LeaseBound"
| beats: "leaseStep LeaseBound LeaseBound"
| expires: "leaseStep LeaseBound LeaseExpired"

code_pred leaseStep .

inductive_cases leaseStepE: "leaseStep p q"
inductive_simps leaseStep_from_expired [simp]: "leaseStep LeaseExpired q"

text \<open>The life cycle as an order: a later phase is greater, the three final ones in the order of the API.\<close>

fun phaseRank :: "LeasePhase \<Rightarrow> nat" where
  "phaseRank LeasePhaseUnset = 0"
| "phaseRank LeasePending = 1"
| "phaseRank LeaseBound = 2"
| "phaseRank LeaseExpired = 3"
| "phaseRank LeaseReleased = 4"
| "phaseRank LeaseFailed = 5"

lemma phaseRank_inj: "phaseRank p = phaseRank q \<longleftrightarrow> p = q"
  by (cases p; cases q) simp_all

instantiation LeasePhase :: linorder
begin

definition less_eq_LeasePhase :: "LeasePhase \<Rightarrow> LeasePhase \<Rightarrow> bool" where
  "p \<le> q \<longleftrightarrow> phaseRank p \<le> phaseRank q"

definition less_LeasePhase :: "LeasePhase \<Rightarrow> LeasePhase \<Rightarrow> bool" where
  "p < q \<longleftrightarrow> phaseRank p < phaseRank q"

instance
  by standard (auto simp: less_eq_LeasePhase_def less_LeasePhase_def phaseRank_inj)

end

lemma leaseStep_mono: "leaseStep p q \<Longrightarrow> p \<le> q"
  by (auto simp: less_eq_LeasePhase_def elim: leaseStepE)

text \<open>C21: Every status the controller writes moves the lease along the life cycle unset or Pending to
  Pending or Bound, Bound to Bound or Expired, from the phase it was read in; so the phase never
  goes back. It never writes the status of a lease that is being deleted or lacks the finalizer, nor touches its
  metadata or spec.\<close>

theorem lease_status_follows_life_cycle:
  assumes "traceOf (leaseReconcile (traced k) key) w = h @ ActUpdateDeviceLeaseStatus l r # t"
  shows "\<exists>le. leaseRead h = Some le \<and> leaseStep (leasePhase le) (leasePhase l) \<and> leasePhase le \<le> leasePhase l \<and> \<not> leaseTerminating le \<and>
    containsFinalizer k (leaseMeta le) leaseFinalizer \<and> leaseMeta l = leaseMeta le \<and> leaseSpec l = leaseSpec le"
proof -
  obtain le where le: "leaseRead h = Some le" and may: "mayReport k h le l"
    using lease_write [OF assms] by auto
  have "leaseStep (leasePhase le) (leasePhase l) \<and> \<not> leaseTerminating le"
    using may unfolding mayReport_def
    by (cases "leasePhase l") (auto simp: isPending_def isBound_def intro: leaseStep.intros)
  with le may show ?thesis unfolding mayReport_def using leaseStep_mono by blast
qed

lemma lease_status_follows_life_cycle_witness:
  "\<exists>h l r t le. traceOf (leaseReconcile (traced mem) (''ns'', ''l1'')) demoBind = h @ ActUpdateDeviceLeaseStatus l r # t \<and>
     leaseRead h = Some le \<and> leaseStep (leasePhase le) (leasePhase l)"
proof -
  have "someCall leaseStatusWrite (\<lambda>_. True) (traceOf (leaseReconcile (traced mem) (''ns'', ''l1'')) demoBind)" by code_simp
  then obtain h l r t where *: "traceOf (leaseReconcile (traced mem) (''ns'', ''l1'')) demoBind = h @ ActUpdateDeviceLeaseStatus l r # t"
    using some_leaseStatusWrite by blast
  from lease_status_follows_life_cycle [OF this] * show ?thesis by blast
qed

definition writesPhase :: "'w kube \<Rightarrow> objectKey \<Rightarrow> LeasePhase \<Rightarrow> LeasePhase \<Rightarrow> bool" where
  \<comment> \<open>some run of the controller that read the lease in phase \<open>p\<close> writes the phase \<open>q\<close>\<close>
  "writesPhase k key p q \<longleftrightarrow> (\<exists>w h l r t le. traceOf (leaseReconcile (traced k) key) w = h @ ActUpdateDeviceLeaseStatus l r # t \<and>
     leaseRead h = Some le \<and> leasePhase le = p \<and> leasePhase l = q)"

lemma writesPhase_step: "writesPhase k key p q \<Longrightarrow> leaseStep p q"
proof -
  assume "writesPhase k key p q"
  then obtain w h l r t le where t: "traceOf (leaseReconcile (traced k) key) w = h @ ActUpdateDeviceLeaseStatus l r # t"
    and le: "leaseRead h = Some le" "leasePhase le = p" "leasePhase l = q"
    unfolding writesPhase_def by blast
  obtain le' where "leaseRead h = Some le'" "mayReport k h le' l" using lease_write [OF t] by auto
  with le show ?thesis unfolding mayReport_def
    by (cases "leasePhase l") (auto simp: isPending_def isBound_def intro: leaseStep.intros)
qed

text \<open>Along any number of runs of the controller a lease that starts unset never becomes Released
  or Failed, two phases the API declares, and once it is Expired no run changes its phase again.\<close>

theorem lease_phases_reached:
  assumes "(writesPhase k key)\<^sup>*\<^sup>* LeasePhaseUnset p"
  shows "p \<in> {LeasePhaseUnset, LeasePending, LeaseBound, LeaseExpired} \<and> \<not> writesPhase k key LeaseExpired q"
proof -
  from assms have "p \<in> {LeasePhaseUnset, LeasePending, LeaseBound, LeaseExpired}"
    by (induction rule: rtranclp_induct) (auto dest!: writesPhase_step elim: leaseStepE)
  then show ?thesis by (auto dest: writesPhase_step)
qed

lemma writesPhaseI:
  "someCall leaseStatusWrite (\<lambda>l. leasePhase l = q) (traceOf (leaseReconcile (traced k) key) w) \<Longrightarrow>
   (case leaseRead (traceOf (leaseReconcile (traced k) key) w) of Some le \<Rightarrow> leasePhase le = p | None \<Rightarrow> False) \<Longrightarrow>
   writesPhase k key p q"
proof -
  assume some: "someCall leaseStatusWrite (\<lambda>l. leasePhase l = q) (traceOf (leaseReconcile (traced k) key) w)"
    and first: "case leaseRead (traceOf (leaseReconcile (traced k) key) w) of Some le \<Rightarrow> leasePhase le = p | None \<Rightarrow> False"
  from some obtain h l r t where t: "traceOf (leaseReconcile (traced k) key) w = h @ ActUpdateDeviceLeaseStatus l r # t" "leasePhase l = q"
    using some_leaseStatusWrite by blast
  obtain le where le: "leaseRead h = Some le" using lease_write [OF t(1)] by auto
  then have "leaseRead (h @ ActUpdateDeviceLeaseStatus l r # t) = Some le" by (rule leaseRead_mono [rotated]) simp
  then have "leasePhase le = p" using first unfolding t(1) by simp
  with t le show ?thesis unfolding writesPhase_def by (intro exI conjI)
qed

lemma lease_phases_reached_witness:
  "(writesPhase mem (''ns'', ''l1''))\<^sup>*\<^sup>* LeasePhaseUnset LeaseExpired \<and>
   \<not> writesPhase mem (''ns'', ''l1'') LeaseExpired LeaseBound"
proof -
  have "writesPhase mem (''ns'', ''l1'') LeasePhaseUnset LeaseBound"
    by (rule writesPhaseI [where w = "demoCluster (demoPool 2 []) [demoDevice ''d1'' ''pixel'' DeviceReady []]
        [demoLease ''l1'' ''pixel'' LeasePhaseUnset [] None]"]) code_simp+
  moreover have "writesPhase mem (''ns'', ''l1'') LeaseBound LeaseExpired"
    by (rule writesPhaseI [where w = demoExpired]) code_simp+
  ultimately have "(writesPhase mem (''ns'', ''l1''))\<^sup>*\<^sup>* LeasePhaseUnset LeaseExpired" by (blast intro: rtranclp.intros)
  with lease_phases_reached [OF this] show ?thesis by blast
qed

text \<open>C10: A lease is reported Expired only when it was read Bound, a clock reading of the run lies
  strictly after its heartbeat plus its TTL, and its device has been released in the same run.\<close>

theorem lease_expires_only_after_ttl:
  assumes "traceOf (leaseReconcile (traced k) key) w = h @ ActUpdateDeviceLeaseStatus l r # t"
    and "leasePhase l = LeaseExpired"
  shows "\<exists>le hb now. leaseRead h = Some le \<and> leasePhase le = LeaseBound \<and> heartbeatIn h le hb \<and>
    ActClockNow now \<in> set h \<and> hb + sint (lsTTLSeconds (leaseSpec le)) * 1000000000 < now \<and> releaseDone h le"
proof -
  obtain le where le: "leaseRead h = Some le" and may: "mayReport k h le l"
    using lease_write [OF assms(1)] by auto
  then show ?thesis
    using assms(2) by (auto simp: mayReport_def isBound_def expiredIn_def timeAdd_def sint_ttlDuration)
qed

lemma lease_expires_only_after_ttl_witness:
  "\<exists>h l r t le hb now. traceOf (leaseReconcile (traced mem) (''ns'', ''l1'')) demoExpired = h @ ActUpdateDeviceLeaseStatus l r # t \<and>
     leasePhase l = LeaseExpired \<and> leaseRead h = Some le \<and> leasePhase le = LeaseBound \<and> ActClockNow now \<in> set h \<and>
     hb + sint (lsTTLSeconds (leaseSpec le)) * 1000000000 < now \<and> releaseDone h le"
proof -
  have "someCall leaseStatusWrite (\<lambda>l. leasePhase l = LeaseExpired) (traceOf (leaseReconcile (traced mem) (''ns'', ''l1'')) demoExpired)"
    by code_simp
  then obtain h l r t where
    *: "traceOf (leaseReconcile (traced mem) (''ns'', ''l1'')) demoExpired = h @ ActUpdateDeviceLeaseStatus l r # t" "leasePhase l = LeaseExpired"
    using some_leaseStatusWrite by blast
  from lease_expires_only_after_ttl [OF this] * show ?thesis by blast
qed

text \<open>C32: When a pending lease is reported Bound, the run either saw a device bound to it or had its
  own binding write accepted, and the lease names that device, hands out that device's adb endpoint
  and expires one TTL after its heartbeat.\<close>

theorem lease_bound_to_device_it_holds:
  assumes "traceOf (leaseReconcile (traced k) key) w = h @ ActUpdateDeviceLeaseStatus l r # t"
    and "leasePhase l = LeaseBound" and "\<forall>le. leaseRead h = Some le \<longrightarrow> leasePhase le \<noteq> LeaseBound"
  shows "\<exists>le d hb. leaseRead h = Some le \<and> isPending le \<and>
    (d \<in> set (served h) \<and> devLeaseRef d = leaseName le \<or>
      (\<exists>x. ActUpdateDeviceStatus x (Inr d) \<in> set h \<and> devLeaseRef x = leaseName le)) \<and>
    ltDeviceRef (leaseStatus l) = devName d \<and> ltADBEndpoint (leaseStatus l) = dtADBEndpoint (devStatus d) \<and>
    heartbeatIn h le hb \<and> ltExpiresAt (leaseStatus l) = Some (hb + sint (lsTTLSeconds (leaseSpec le)) * 1000000000)"
proof -
  obtain le where le: "leaseRead h = Some le" and may: "mayReport k h le l"
    using lease_write [OF assms(1)] by auto
  then obtain d hb where *: "isPending le" "holdsIn h le d" "heartbeatIn h le hb" "ltDeviceRef (leaseStatus l) = devName d"
      "ltADBEndpoint (leaseStatus l) = dtADBEndpoint (devStatus d)"
      "ltExpiresAt (leaseStatus l) = Some (timeAdd hb (ttlDuration le))"
    using assms(2,3) unfolding mayReport_def isBound_def by auto
  from *(6) have "ltExpiresAt (leaseStatus l) = Some (hb + sint (lsTTLSeconds (leaseSpec le)) * 1000000000)"
    by (simp add: timeAdd_def sint_ttlDuration)
  with le * show ?thesis unfolding holdsIn_def by blast
qed

lemma lease_bound_to_device_it_holds_witness:
  "\<exists>h l r t le d. traceOf (leaseReconcile (traced mem) (''ns'', ''l1'')) demoBind = h @ ActUpdateDeviceLeaseStatus l r # t \<and>
     leasePhase l = LeaseBound \<and> leaseRead h = Some le \<and> isPending le \<and> ltDeviceRef (leaseStatus l) = devName (d :: Device)"
proof -
  let ?t = "traceOf (leaseReconcile (traced mem) (''ns'', ''l1'')) demoBind"
  have "someCall leaseStatusWrite (\<lambda>l. leasePhase l = LeaseBound) ?t" by code_simp
  then obtain h l r t where *: "?t = h @ ActUpdateDeviceLeaseStatus l r # t" "leasePhase l = LeaseBound"
    using some_leaseStatusWrite by blast
  have "map_option leasePhase (leaseRead ?t) = Some LeasePending" by code_simp
  then have "\<forall>le. leaseRead h = Some le \<longrightarrow> leasePhase le \<noteq> LeaseBound"
    using leaseRead_of_trace [OF *(1)] by auto
  from lease_bound_to_device_it_holds [OF * this] * show ?thesis by blast
qed

subsection \<open>Provisioning and eviction\<close>

lemma shortage_counts:
  assumes "shortageIn h le pool ds" and "listedShort h"
  obtains ls where "ActListDeviceLeases (mNamespace (poolMeta pool)) (Inr ls) \<in> set h"
    and "length (filter (claimable (lsClassRef (leaseSpec le))) ds) < length (filter (unsatisfied (lsClassRef (leaseSpec le))) ls)"
proof -
  let ?c = "lsClassRef (leaseSpec le)"
  obtain ls where ls: "ActListDeviceLeases (mNamespace (poolMeta pool)) (Inr ls) \<in> set h" "unclaimedSupply ds ?c <s demandOf ?c ls"
    and ds: "ActListDevices (mNamespace (poolMeta pool)) [(LabelPool, mName (poolMeta pool))] (Inr ds) \<in> set h"
    using assms(1) unfolding shortageIn_def by blast
  have "length (filter (claimable ?c) ds) < 2 ^ 31" "length (filter (unsatisfied ?c) ls) < 2 ^ 31"
    using listedShortD [OF assms(2)] ls(1) ds length_filter_le le_less_trans by blast+
  then show ?thesis using ls that by (simp only: unclaimedSupply_count demandOf_count sless_of_nats)
qed

lemma belowMax_count:
  assumes "length ds < 2 ^ 31"
  shows "belowMax pool ds \<longleftrightarrow> int (length (filter (\<lambda>d. \<not> devTerminating d) ds)) < sint (dpsMaxConcurrent (poolSpec pool))"
proof -
  have "length (filter (\<lambda>d. \<not> devTerminating d) ds) < 2 ^ 31" using assms length_filter_le le_less_trans by blast
  then show ?thesis by (simp only: belowMax_def activeDevices_filter sless_of_nat)
qed

text \<open>C17: A lease run creates a device only while the leases pending for its class outnumber the
  devices that could serve them, and only as its first write with the pool below
  \<open>maxConcurrent\<close>, or right after it deleted, in a full pool, an idle device of another class that
  no other such device was used less recently than.\<close>

theorem lease_provisions_only_on_shortage:
  assumes "traceOf (leaseReconcile (traced k) key) w = h @ ActCreateDevice x r # t" and "listedShort h"
  shows "\<exists>le pool ds ls dc. leaseRead h = Some le \<and> isPending le \<and> resolvedIn h le pool \<and>
    ActListDevices (mNamespace (poolMeta pool)) [(LabelPool, mName (poolMeta pool))] (Inr ds) \<in> set h \<and>
    ActListDeviceLeases (mNamespace (poolMeta pool)) (Inr ls) \<in> set h \<and>
    ActGetDeviceClass (lsClassRef (leaseSpec le)) (Inr dc) \<in> set h \<and> devSpec x = devSpec (newPoolDevice pool dc) \<and>
    length (filter (claimable (lsClassRef (leaseSpec le))) ds) < length (filter (unsatisfied (lsClassRef (leaseSpec le))) ls) \<and>
    (writesIn h = [] \<and> int (length (filter (\<lambda>d. \<not> devTerminating d) ds)) < sint (dpsMaxConcurrent (poolSpec pool)) \<or>
     (\<exists>v r. writesIn h = [ActDeleteDevice (devNamespace v, devName v) r] \<and> gone r \<and> v \<in> set ds \<and>
        evictable (lsClassRef (leaseSpec le)) v \<and>
        (\<forall>d \<in> set ds. evictable (lsClassRef (leaseSpec le)) d \<longrightarrow> lastUsed v \<le> lastUsed d)))"
proof -
  obtain le where le: "leaseRead h = Some le" and may: "mayProvision k h le x"
    using lease_write [OF assms(1)] by auto
  then obtain pool ds dc m where *: "isPending le" "shortageIn h le pool ds"
      "ActGetDeviceClass (lsClassRef (leaseSpec le)) (Inr dc) \<in> set h" "x = setDeviceMeta m (newPoolDevice pool dc)"
      "belowMax pool ds \<and> writesIn h = [] \<or>
          (\<exists>v r. victimIn le pool ds v \<and> writesIn h = [ActDeleteDevice (devNamespace v, devName v) r] \<and> gone r)"
    unfolding mayProvision_def by blast
  obtain ls where ls: "ActListDeviceLeases (mNamespace (poolMeta pool)) (Inr ls) \<in> set h"
    "length (filter (claimable (lsClassRef (leaseSpec le))) ds) < length (filter (unsatisfied (lsClassRef (leaseSpec le))) ls)"
    using shortage_counts [OF *(2) assms(2)] .
  have ds: "ActListDevices (mNamespace (poolMeta pool)) [(LabelPool, mName (poolMeta pool))] (Inr ds) \<in> set h"
    and res: "resolvedIn h le pool"
    using *(2) unfolding shortageIn_def by blast+
  have room: "writesIn h = [] \<and> int (length (filter (\<lambda>d. \<not> devTerminating d) ds)) < sint (dpsMaxConcurrent (poolSpec pool)) \<or>
     (\<exists>v r. writesIn h = [ActDeleteDevice (devNamespace v, devName v) r] \<and> gone r \<and> v \<in> set ds \<and>
        evictable (lsClassRef (leaseSpec le)) v \<and>
        (\<forall>d \<in> set ds. evictable (lsClassRef (leaseSpec le)) d \<longrightarrow> lastUsed v \<le> lastUsed d))"
    using *(5) belowMax_count [OF listedShortD(1) [OF assms(2) ds]] lruIdleOtherClass_Some [of ds "lsClassRef (leaseSpec le)"]
    unfolding victimIn_def by blast
  have "devSpec x = devSpec (newPoolDevice pool dc)" using *(4) by (simp add: setDeviceMeta_def)
  with le *(1,3) res ds ls room show ?thesis by blast
qed

definition demoFull :: cluster where
  \<comment> \<open>a full pool of two idle tablets, the second used less recently, and a lease for a pixel\<close>
  "demoFull = demoCluster (demoPool 2 [(''pixel'', 0), (''tablet'', 2)])
     [releasedDevice 800000000000 (demoDevice ''t1'' ''tablet'' DeviceReady []),
      releasedDevice 700000000000 (demoDevice ''t2'' ''tablet'' DeviceReady [])]
     [demoLease ''l1'' ''pixel'' LeasePending [] None]"

lemma lease_provisions_only_on_shortage_witness:
  "\<exists>h x r t le ls ds. traceOf (leaseReconcile (traced mem) (''ns'', ''l1'')) demoFull = h @ ActCreateDevice x r # t \<and>
     leaseRead h = Some le \<and>
     length (filter (claimable (lsClassRef (leaseSpec le))) ds) < length (filter (unsatisfied (lsClassRef (leaseSpec le))) ls)"
proof -
  let ?t = "traceOf (leaseReconcile (traced mem) (''ns'', ''l1'')) demoFull"
  have "someCall deviceCreation (\<lambda>_. True) ?t" by code_simp
  then obtain h x r t where *: "?t = h @ ActCreateDevice x r # t"
    using some_deviceCreation by blast
  have "listedShort ?t" by code_simp
  then have "listedShort h" unfolding * listedShort_def by (rule listedWithin_prefix)
  from lease_provisions_only_on_shortage [OF * this] * show ?thesis by blast
qed

text \<open>C16: A lease run deletes a device only as its first write, in a full pool whose policy is LRU
  eviction and which lacks a device for a pending lease of the class: an idle (Ready, unbound, not
  terminating) device of another class in that pool, none of which was used less recently.\<close>

theorem lease_evicts_only_lru_idle:
  assumes "traceOf (leaseReconcile (traced k) key) w = h @ ActDeleteDevice vkey r # t" and "listedShort h"
  shows "\<exists>le pool ds v. leaseRead h = Some le \<and> isPending le \<and> writesIn h = [] \<and> resolvedIn h le pool \<and>
    ActListDevices (mNamespace (poolMeta pool)) [(LabelPool, mName (poolMeta pool))] (Inr ds) \<in> set h \<and>
    v \<in> set ds \<and> vkey = (devNamespace v, devName v) \<and> dpsEvictionPolicy (poolSpec pool) = EvictLRUIdle \<and>
    sint (dpsMaxConcurrent (poolSpec pool)) \<le> int (length (filter (\<lambda>d. \<not> devTerminating d) ds)) \<and>
    devPhase v = DeviceReady \<and> devLeaseRef v = [] \<and> \<not> devTerminating v \<and> devClass v \<noteq> lsClassRef (leaseSpec le) \<and>
    (\<forall>d \<in> set ds. evictable (lsClassRef (leaseSpec le)) d \<longrightarrow> lastUsed v \<le> lastUsed d)"
proof -
  obtain le where le: "leaseRead h = Some le" and may: "mayEvict h le vkey"
    using lease_write [OF assms(1)] by auto
  then obtain pool ds v where *: "isPending le" "writesIn h = []" "shortageIn h le pool ds" "victimIn le pool ds v"
      "vkey = (devNamespace v, devName v)"
    unfolding mayEvict_def by blast
  have ds: "ActListDevices (mNamespace (poolMeta pool)) [(LabelPool, mName (poolMeta pool))] (Inr ds) \<in> set h"
    and res: "resolvedIn h le pool"
    using *(3) unfolding shortageIn_def by blast+
  have v: "v \<in> set ds" "evictable (lsClassRef (leaseSpec le)) v"
      "\<forall>d \<in> set ds. evictable (lsClassRef (leaseSpec le)) d \<longrightarrow> lastUsed v \<le> lastUsed d"
    and pol: "dpsEvictionPolicy (poolSpec pool) = EvictLRUIdle" "\<not> belowMax pool ds"
    using *(4) lruIdleOtherClass_Some [of ds "lsClassRef (leaseSpec le)" v] unfolding victimIn_def by blast+
  have "sint (dpsMaxConcurrent (poolSpec pool)) \<le> int (length (filter (\<lambda>d. \<not> devTerminating d) ds))"
    using pol(2) belowMax_count [OF listedShortD(1) [OF assms(2) ds]] by simp
  with le * res ds v pol(1) show ?thesis unfolding evictable_def by blast
qed

lemma lease_evicts_only_lru_idle_witness:
  "\<exists>h r t le v. traceOf (leaseReconcile (traced mem) (''ns'', ''l1'')) demoFull = h @ ActDeleteDevice (''ns'', ''t2'') r # t \<and>
     leaseRead h = Some le \<and> isPending le \<and> (''ns'', ''t2'') = (devNamespace v, devName v) \<and>
     devClass v \<noteq> lsClassRef (leaseSpec le) \<and> devPhase v = DeviceReady"
proof -
  let ?t = "traceOf (leaseReconcile (traced mem) (''ns'', ''l1'')) demoFull"
  have "someCall deviceDeletion (\<lambda>key. key = (''ns'', ''t2'')) ?t" by code_simp
  then obtain h r t where *: "?t = h @ ActDeleteDevice (''ns'', ''t2'') r # t"
    using some_deviceDeletion by blast
  have "listedShort ?t" by code_simp
  then have "listedShort h" unfolding * listedShort_def by (rule listedWithin_prefix)
  from lease_evicts_only_lru_idle [OF * this] * show ?thesis by blast
qed

subsection \<open>How often a run writes\<close>

lemma at_most_one:
  assumes "obeys A t" and "\<And>h a. A h a \<Longrightarrow> Q a \<Longrightarrow> filter Q h = []"
  shows "length (filter Q t) \<le> 1"
  using assms(1)
proof (induction t rule: rev_induct)
  case (snoc a t)
  then show ?case using assms(2) [of t a] by (cases "Q a") simp_all
qed simp

fun bindsOrFrees :: "action \<Rightarrow> bool" where
  "bindsOrFrees (ActUpdateDeviceStatus _ _) = True"
| "bindsOrFrees _ = False"

fun deletesDevice :: "action \<Rightarrow> bool" where
  "deletesDevice (ActDeleteDevice _ _) = True"
| "deletesDevice _ = False"

lemma filter_writes:
  assumes "\<And>a. Q a \<Longrightarrow> \<not> isRead a"
  shows "filter Q h = filter Q (writesIn h)"
  using assms by (induction h) auto

lemma claim_filters:
  "filter (\<lambda>a. bindsOrFrees a \<or> createsDevice a) h = filter (\<lambda>a. bindsOrFrees a \<or> createsDevice a) (writesIn h)"
  "filter (\<lambda>a. bindsOrFrees a \<or> deletesDevice a) h = filter (\<lambda>a. bindsOrFrees a \<or> deletesDevice a) (writesIn h)"
proof -
  have "\<not> isRead a" if "bindsOrFrees a \<or> createsDevice a \<or> deletesDevice a" for a
    using that by (cases a) simp_all
  then show "filter (\<lambda>a. bindsOrFrees a \<or> createsDevice a) h = filter (\<lambda>a. bindsOrFrees a \<or> createsDevice a) (writesIn h)"
    and "filter (\<lambda>a. bindsOrFrees a \<or> deletesDevice a) h = filter (\<lambda>a. bindsOrFrees a \<or> deletesDevice a) (writesIn h)"
    by (blast intro: filter_writes)+
qed

lemma leaseMay_first:
  assumes "leaseMay k h a" and "bindsOrFrees a \<or> deletesDevice a"
  shows "writesIn h = []"
proof -
  consider x r where "a = ActUpdateDeviceStatus x r" | key r where "a = ActDeleteDevice key r"
    using assms(2) by (cases a) auto
  then show ?thesis
    using assms(1) by cases (auto simp: leaseMay_def mayBind_def mayFree_def mayEvict_def split: option.splits)
qed

lemma leaseMay_creates:
  assumes "leaseMay k h a" and "createsDevice a"
  shows "filter (\<lambda>a. bindsOrFrees a \<or> createsDevice a) (writesIn h) = []"
proof -
  obtain x r where "a = ActCreateDevice x r" using assms(2) by (cases a) auto
  then obtain le where "mayProvision k h le x"
    using assms(1) by (auto simp: leaseMay_def split: option.splits)
  then have "writesIn h = [] \<or> (\<exists>key r. writesIn h = [ActDeleteDevice key r])" unfolding mayProvision_def by blast
  then show ?thesis by (auto simp del: filter_filter)
qed

text \<open>C38: A lease run acts at most once: it changes the binding of at most one device or creates
  at most one, never both, and it deletes at most one device and none in a run that changes a binding.\<close>

theorem lease_run_acts_at_most_once:
  "length (filter (\<lambda>a. bindsOrFrees a \<or> createsDevice a) (traceOf (leaseReconcile (traced k) key) w)) \<le> 1 \<and>
   length (filter (\<lambda>a. bindsOrFrees a \<or> deletesDevice a) (traceOf (leaseReconcile (traced k) key) w)) \<le> 1"
proof -
  have t: "obeys (leaseMay k) (traceOf (leaseReconcile (traced k) key) w)" by (rule within_obeys [OF lease_run_obeys])
  have "filter (\<lambda>a. bindsOrFrees a \<or> createsDevice a) h = []"
    if "leaseMay k h a" "bindsOrFrees a \<or> createsDevice a" for h a
  proof -
    have "filter (\<lambda>a. bindsOrFrees a \<or> createsDevice a) (writesIn h) = []"
    proof (cases "bindsOrFrees a")
      case True
      then have "writesIn h = []" using leaseMay_first [OF that(1)] by blast
      then show ?thesis by (simp only: filter.simps)
    next
      case False
      then show ?thesis using leaseMay_creates [OF that(1)] that(2) by blast
    qed
    then show ?thesis by (rule trans [OF claim_filters(1)])
  qed
  moreover have "filter (\<lambda>a. bindsOrFrees a \<or> deletesDevice a) h = []"
    if "leaseMay k h a" "bindsOrFrees a \<or> deletesDevice a" for h a
  proof (rule trans [OF claim_filters(2)])
    show "filter (\<lambda>a. bindsOrFrees a \<or> deletesDevice a) (writesIn h) = []"
      by (simp only: leaseMay_first [OF that] filter.simps)
  qed
  ultimately show ?thesis by (intro conjI at_most_one [OF t])
qed

text \<open>A lease that carries the finalizer, is not being deleted and is Released, Failed or Expired is
  left alone: its reconcile writes nothing.\<close>

theorem lease_final_phases_quiet:
  assumes "leaseRead (traceOf (leaseReconcile (traced k) key) w) = Some le" and "\<not> leaseTerminating le"
    and "containsFinalizer k (leaseMeta le) leaseFinalizer" and "leasePhase le \<in> {LeaseReleased, LeaseFailed, LeaseExpired}"
  shows "writesIn (traceOf (leaseReconcile (traced k) key) w) = []"
proof (rule ccontr)
  let ?t = "traceOf (leaseReconcile (traced k) key) w"
  assume "writesIn ?t \<noteq> []"
  then obtain a where "a \<in> set ?t" "\<not> isRead a" by (auto simp: filter_empty_conv)
  then obtain h t where t: "?t = h @ a # t" by (meson split_list)
  obtain le' where le': "leaseRead h = Some le'" and may: "case a of
              ActUpdateDeviceStatus x _ \<Rightarrow> mayBind h le' x \<or> mayFree k h le' x
            | ActDeletePod key _ \<Rightarrow> mayRecycle h le' key
            | ActUpdateDeviceLease l _ \<Rightarrow> mayEdit k h le' l
            | ActUpdateDeviceLeaseStatus l _ \<Rightarrow> mayReport k h le' l
            | ActCreateDevice x _ \<Rightarrow> mayProvision k h le' x
            | ActDeleteDevice key _ \<Rightarrow> mayEvict h le' key
            | _ \<Rightarrow> False"
    by (rule lease_write [OF t \<open>\<not> isRead a\<close>])
  have "le' = le" using leaseRead_of_trace [OF t le'] assms(1) by simp
  have first: "\<not> mayBind h' le x" "\<not> mayFree k h' le x" "\<not> mayEvict h' le key'" "\<not> mayProvision k h' le x" "\<not> mayReport k h' le l" "\<not> mayEdit k h' le l" for h' x key' l
    using assms(2,3,4)
    by (auto simp: mayBind_def mayFree_def mayEvict_def mayProvision_def mayReport_def mayEdit_def isPending_def isBound_def split: LeasePhase.splits)
  have "\<not> mayRecycle h le key'" for key'
  proof
    assume "mayRecycle h le key'"
    then obtain x d where "ActUpdateDeviceStatus x (Inr d) \<in> set h" unfolding mayRecycle_def by blast
    then obtain h1 t1 where "h = h1 @ ActUpdateDeviceStatus x (Inr d) # t1" by (meson split_list)
    then have t1: "?t = h1 @ ActUpdateDeviceStatus x (Inr d) # (t1 @ a # t)" using t by simp
    from lease_write [OF this] obtain le1 where "leaseRead h1 = Some le1" "mayBind h1 le1 x \<or> mayFree k h1 le1 x" by auto
    then show False using leaseRead_of_trace [OF t1] assms(1) first by force
  qed
  then show False using may first unfolding \<open>le' = le\<close> by (auto split: action.splits)
qed

definition demoDone :: cluster where
  "demoDone = demoCluster (demoPool 2 [(''pixel'', 1)]) [demoDevice ''d1'' ''pixel'' DeviceReady []]
     [demoLease ''l1'' ''pixel'' LeaseExpired ''d1'' (Some 600000000000)]"

lemma lease_final_phases_quiet_witness:
  "\<exists>le. leaseRead (traceOf (leaseReconcile (traced mem) (''ns'', ''l1'')) demoDone) = Some le \<and> leasePhase le = LeaseExpired \<and>
     writesIn (traceOf (leaseReconcile (traced mem) (''ns'', ''l1'')) demoDone) = []"
proof -
  let ?t = "traceOf (leaseReconcile (traced mem) (''ns'', ''l1'')) demoDone"
  have *: "map_option (\<lambda>le. (leaseTerminating le, containsFinalizer mem (leaseMeta le) leaseFinalizer, leasePhase le)) (leaseRead ?t)
      = Some (False, True, LeaseExpired)" by code_simp
  then obtain le where le: "leaseRead ?t = Some le" "\<not> leaseTerminating le" "containsFinalizer mem (leaseMeta le) leaseFinalizer"
    "leasePhase le = LeaseExpired" by (cases "leaseRead ?t") simp_all
  then have "leasePhase le \<in> {LeaseReleased, LeaseFailed, LeaseExpired}" by simp
  from lease_final_phases_quiet [OF le(1-3) this] le show ?thesis by blast
qed

subsection \<open>Waking up\<close>

definition wakesAt :: "DeviceLease \<Rightarrow> goError + ctrlResult \<Rightarrow> action list \<Rightarrow> bool" where
  \<comment> \<open>the TTL had not passed when the run checked it; the run ends by reading the clock and asks to be run again after what is left of the TTL then\<close>
  "wakesAt le r l \<longleftrightarrow> (\<forall>res. r = Inr res \<longrightarrow>
     (\<exists>hb h checked now. heartbeatIn l le hb \<and> l = h @ [ActClockNow now] \<and>
        ActClockNow checked \<in> set h \<and> checked \<le> timeAdd hb (ttlDuration le) \<and>
        res = requeueAfter (timeSub (timeAdd hb (ttlDuration le)) now)))"

lemma wakesAt_error [simp]: "wakesAt le (Inl e) l"
  by (simp add: wakesAt_def)

lemma writeStatus_lwp:
  assumes "\<And>r l'. prefix l l' \<Longrightarrow> Q r l'"
  shows "lwp (writeStatus (traced k) le ph reason msg) Q l"
  unfolding writeStatus_def Let_def
  by (auto intro!: lwp_intro assms split: sum.split)

lemma refreshBound_wakes:
  assumes "heartbeatIn l le hb" and "ActClockNow checked \<in> set l" and "checked \<le> timeAdd hb (ttlDuration le)"
  shows "lwp (refreshBound (traced k) (withHeartbeat hb le) (timeAdd hb (ttlDuration le))) (wakesAt le) l"
proof -
  have woken: "wakesAt le (Inr (requeueAfter (timeSub (timeAdd hb (ttlDuration le)) now))) (l' @ [ActClockNow now])"
    if "prefix l l'" for l' now
  proof -
    have "heartbeatIn (l' @ [ActClockNow now]) le hb"
      by (rule heartbeatIn_mono [OF _ assms(1)]) (use that in \<open>auto intro: prefix_order.trans\<close>)
    moreover have "ActClockNow checked \<in> set l'" using assms(2) that by (auto dest: set_mono_prefix)
    ultimately show ?thesis unfolding wakesAt_def using assms(3) by blast
  qed
  show ?thesis
    unfolding refreshBound_def Let_def deviceHealth_def
    by (auto intro!: lwp_intro writeStatus_lwp woken dest: append_prefixD split: sum.split)
qed

definition expiryReported :: "DeviceLease \<Rightarrow> goError + ctrlResult \<Rightarrow> action list \<Rightarrow> bool" where
  "expiryReported le r l \<longleftrightarrow> (\<exists>x y. ActUpdateDeviceLeaseStatus x (Inr y) \<in> set l \<and> leasePhase x = LeaseExpired \<and>
     leaseMeta x = leaseMeta le \<and> r = Inr emptyResult)"

lemma lwp_any: "(\<And>x l'. Q x l') \<Longrightarrow> lwp m Q l"
  by (auto simp: lwp_def split: prod.splits)

lemma writeExpired_lwp:
  assumes "leaseMeta le' = leaseMeta le"
  shows "lwp (tryE (writeStatus (traced k) le' LeaseExpired reason msg) (\<lambda>_. ret (Inr emptyResult)))
     (\<lambda>r l'. (\<exists>e. r = Inl e) \<or> expiryReported le r l' \<or> wakesAt le r l') l"
proof -
  have "expiryReported le (Inr emptyResult) (l @ [ActUpdateDeviceLeaseStatus
      (le'\<lparr>leaseStatus := (leaseStatus le')\<lparr>ltPhase := LeaseExpired, ltConditions := conds\<rparr>\<rparr>) (Inr y)])" for conds y l
    using assms unfolding expiryReported_def by fastforce
  then show ?thesis unfolding writeStatus_def Let_def by (auto intro!: lwp_intro split: sum.split)
qed

lemma reconcileBound_wakes:
  "lwp (reconcileBound (traced k) le) (\<lambda>r l'. (\<exists>e. r = Inl e) \<or> expiryReported le r l' \<or> wakesAt le r l') l"
proof -
  have expired: "lwp (tryE (releaseDevice (traced k) (withHeartbeat hb le)) (\<lambda>_.
             tryE (writeStatus (traced k) (withHeartbeat hb le) LeaseExpired reason msg) (\<lambda>_. ret (Inr emptyResult))))
        (\<lambda>r l'. (\<exists>e. r = Inl e) \<or> expiryReported le r l' \<or> wakesAt le r l') l'" for hb reason msg l'
    by (rule lwp_tryE, rule lwp_any) (auto intro!: writeExpired_lwp split: sum.split)
  have alive: "lwp (refreshBound (traced k) (withHeartbeat hb le) (timeAdd hb (ttlDuration le)))
        (\<lambda>r l'. (\<exists>e. r = Inl e) \<or> expiryReported le r l' \<or> wakesAt le r l') l'"
    if "heartbeatIn l' le hb" and "ActClockNow now \<in> set l'" and "\<not> timeAdd hb (ttlDuration le) < now" for hb l' now
    by (rule lwp_conseq [OF refreshBound_wakes [OF that(1,2)]]) (use that(3) in simp_all)
  show ?thesis
    unfolding reconcileBound_def Let_def withHeartbeat_simps heartbeatOrNow_def
    by (auto intro!: lwp_intro expired alive simp: heartbeatIn_def split: option.split)
qed

text \<open>C24: A reconcile of a Bound lease that ends without an error has either reported it Expired, or it
  checked at some reading of the clock that the TTL had not passed, ends with another reading, and
  returns as \<open>RequeueAfter\<close> what is left of the TTL at that last reading. That is positive exactly if the
  TTL has not passed by then: if it passes during the run, the delay is zero or negative, which the
  library takes for no request.\<close>

theorem bound_lease_delay_until_expiry:
  assumes "resultOf (reconcileBound (traced k) le) w = Inr res"
  shows "(\<exists>x y. ActUpdateDeviceLeaseStatus x (Inr y) \<in> set (traceOf (reconcileBound (traced k) le) w) \<and>
       leasePhase x = LeaseExpired \<and> leaseMeta x = leaseMeta le \<and> res = emptyResult) \<or>
     (\<exists>hb h checked now. heartbeatIn (traceOf (reconcileBound (traced k) le) w) le hb \<and>
       traceOf (reconcileBound (traced k) le) w = h @ [ActClockNow now] \<and> ActClockNow checked \<in> set h \<and>
       checked \<le> hb + sint (lsTTLSeconds (leaseSpec le)) * 1000000000 \<and> Requeue res = False \<and>
       RequeueAfter res = timeSub (timeAdd hb (ttlDuration le)) now \<and>
       (0 < sint (RequeueAfter res) \<longleftrightarrow> now < hb + sint (lsTTLSeconds (leaseSpec le)) * 1000000000))"
proof -
  have "expiryReported le (Inr res) (traceOf (reconcileBound (traced k) le) w) \<or>
      wakesAt le (Inr res) (traceOf (reconcileBound (traced k) le) w)"
    using lwp_trace [OF reconcileBound_wakes, of k le w] assms by simp
  then show ?thesis
    by (fastforce simp: expiryReported_def wakesAt_def requeueAfter_def sint_timeSub_pos timeAdd_def sint_ttlDuration)
qed

definition demoAlive :: cluster where
  "demoAlive = demoCluster (demoPool 2 [(''pixel'', 1)]) [demoDevice ''d1'' ''pixel'' DeviceLeased ''l1'']
     [demoLease ''l1'' ''pixel'' LeaseBound ''d1'' (Some 900000000000)]"

lemma bound_lease_delay_until_expiry_witness:
  "\<exists>res. resultOf (reconcileBound (traced mem) (demoLease ''l1'' ''pixel'' LeaseBound ''d1'' (Some 900000000000))) demoAlive = Inr res \<and>
     sint (RequeueAfter res) = 200000000000 \<and> (\<exists>hb now. RequeueAfter res = timeSub (timeAdd hb (ttlDuration (demoLease ''l1'' ''pixel'' LeaseBound ''d1'' (Some 900000000000)))) now)"
proof -
  let ?le = "demoLease ''l1'' ''pixel'' LeaseBound ''d1'' (Some 900000000000)"
  let ?r = "resultOf (reconcileBound (traced mem) ?le) demoAlive"
  have "case ?r of Inr res \<Rightarrow> sint (RequeueAfter res) = 200000000000 | Inl _ \<Rightarrow> False" by code_simp
  then obtain res where res: "?r = Inr res" "sint (RequeueAfter res) = 200000000000" by (cases ?r) auto
  then have "res \<noteq> emptyResult" by (auto simp: emptyResult_def)
  with bound_lease_delay_until_expiry [OF res(1)] res show ?thesis by blast
qed

end
