(* ===== verification/Device_Safety.thy ===== *)
theory Device_Safety
  imports Device_Controller Policy
begin

text \<open>
  What a reconcile of the Device controller is allowed to write: \<open>deviceMay\<close> states for each kind
  of write what the run must have read before, and \<open>device_run_obeys\<close> proves that every run obeys
  it, against every client.
\<close>

subsection \<open>What a run has seen\<close>

definition deviceRead :: "action list \<Rightarrow> Device option" where
  "deviceRead h = (case h of ActGetDevice _ (Inr d) # _ \<Rightarrow> Some d | _ \<Rightarrow> None)"

definition podSeen :: "action list \<Rightarrow> Device \<Rightarrow> pod \<Rightarrow> bool" where
  \<comment> \<open>the device's pod as the run read it, or as it was created by the run\<close>
  "podSeen h dev p \<longleftrightarrow> dsProviderType (devSpec dev) \<noteq> ProviderPhysical \<and>
     (ActGetPod (devNamespace dev, emulatorPodName dev) (Inr p) \<in> set h \<or> (\<exists>q. ActCreatePod q (Inr p) \<in> set h))"

definition podPhaseSeen :: "action list \<Rightarrow> Device \<Rightarrow> DevicePhase \<Rightarrow> bool" where
  "podPhaseSeen h dev ph \<longleftrightarrow>
     (\<exists>p. podSeen h dev p \<and> fst (computePhase p (devAnnotations dev annBooted = Some ''true'')) = ph)"

definition healthySeen :: "action list \<Rightarrow> Device \<Rightarrow> bool" where
  \<comment> \<open>an emulator whose pod was seen up, or a physical device whose provider reports an endpoint\<close>
  "healthySeen h dev \<longleftrightarrow> podPhaseSeen h dev DeviceReady \<or>
     dsProviderType (devSpec dev) = ProviderPhysical \<and> dsADBEndpoint (devSpec dev) \<noteq> []"

definition retryDue :: "action list \<Rightarrow> Device \<Rightarrow> time \<Rightarrow> bool" where
  "retryDue h dev now \<longleftrightarrow> ActClockNow now \<in> set h \<and>
     (isZeroTime (annTime dev annNextRetry) \<or> annTime dev annNextRetry \<le> now)"

definition recoveryAnnotations :: "int \<Rightarrow> time \<Rightarrow> duration \<Rightarrow> Device \<Rightarrow> string \<rightharpoonup> string" where
  "recoveryAnnotations off now backoff dev = (devAnnotations dev)
     (annFailures \<mapsto> itoa (sint (annInt dev annFailures + 1)),
      annNextRetry \<mapsto> formatRFC3339 off (timeAdd now backoff),
      annBooted := None)"

definition healthyAnnotations :: "Device \<Rightarrow> string \<rightharpoonup> string" where
  "healthyAnnotations dev = (devAnnotations dev)(annBooted \<mapsto> ''true'', annFailures := None, annNextRetry := None)"

subsection \<open>What may be written\<close>

definition mayPhase :: "action list \<Rightarrow> Device \<Rightarrow> Device \<Rightarrow> bool" where
  "mayPhase h dev x \<longleftrightarrow>
     (\<exists>d \<in> set (served h). devMeta x = devMeta d \<and> devSpec x = devSpec d \<and> devLeaseRef x = devLeaseRef d \<and>
        dtLastUsedTime (devStatus x) = dtLastUsedTime (devStatus d) \<and>
        dtUIEndpoint (devStatus x) = dtUIEndpoint (devStatus d)) \<and>
     (case devPhase x of
        DeviceReady \<Rightarrow> devLeaseRef x = [] \<and> healthySeen h dev
      | DeviceLeased \<Rightarrow> devLeaseRef x \<noteq> [] \<and> healthySeen h dev
      | DeviceFailed \<Rightarrow> ActGetDeviceClass (devClass dev) (Inl ErrNotFound) \<in> set h \<or> podPhaseSeen h dev DeviceFailed
      | DeviceProvisioning \<Rightarrow> podPhaseSeen h dev DeviceProvisioning \<or>
          dsProviderType (devSpec dev) = ProviderPhysical \<and> dsADBEndpoint (devSpec dev) = []
      | _ \<Rightarrow> False)"

definition mayAnnotate :: "'w kube \<Rightarrow> action list \<Rightarrow> Device \<Rightarrow> Device \<Rightarrow> bool" where
  "mayAnnotate k h dev x \<longleftrightarrow>
     (healthySeen h dev \<and> x = setAnnotations (healthyAnnotations dev) dev) \<or>
     (podPhaseSeen h dev DeviceFailed \<and>
        (\<exists>now backoff. retryDue h dev now \<and> backoffDuration (annInt dev annFailures) = Inr backoff \<and>
           x = setAnnotations (recoveryAnnotations (localOffset k) now backoff dev) dev))"

definition mayRecreate :: "action list \<Rightarrow> Device \<Rightarrow> objectKey \<Rightarrow> bool" where
  "mayRecreate h dev key \<longleftrightarrow> podPhaseSeen h dev DeviceFailed \<and> (\<exists>now. retryDue h dev now) \<and>
     (\<exists>p. podSeen h dev p \<and> mDeletionTimestamp (podMeta p) = None \<and> key = (mNamespace (podMeta p), mName (podMeta p)))"

definition mayBoot :: "'w kube \<Rightarrow> action list \<Rightarrow> Device \<Rightarrow> pod \<Rightarrow> bool" where
  "mayBoot k h dev p \<longleftrightarrow> dsProviderType (devSpec dev) \<noteq> ProviderPhysical \<and>
     ActGetPod (devNamespace dev, emulatorPodName dev) (Inl ErrNotFound) \<in> set h \<and>
     (\<exists>dc m. ActGetDeviceClass (devClass dev) (Inr dc) \<in> set h \<and>
        setControllerReference k ''Device'' (devMeta dev) (podMeta (buildPod dev dc)) = Inr m \<and>
        p = setPodMeta m (buildPod dev dc))"

definition mayExpose :: "'w kube \<Rightarrow> action list \<Rightarrow> Device \<Rightarrow> service \<Rightarrow> bool" where
  "mayExpose k h dev s \<longleftrightarrow> dsProviderType (devSpec dev) \<noteq> ProviderPhysical \<and>
     ActGetService (devNamespace dev, adbServiceName dev) (Inl ErrNotFound) \<in> set h \<and>
     (\<exists>m. setControllerReference k ''Device'' (devMeta dev) (svcMeta (adbService dev)) = Inr m \<and>
        s = setServiceMeta m (adbService dev))"

definition mayRepair :: "action list \<Rightarrow> Device \<Rightarrow> service \<Rightarrow> bool" where
  "mayRepair h dev s \<longleftrightarrow> dsProviderType (devSpec dev) \<noteq> ProviderPhysical \<and>
     (\<exists>s0. ActGetService (devNamespace dev, adbServiceName dev) (Inr s0) \<in> set h \<and> driftedService s0 = (s, True))"

definition mayRegister :: "'w kube \<Rightarrow> action list \<Rightarrow> Device \<Rightarrow> job \<Rightarrow> bool" where
  "mayRegister k h dev j \<longleftrightarrow> healthySeen h dev \<and>
     ActGetJob (devNamespace dev, devName dev @ ''-register'') (Inl ErrNotFound) \<in> set h \<and>
     (\<exists>pool stf adb m. dsPoolRef (devSpec dev) \<noteq> [] \<and>
        ActGetDevicePool (devNamespace dev, dsPoolRef (devSpec dev)) (Inr pool) \<in> set h \<and>
        dpsSTFRef (poolSpec pool) = Some stf \<and> stfADBHost stf \<noteq> [] \<and>
        adb = (if dsProviderType (devSpec dev) = ProviderPhysical then dsADBEndpoint (devSpec dev) else adbEndpointOf dev) \<and>
        setControllerReference k ''Device'' (devMeta dev) (jobMeta (registrationJob dev (stfADBHost stf) adb)) = Inr m \<and>
        j = setJobMeta m (registrationJob dev (stfADBHost stf) adb))"

definition deviceMay :: "'w kube \<Rightarrow> policy" where
  "deviceMay k h a =
     (isRead a \<or>
      (case deviceRead h of
         None \<Rightarrow> False
       | Some dev \<Rightarrow> \<not> devTerminating dev \<and>
           (case a of
              ActUpdateDeviceStatus x _ \<Rightarrow> mayPhase h dev x
            | ActUpdateDevice x _ \<Rightarrow> mayAnnotate k h dev x
            | ActDeletePod key _ \<Rightarrow> mayRecreate h dev key
            | ActCreatePod p _ \<Rightarrow> mayBoot k h dev p
            | ActCreateService s _ \<Rightarrow> mayExpose k h dev s
            | ActUpdateService s _ \<Rightarrow> mayRepair h dev s
            | ActCreateJob j _ \<Rightarrow> mayRegister k h dev j
            | _ \<Rightarrow> False)))"

interpretation dp: write_policy "deviceMay k" for k :: "'w kube"
  by unfold_locales (simp add: deviceMay_def)

text \<open>What a run has seen stays seen.\<close>

lemma deviceRead_mono: "prefix h h' \<Longrightarrow> deviceRead h = Some d \<Longrightarrow> deviceRead h' = Some d"
  by (auto simp: deviceRead_def prefix_def split: list.splits action.splits sum.splits)

lemma podSeen_mono: "prefix h h' \<Longrightarrow> podSeen h dev p \<Longrightarrow> podSeen h' dev p"
  unfolding podSeen_def by (blast dest: prefix_in)

lemma podPhaseSeen_mono: "prefix h h' \<Longrightarrow> podPhaseSeen h dev ph \<Longrightarrow> podPhaseSeen h' dev ph"
  unfolding podPhaseSeen_def by (blast dest: podSeen_mono)

lemma healthySeen_mono: "prefix h h' \<Longrightarrow> healthySeen h dev \<Longrightarrow> healthySeen h' dev"
  unfolding healthySeen_def by (blast dest: podPhaseSeen_mono)

lemma retryDue_mono: "prefix h h' \<Longrightarrow> retryDue h dev now \<Longrightarrow> retryDue h' dev now"
  unfolding retryDue_def by (blast dest: prefix_in)

lemmas dseen = deviceRead_mono podSeen_mono podPhaseSeen_mono healthySeen_mono retryDue_mono prefix_in served_prefix

subsection \<open>The phase writer\<close>

definition phased :: "Device \<Rightarrow> DevicePhase \<Rightarrow> string \<Rightarrow> condition list \<Rightarrow> Device" where
  \<comment> \<open>the device as \<open>setPhase\<close> writes it\<close>
  "phased device phase adb conds =
     device\<lparr>devStatus := (devStatus device)\<lparr>dtPhase := phase,
       dtADBEndpoint := (if adb = [] then dtADBEndpoint (devStatus device) else adb), dtConditions := conds\<rparr>\<rparr>"

lemma phased_simps [simp]:
  "devMeta (phased d ph adb cs) = devMeta d" "devSpec (phased d ph adb cs) = devSpec d"
  "devPhase (phased d ph adb cs) = ph" "devLeaseRef (phased d ph adb cs) = devLeaseRef d"
  "dtLastUsedTime (devStatus (phased d ph adb cs)) = dtLastUsedTime (devStatus d)"
  "dtUIEndpoint (devStatus (phased d ph adb cs)) = dtUIEndpoint (devStatus d)"
  "dtConditions (devStatus (phased d ph adb cs)) = cs"
  "dtADBEndpoint (devStatus (phased d ph adb cs)) = (if adb = [] then dtADBEndpoint (devStatus d) else adb)"
  by (simp_all add: phased_def)

lemma setPhase_phased:
  "setPhase k device phase adb reason msg = do {
     (condChanged, conds) \<leftarrow> setStatusCondition k (dtConditions (devStatus device)) (readyCondition device phase reason msg);
     if devPhase device = phase \<and> (adb = [] \<or> dtADBEndpoint (devStatus device) = adb) \<and> \<not> condChanged
     then ret (Inr emptyResult)
     else tryE (apiUpdateDeviceStatus k (phased device phase adb conds)) (\<lambda>_. ret (Inr emptyResult)) }"
proof -
  have same: "st\<lparr>dtPhase := phase, dtADBEndpoint := dtADBEndpoint st, dtConditions := cs\<rparr> = st\<lparr>dtPhase := phase, dtConditions := cs\<rparr>" for st cs
    by (cases st) simp
  show ?thesis
    by (auto simp: setPhase_def phased_def Let_def same intro!: arg_cong2 [where f = State_Monad.bind] ext)
qed

lemma within_setPhase:
  assumes "obeys (deviceMay k) l" and "deviceRead l = Some dev" and "\<not> devTerminating dev"
    and "\<And>conds. mayPhase l dev (phased d ph adb conds)"
  shows "within (deviceMay k) l (setPhase (traced k) d ph adb reason msg) (\<lambda>_ _. True)"
proof -
  have "deviceMay k l (ActUpdateDeviceStatus (phased d ph adb conds) r)" for conds r
    using assms by (simp add: deviceMay_def)
  then show ?thesis
    unfolding setPhase_phased
    using assms(1)
    by (auto intro!: within_bind [where I = "\<lambda>_ l'. l' = l"] within_tryE [where I = "\<lambda>_ _. True"] within_intro)
qed

lemma mayPhaseI:
  assumes "d \<in> set (served l)"
    and "case ph of
        DeviceReady \<Rightarrow> devLeaseRef d = [] \<and> healthySeen l dev
      | DeviceLeased \<Rightarrow> devLeaseRef d \<noteq> [] \<and> healthySeen l dev
      | DeviceFailed \<Rightarrow> ActGetDeviceClass (devClass dev) (Inl ErrNotFound) \<in> set l \<or> podPhaseSeen l dev DeviceFailed
      | DeviceProvisioning \<Rightarrow> podPhaseSeen l dev DeviceProvisioning \<or>
          dsProviderType (devSpec dev) = ProviderPhysical \<and> dsADBEndpoint (devSpec dev) = []
      | _ \<Rightarrow> False"
  shows "mayPhase l dev (phased d ph adb conds)"
  using assms unfolding mayPhase_def phased_simps by blast

subsection \<open>Every run obeys the policy\<close>

lemma markHealthy_annotations:
  "markHealthy k dev =
     (if devAnnotations dev = healthyAnnotations dev then ret (Inr dev)
      else apiUpdateDevice k (setAnnotations (healthyAnnotations dev) dev))"
proof -
  have keys: "annBooted \<noteq> annFailures" "annBooted \<noteq> annNextRetry" "annFailures \<noteq> annNextRetry"
    by (simp_all add: annBooted_def annFailures_def annNextRetry_def)
  have same: "setAnnotations (devAnnotations dev) dev = dev"
    by (simp add: setAnnotations_def)
  have iff: "devAnnotations dev = healthyAnnotations dev \<longleftrightarrow>
      devAnnotations dev annBooted = Some ''true'' \<and> devAnnotations dev annFailures = None \<and> devAnnotations dev annNextRetry = None"
  proof
    assume "devAnnotations dev = healthyAnnotations dev"
    then have "devAnnotations dev x = healthyAnnotations dev x" for x by (rule fun_cong)
    from this [of annBooted] this [of annFailures] this [of annNextRetry] keys
    show "devAnnotations dev annBooted = Some ''true'' \<and> devAnnotations dev annFailures = None \<and> devAnnotations dev annNextRetry = None"
      by (simp add: healthyAnnotations_def)
  qed (simp add: healthyAnnotations_def fun_upd_idem_iff fun_upd_idem)
  show ?thesis
    using keys unfolding markHealthy_def Let_def iff
    by (simp add: clearAnnotation_def healthyAnnotations_def same fun_upd_idem fun_upd_idem_iff)
qed

lemma within_markHealthy:
  assumes "obeys (deviceMay k) l" and "deviceRead l = Some dev" and "\<not> devTerminating dev" and "healthySeen l dev"
    and "dev \<in> set (served l)"
  shows "within (deviceMay k) l (markHealthy (traced k) dev) (\<lambda>r l'. \<forall>d. r = Inr d \<longrightarrow> d \<in> set (served l'))"
proof -
  have "deviceMay k l (ActUpdateDevice (setAnnotations (healthyAnnotations dev) dev) r)" for r
    using assms by (simp add: deviceMay_def mayAnnotate_def)
  then show ?thesis
    unfolding markHealthy_annotations using assms(1,5) by (auto intro!: within_intro)
qed

definition bookRecovery :: "'w kube \<Rightarrow> Device \<Rightarrow> time \<Rightarrow> ('w, goError + ctrlResult \<times> Device) state" where
  \<comment> \<open>the last part of \<open>recoverFailed\<close>: the attempt is counted and the next one scheduled\<close>
  "bookRecovery k dev now = tryE (ret (backoffDuration (annInt dev annFailures))) (\<lambda>backoff.
     tryE (apiUpdateDevice k (setAnnotations (recoveryAnnotations (localOffset k) now backoff dev) dev))
       (\<lambda>device'. ret (Inr (requeueAfter backoff, device'))))"

lemma recoverFailed_pod:
  "recoverFailed k dev (Some p) = do {
     now \<leftarrow> clockNow k;
     (if \<not> isZeroTime (annTime dev annNextRetry) \<and> now < annTime dev annNextRetry
      then ret (Inr (requeueAfter (timeSub (annTime dev annNextRetry) now), dev))
      else tryE (if mName (podMeta p) \<noteq> [] \<and> mDeletionTimestamp (podMeta p) = None
                 then do {
                   r \<leftarrow> apiDeletePod k (mNamespace (podMeta p), mName (podMeta p));
                   (case r of
                      Inl ErrNotFound \<Rightarrow> ret (Inr ())
                    | Inl e \<Rightarrow> ret (Inl e)
                    | Inr _ \<Rightarrow> ret (Inr ()))
                 }
                 else ret (Inr ()))
             (\<lambda>_. bookRecovery k dev now)) }"
  unfolding recoverFailed_def bookRecovery_def recoveryAnnotations_def Let_def option.case by (rule refl)

lemma within_bookRecovery:
  assumes l: "obeys (deviceMay k) l" and dev: "deviceRead l = Some dev" "\<not> devTerminating dev"
    and due: "retryDue l dev now" and failed: "podPhaseSeen l dev DeviceFailed"
  shows "within (deviceMay k) l (bookRecovery (traced k) dev now)
    (\<lambda>r l'. \<forall>res d. r = Inr (res, d) \<longrightarrow> d \<in> set (served l'))"
proof (cases "backoffDuration (annInt dev annFailures)")
  case (Inl e)
  then show ?thesis using l by (auto simp: bookRecovery_def tryE_def intro!: within_bind [OF within_ret [where I = "\<lambda>_ _. True"]] within_intro split: sum.split)
next
  case (Inr b)
  let ?x = "setAnnotations (recoveryAnnotations (localOffset k) now b dev) dev"
  have "mayAnnotate k l dev ?x" unfolding mayAnnotate_def using due failed Inr by blast
  then have "deviceMay k l (ActUpdateDevice ?x r)" for r using dev by (simp add: deviceMay_def)
  then have "within (deviceMay k) l (apiUpdateDevice (traced k) ?x) (\<lambda>r l'. \<forall>d. r = Inr d \<longrightarrow> d \<in> set (served l'))"
    using l by (auto intro!: within_intro)
  then have "within (deviceMay k) l (tryE (apiUpdateDevice (traced k) ?x) (\<lambda>device'. ret (Inr (requeueAfter b, device'))))
      (\<lambda>r l'. \<forall>res d. r = Inr (res, d) \<longrightarrow> d \<in> set (served l'))"
    by (rule within_tryE) (auto intro!: within_intro)
  moreover have "bookRecovery (traced k) dev now = tryE (apiUpdateDevice (traced k) ?x) (\<lambda>device'. ret (Inr (requeueAfter b, device')))"
    by (simp add: bookRecovery_def Inr tryE_def)
  ultimately show ?thesis by simp
qed

lemma within_recoverFailed:
  assumes l: "obeys (deviceMay k) l" and dev: "deviceRead l = Some dev" "\<not> devTerminating dev" "dev \<in> set (served l)"
    and p: "podSeen l dev p" and failed: "podPhaseSeen l dev DeviceFailed"
  shows "within (deviceMay k) l (recoverFailed (traced k) dev (Some p))
    (\<lambda>r l'. \<forall>res d. r = Inr (res, d) \<longrightarrow> d \<in> set (served l'))"
  unfolding recoverFailed_pod traced_simps
proof (rule within_bind [OF dp.within_readCall [OF l]], simp, goal_cases)
  case (1 now l1)
  have l1: "deviceRead l1 = Some dev" "dev \<in> set (served l1)" "podSeen l1 dev p" "podPhaseSeen l1 dev DeviceFailed"
    using dseen [OF 1(2)] dev p failed by blast+
  show ?case
  proof (cases "\<not> isZeroTime (annTime dev annNextRetry) \<and> now < annTime dev annNextRetry")
    case True
    then show ?thesis using 1(1) l1 by (auto intro!: within_intro)
  next
    case False
    then have due: "retryDue l1 dev now" using 1(3) by (auto simp: retryDue_def)
    have del: "deviceMay k l1 (ActDeletePod (mNamespace (podMeta p), mName (podMeta p)) r)"
      if "mDeletionTimestamp (podMeta p) = None" for r
    proof -
      have "mayRecreate l1 dev (mNamespace (podMeta p), mName (podMeta p))"
        using l1 due that unfolding mayRecreate_def by blast
      then show ?thesis using l1 dev(2) by (simp add: deviceMay_def)
    qed
    have "within (deviceMay k) l1 (if mName (podMeta p) \<noteq> [] \<and> mDeletionTimestamp (podMeta p) = None
         then do {
           r \<leftarrow> logged (ActDeletePod (mNamespace (podMeta p), mName (podMeta p))) (apiDeletePod k (mNamespace (podMeta p), mName (podMeta p)));
           (case r of
              Inl ErrNotFound \<Rightarrow> ret (Inr ())
            | Inl e \<Rightarrow> ret (Inl e)
            | Inr _ \<Rightarrow> ret (Inr ()))
         }
         else ret (Inr ())) (\<lambda>_ _. True)"
      using 1(1) del by (auto intro!: within_bind [where I = "\<lambda>_ _. True"] within_intro split: sum.split goError.split)
    then have "within (deviceMay k) l1 (tryE (if mName (podMeta p) \<noteq> [] \<and> mDeletionTimestamp (podMeta p) = None
         then do {
           r \<leftarrow> logged (ActDeletePod (mNamespace (podMeta p), mName (podMeta p))) (apiDeletePod k (mNamespace (podMeta p), mName (podMeta p)));
           (case r of
              Inl ErrNotFound \<Rightarrow> ret (Inr ())
            | Inl e \<Rightarrow> ret (Inl e)
            | Inr _ \<Rightarrow> ret (Inr ()))
         }
         else ret (Inr ())) (\<lambda>_. bookRecovery (traced k) dev now)) (\<lambda>r l'. \<forall>res d. r = Inr (res, d) \<longrightarrow> d \<in> set (served l'))"
    proof (rule within_tryE, goal_cases)
      case (2 x l2)
      then show ?case using dseen [OF 2(2)] l1 dev(2) due by (intro within_bookRecovery) auto
    qed simp
    then show ?thesis by (simp only: if_not_P [OF False])
  qed
qed

lemma within_owned:
  \<comment> \<open>setting the owner and creating the object, the shape shared by Job, Service and Pod\<close>
  assumes "obeys A l" and "\<And>m r. sm = Inr m \<Longrightarrow> A l (C (f m) r)"
    and "\<And>m r. sm = Inr m \<Longrightarrow> I (Inr r) (l @ [C (f m) (Inr r)])" and "\<And>e l'. I (Inl e) l'"
  shows "within A l (tryE (ret sm) (\<lambda>m. logged (C (f m)) (op (f m)))) I"
proof (cases sm)
  case (Inl e)
  then show ?thesis using assms by (auto simp: tryE_def intro: within_ret)
next
  case (Inr m)
  have "I r (l @ [C (f m) r])" for r using assms(3,4) Inr by (cases r) auto
  then show ?thesis using assms(1,2) Inr by (auto simp: tryE_def intro: within_call)
qed

lemma tryE_unit: "tryE m (\<lambda>x. tryE (n x) (\<lambda>_. ret (Inr ()))) = tryE (tryE m n) (\<lambda>_. ret (Inr ()))"
  unfolding tryE_def
  by (simp add: State_Monad.bind_assoc) (auto intro!: arg_cong2 [where f = State_Monad.bind] ext split: sum.split)

lemma within_ensureService:
  assumes l: "obeys (deviceMay k) l" and dev: "deviceRead l = Some dev" "\<not> devTerminating dev"
    and em: "dsProviderType (devSpec dev) \<noteq> ProviderPhysical"
  shows "within (deviceMay k) l (ensureService (traced k) dev) (\<lambda>_ _. True)"
  unfolding ensureService_def Let_def traced_simps
proof (rule within_bind [OF dp.within_readCall [OF l]], simp, goal_cases)
  case (1 r l1)
  have l1: "deviceRead l1 = Some dev" using dseen [OF 1(2)] dev by blast
  show ?case
  proof (cases r)
    case (Inr s0)
    have "mayRepair l1 dev s" if "driftedService s0 = (s, True)" for s
      using em 1(3) Inr that unfolding mayRepair_def by auto
    then have "deviceMay k l1 (ActUpdateService s r')" if "driftedService s0 = (s, True)" for s r'
      using that l1 dev(2) by (simp add: deviceMay_def)
    then show ?thesis using 1(1) Inr
      by (auto intro!: within_tryE [where I = "\<lambda>_ _. True"] within_intro split: prod.split)
  next
    case (Inl e)
    have "deviceMay k l1 (ActCreateService (setServiceMeta m (adbService dev)) r')"
      if "setControllerReference k ''Device'' (devMeta dev) (svcMeta (adbService dev)) = Inr m" "e = ErrNotFound" for m r'
      using l1 dev(2) em 1(3) Inl that by (auto simp: deviceMay_def mayExpose_def)
    then have "within (deviceMay k) l1 (tryE (tryE (ret (setControllerReference k ''Device'' (devMeta dev) (svcMeta (adbService dev))))
        (\<lambda>m. logged (ActCreateService (setServiceMeta m (adbService dev))) (apiCreateService k (setServiceMeta m (adbService dev)))))
        (\<lambda>_. ret (Inr ()))) (\<lambda>_ _. True)" if "e = ErrNotFound"
      using that 1(1)
      by (intro within_tryE [where I = "\<lambda>_ _. True"] within_owned [where C = ActCreateService and op = "apiCreateService k" and f = "\<lambda>m. setServiceMeta m (adbService dev)"])
        (auto intro: within_ret)
    then show ?thesis using 1(1) Inl by (auto simp: tryE_unit intro!: within_intro split: goError.split)
  qed
qed

lemma within_ensurePod:
  assumes l: "obeys (deviceMay k) l" and dev: "deviceRead l = Some dev" "\<not> devTerminating dev"
    and em: "dsProviderType (devSpec dev) \<noteq> ProviderPhysical" and dc: "ActGetDeviceClass (devClass dev) (Inr dc) \<in> set l"
  shows "within (deviceMay k) l (ensurePod (traced k) dev dc) (\<lambda>r l'. \<forall>p. r = Inr p \<longrightarrow> podSeen l' dev p)"
  unfolding ensurePod_def Let_def traced_simps
proof (rule within_bind [OF dp.within_readCall [OF l]], simp, goal_cases)
  case (1 r l1)
  have l1: "deviceRead l1 = Some dev" "ActGetDeviceClass (devClass dev) (Inr dc) \<in> set l1" using dseen [OF 1(2)] dev dc by blast+
  show ?case
  proof (cases r)
    case (Inr p)
    then have "podSeen l1 dev p" using 1(3) em by (simp add: podSeen_def)
    then show ?thesis using 1(1) Inr by (auto intro!: within_intro)
  next
    case (Inl e)
    have "deviceMay k l1 (ActCreatePod (setPodMeta m (buildPod dev dc)) r')"
      if "setControllerReference k ''Device'' (devMeta dev) (podMeta (buildPod dev dc)) = Inr m" "e = ErrNotFound" for m r'
    proof -
      have "mayBoot k l1 dev (setPodMeta m (buildPod dev dc))"
        using em l1(2) 1(3) Inl that unfolding mayBoot_def by auto
      then show ?thesis using l1 dev(2) by (simp add: deviceMay_def)
    qed
    then have "within (deviceMay k) l1 (tryE (ret (setControllerReference k ''Device'' (devMeta dev) (podMeta (buildPod dev dc))))
        (\<lambda>m. logged (ActCreatePod (setPodMeta m (buildPod dev dc))) (apiCreatePod k (setPodMeta m (buildPod dev dc)))))
        (\<lambda>r l'. \<forall>p. r = Inr p \<longrightarrow> podSeen l' dev p)" if "e = ErrNotFound"
      using that 1(1) em
      by (intro within_owned [where C = ActCreatePod and op = "apiCreatePod k" and f = "\<lambda>m. setPodMeta m (buildPod dev dc)"])
        (auto simp: podSeen_def)
    then show ?thesis using 1(1) Inl by (auto intro!: within_intro split: goError.split)
  qed
qed

lemma within_ensureRegistration:
  assumes l: "obeys (deviceMay k) l" and dev: "deviceRead l = Some dev" "\<not> devTerminating dev" and h: "healthySeen l dev"
    and adb: "adb = (if dsProviderType (devSpec dev) = ProviderPhysical then dsADBEndpoint (devSpec dev) else adbEndpointOf dev)"
  shows "within (deviceMay k) l (ensureRegistration (traced k) dev adb) (\<lambda>_ _. True)"
proof (cases "dsPoolRef (devSpec dev) = []")
  case True
  then show ?thesis using l by (auto simp: ensureRegistration_def intro!: within_intro)
next
  case False
  have reg: "within (deviceMay k) l2 (tryE (tryE (ret (setControllerReference k ''Device'' (devMeta dev) (jobMeta (registrationJob dev (stfADBHost stf) adb))))
      (\<lambda>m. logged (ActCreateJob (setJobMeta m (registrationJob dev (stfADBHost stf) adb))) (apiCreateJob k (setJobMeta m (registrationJob dev (stfADBHost stf) adb)))))
      (\<lambda>_. ret (Inr ()))) (\<lambda>_ _. True)"
    if "obeys (deviceMay k) l2" "prefix l l2" "ActGetDevicePool (devNamespace dev, dsPoolRef (devSpec dev)) (Inr pool) \<in> set l2"
      "ActGetJob (devNamespace dev, devName dev @ ''-register'') (Inl ErrNotFound) \<in> set l2"
      "dpsSTFRef (poolSpec pool) = Some stf" "stfADBHost stf \<noteq> []" for l2 pool stf
  proof -
    note given = that
    have "mayRegister k l2 dev (setJobMeta m (registrationJob dev (stfADBHost stf) adb))"
      if "setControllerReference k ''Device'' (devMeta dev) (jobMeta (registrationJob dev (stfADBHost stf) adb)) = Inr m" for m
      using healthySeen_mono [OF given(2) h] False given(3-6) adb that
      unfolding mayRegister_def by blast
    moreover have "deviceRead l2 = Some dev" using dseen [OF that(2)] dev by blast
    ultimately have "deviceMay k l2 (ActCreateJob (setJobMeta m (registrationJob dev (stfADBHost stf) adb)) r)"
      if "setControllerReference k ''Device'' (devMeta dev) (jobMeta (registrationJob dev (stfADBHost stf) adb)) = Inr m" for m r
      using that dev(2) by (simp add: deviceMay_def)
    then show ?thesis using that(1)
      by (intro within_tryE [where I = "\<lambda>_ _. True"] within_owned [where C = ActCreateJob and op = "apiCreateJob k" and f = "\<lambda>m. setJobMeta m (registrationJob dev (stfADBHost stf) adb)"])
        (auto intro: within_ret)
  qed
  show ?thesis unfolding ensureRegistration_def Let_def traced_simps if_not_P [OF False]
  proof (rule within_bind [OF dp.within_readCall [OF l]], simp, goal_cases)
    case (1 rp l1)
    show ?case
    proof (cases rp)
      case (Inl e)
      then show ?thesis using 1(1) by (auto intro!: within_intro split: goError.split)
    next
      case (Inr pool)
      have "within (deviceMay k) l1 (logged (ActGetJob (devNamespace dev, devName dev @ ''-register'')) m \<bind>
          (\<lambda>rj. case rj of
                       Inr _ \<Rightarrow> ret (Inr ())
                     | Inl ErrNotFound \<Rightarrow>
                          (tryE (ret (setControllerReference k ''Device'' (devMeta dev) (jobMeta (registrationJob dev (stfADBHost stf) adb))))
                            (\<lambda>m. tryE (logged (ActCreateJob (setJobMeta m (registrationJob dev (stfADBHost stf) adb))) (apiCreateJob k (setJobMeta m (registrationJob dev (stfADBHost stf) adb)))) (\<lambda>_. ret (Inr ()))))
                     | Inl e \<Rightarrow> ret (Inl e))) (\<lambda>_ _. True)"
        if "dpsSTFRef (poolSpec pool) = Some stf" "stfADBHost stf \<noteq> []" for stf m
      proof (rule within_bind [OF dp.within_readCall [OF 1(1)]], simp, goal_cases)
        case (1 rj l2)
        then show ?case using reg [OF _ _ _ _ that] \<open>prefix l l1\<close> \<open>l1 = _\<close> Inr
          by (auto simp: tryE_unit intro!: within_intro split: sum.split goError.split)
      qed
      then show ?thesis using 1(1) Inr by (auto intro!: within_intro split: option.split)
    qed
  qed
qed

lemma within_healthy:
  \<comment> \<open>registration, the booted mark and the phase, the tail shared by emulators and physical devices\<close>
  assumes l: "obeys (deviceMay k) l" and dev: "deviceRead l = Some dev" "\<not> devTerminating dev" "dev \<in> set (served l)"
    and h: "healthySeen l dev"
    and adb: "adb = (if dsProviderType (devSpec dev) = ProviderPhysical then dsADBEndpoint (devSpec dev) else adbEndpointOf dev)"
  shows "within (deviceMay k) l
     (tryE (ensureRegistration (traced k) dev adb) (\<lambda>_.
      tryE (markHealthy (traced k) dev) (\<lambda>device'.
        (let (phase, reason, msg) = boundPhase device' (DeviceReady, why, descr)
         in setPhase (traced k) device' phase adb reason msg)))) (\<lambda>_ _. True)"
proof (rule within_tryE [OF within_ensureRegistration [OF l dev(1,2) h adb]], simp, goal_cases)
  case (1 u l1)
  have l1: "deviceRead l1 = Some dev" "dev \<in> set (served l1)" "healthySeen l1 dev" using dseen [OF 1(2)] dev h by blast+
  show ?case
  proof (rule within_tryE [OF within_markHealthy [OF 1(1) l1(1) dev(2) l1(3,2)]], simp, goal_cases)
    case (1 d l2)
    have l2: "deviceRead l2 = Some dev" "healthySeen l2 dev" "d \<in> set (served l2)" using dseen [OF 1(2)] l1 1(3) by blast+
    then show ?case using 1(1) dev(2)
      by (auto simp: boundPhase_def intro!: within_setPhase mayPhaseI)
  qed
qed

lemma within_reconcileEmulator:
  assumes l: "obeys (deviceMay k) l" and dev: "deviceRead l = Some dev" "\<not> devTerminating dev" "dev \<in> set (served l)"
    and em: "dsProviderType (devSpec dev) \<noteq> ProviderPhysical" and p: "podSeen l dev p"
  shows "within (deviceMay k) l (reconcileEmulator (traced k) dev p) (\<lambda>_ _. True)"
proof -
  obtain ph why descr where ph: "computePhase p (devAnnotations dev annBooted = Some ''true'') = (ph, why, descr)"
    by (cases "computePhase p (devAnnotations dev annBooted = Some ''true'')") auto
  then have seen: "podPhaseSeen l dev ph" using p unfolding podPhaseSeen_def by force
  have range: "ph \<in> {DeviceFailed, DeviceReady, DeviceProvisioning}"
    using ph by (auto simp: computePhase_def Let_def split: if_splits)
  consider (failed) "ph = DeviceFailed" | (up) "ph = DeviceReady" | (booting) "ph = DeviceProvisioning" using range by blast
  then show ?thesis
  proof cases
    case failed
    have "within (deviceMay k) l (tryE (recoverFailed (traced k) dev (Some p)) (\<lambda>(res, device').
             tryE (setPhase (traced k) device' DeviceFailed (adbEndpointOf dev) why descr) (\<lambda>_. ret (Inr res)))) (\<lambda>_ _. True)"
    proof (rule within_tryE [OF within_recoverFailed [OF l dev p]], goal_cases)
      case (3 x l1)
      then obtain res d where x: "x = (res, d)" "d \<in> set (served l1)" by (cases x) auto
      have l1: "deviceRead l1 = Some dev" "podPhaseSeen l1 dev DeviceFailed"
        using dseen [OF 3(2)] dev seen failed by blast+
      show ?case unfolding x(1) prod.case
        by (rule within_tryE [OF within_setPhase [OF 3(1) l1(1) dev(2)]])
          (use x(2) l1(2) in \<open>auto intro!: mayPhaseI within_intro\<close>)
    qed (use seen failed in auto)
    then show ?thesis using failed by (simp add: reconcileEmulator_def ph)
  next
    case up
    then have "healthySeen l dev" using seen by (simp add: healthySeen_def)
    then show ?thesis
      using up em within_healthy [OF l dev, where why = why and descr = descr] by (simp add: reconcileEmulator_def ph Let_def)
  next
    case booting
    then show ?thesis using l dev seen
      by (auto simp: reconcileEmulator_def ph intro!: within_setPhase mayPhaseI)
  qed
qed

lemma within_reconcilePhysical:
  assumes l: "obeys (deviceMay k) l" and dev: "deviceRead l = Some dev" "\<not> devTerminating dev" "dev \<in> set (served l)"
    and ph: "dsProviderType (devSpec dev) = ProviderPhysical"
  shows "within (deviceMay k) l (reconcilePhysical (traced k) dev) (\<lambda>_ _. True)"
proof (cases "dsADBEndpoint (devSpec dev) = []")
  case True
  then show ?thesis using l dev ph
    by (auto simp: reconcilePhysical_def intro!: within_setPhase mayPhaseI)
next
  case False
  then have "healthySeen l dev" using ph by (simp add: healthySeen_def)
  then show ?thesis using False ph within_healthy [OF l dev] by (simp add: reconcilePhysical_def Let_def)
qed

lemma device_run_obeys: "within (deviceMay k) [] (deviceReconcile (traced k) key) (\<lambda>_ _. True)"
  unfolding deviceReconcile_def traced_simps
proof (rule within_bind [OF dp.within_readCall], simp, simp, goal_cases)
  case (1 r l)
  show ?case
  proof (cases r)
    case (Inl e)
    then show ?thesis using 1 by (auto intro!: within_intro split: goError.split)
  next
    case (Inr dev)
    have l: "deviceRead l = Some dev" "dev \<in> set (served l)" using 1(3) Inr by (simp_all add: deviceRead_def)
    show ?thesis
    proof (cases "devTerminating dev")
      case True
      then show ?thesis using 1 Inr by (auto intro!: within_intro)
    next
      case False
      have "within (deviceMay k) l (State_Monad.bind (logged (ActGetDeviceClass (devClass dev)) (apiGetDeviceClass k (devClass dev))) (\<lambda>rc.
            (case rc of
               Inl ErrNotFound \<Rightarrow>
                 setPhase (traced k) dev DeviceFailed [] ''DeviceClassNotFound''
                   (''DeviceClass '' @ goQuote (devClass dev) @ '' does not exist'')
             | Inl e \<Rightarrow> ret (Inl e)
             | Inr dc \<Rightarrow>
                 if dsProviderType (devSpec dev) = ProviderPhysical then reconcilePhysical (traced k) dev
                 else tryE (ensureService (traced k) dev) (\<lambda>_.
                      tryE (ensurePod (traced k) dev dc) (\<lambda>p. reconcileEmulator (traced k) dev p))))) (\<lambda>_ _. True)"
      proof (rule within_bind [OF dp.within_readCall [OF 1(1)]], simp, goal_cases)
        case (1 rc l1)
        have l1: "deviceRead l1 = Some dev" "dev \<in> set (served l1)" using dseen [OF 1(2)] l by blast+
        show ?case
        proof (cases rc)
          case (Inl e)
          then show ?thesis using 1 l1 False
            by (auto intro!: within_intro within_setPhase mayPhaseI split: goError.split)
        next
          case (Inr dc)
          have em: "within (deviceMay k) l1 (tryE (ensureService (traced k) dev) (\<lambda>_.
                      tryE (ensurePod (traced k) dev dc) (\<lambda>p. reconcileEmulator (traced k) dev p))) (\<lambda>_ _. True)"
            if em: "dsProviderType (devSpec dev) \<noteq> ProviderPhysical"
          proof (rule within_tryE [OF within_ensureService [OF 1(1) l1(1) False em]], simp, goal_cases)
            case (1 u l2)
            have l2: "deviceRead l2 = Some dev" "ActGetDeviceClass (devClass dev) (Inr dc) \<in> set l2" "dev \<in> set (served l2)"
              using dseen [OF 1(2)] l1 \<open>l1 = _\<close> Inr by auto
            show ?case
            proof (rule within_tryE [OF within_ensurePod [OF 1(1) l2(1) False em l2(2)]], simp, goal_cases)
              case (1 p l3)
              then show ?case using dseen [OF 1(2)] l2 False em by (intro within_reconcileEmulator) auto
            qed
          qed
          then show ?thesis using Inr within_reconcilePhysical [OF 1(1) l1(1) False l1(2)] by simp
        qed
      qed
      then show ?thesis unfolding Inr sum.case if_not_P [OF False] .
    qed
  qed
qed

end
