(* ===== verification/Device_Properties.thy ===== *)
theory Device_Properties
  imports Device_Safety Demo
begin

text \<open>
  The properties of the Device controller: the backoff arithmetic and its bookkeeping in
  annotations, the decision of the phase, the wiring of Pod and Service, and what its runs may
  write, read off the policy they obey.
\<close>

subsection \<open>Backoff and bookkeeping\<close>

lemma dvd_sint_of_int:
  fixes i :: int
  assumes "2 ^ 39 dvd i"
  shows "2 ^ 39 dvd sint (word_of_int i :: int64)"
proof -
  let ?s = "sint (word_of_int i :: int64)"
  have "(word_of_int ?s :: int64) = word_of_int i" by simp
  then have "?s mod 2 ^ 64 = i mod 2 ^ 64" by (simp only: word_of_int_eq_iff take_bit_eq_mod) simp
  moreover have "(2 :: int) ^ 39 dvd 2 ^ 64" by (rule le_imp_power_dvd) simp
  ultimately show ?thesis using assms by (metis dvd_mod_iff)
qed

lemma push_bit_base: "push_bit n recreateBackoffBase = (word_of_int (10000000000 * 2 ^ n) :: int64)"
proof -
  have base: "recreateBackoffBase = word_of_int 10000000000" by (simp add: recreateBackoffBase_def time_Second_def)
  have pow: "(2 :: int64) ^ n = word_of_int (2 ^ n)" by simp
  show ?thesis unfolding push_bit_eq_mult base pow by (rule wi_hom_mult)
qed

lemma sint_recreateMax: "sint recreateBackoffMax = 300000000000"
  by (simp add: recreateBackoffMax_def time_Second_def)

lemma capped_shift:
  "(if sint (push_bit n recreateBackoffBase) \<le> 0 \<or> 300000000000 < sint (push_bit n recreateBackoffBase)
    then word_of_int 300000000000 else push_bit n recreateBackoffBase) = (word_of_int (min (10000000000 * 2 ^ n) 300000000000) :: int64)"
proof (cases "n < 29")
  case True
  then have "(2 :: int) ^ n \<le> 2 ^ 28" by (intro power_increasing) auto
  moreover have "(1 :: int) \<le> 2 ^ n" by simp
  moreover have "- (2 ^ 63) \<le> 10000000000 * x \<and> 10000000000 * x < 2 ^ 63" if "x \<le> 2 ^ 28" "1 \<le> x" for x :: int
    using that by simp
  ultimately have s: "sint (push_bit n recreateBackoffBase) = 10000000000 * 2 ^ n"
    unfolding push_bit_base by (intro sint64_of_int) blast+
  show ?thesis
    by (simp only: s) (simp add: push_bit_base min_def)
next
  case False
  have big: "(300000000000 :: int) < 10000000000 * 2 ^ n"
  proof -
    have "(2 :: int) ^ 29 \<le> 2 ^ n" using False by (intro power_increasing) auto
    then show ?thesis by simp
  qed
  have "(2 :: int) ^ 39 dvd 10000000000 * 2 ^ n"
  proof -
    have "(2 :: int) ^ 10 dvd 10000000000" by (rule dvdI [of _ _ 9765625]) simp
    moreover have "(2 :: int) ^ 29 dvd 2 ^ n" using False by (intro le_imp_power_dvd) simp
    ultimately have "(2 :: int) ^ 10 * 2 ^ 29 dvd 10000000000 * 2 ^ n" by (rule mult_dvd_mono)
    then show ?thesis by simp
  qed
  then have "2 ^ 39 dvd sint (push_bit n recreateBackoffBase)" unfolding push_bit_base by (rule dvd_sint_of_int)
  then have "sint (push_bit n recreateBackoffBase) \<le> 0 \<or> 300000000000 < sint (push_bit n recreateBackoffBase)"
    using zdvd_imp_le [of "2 ^ 39" "sint (push_bit n recreateBackoffBase)"] by (simp, linarith)
  then show ?thesis using big by (simp add: min_def)
qed

text \<open>C23: The delay before a failed device is recreated is the base of ten seconds doubled per
  consecutive failure and capped at five minutes, for every non-negative count: a shift that
  overflows or loses every bit is caught by the cap. A negative count panics.\<close>

theorem backoffDuration_doubles_to_cap:
  "backoffDuration n = (if sint n < 0 then Inl (Panicked ''runtime error: negative shift amount'')
     else Inr (word_of_int (min (10000000000 * 2 ^ nat (sint n)) 300000000000)))"
proof -
  have m: "recreateBackoffMax = word_of_int 300000000000" by (simp add: recreateBackoffMax_def time_Second_def)
  show ?thesis
  proof (cases "sint n < 0")
    case False
    have "backoffDuration n = Inr (if sint (push_bit (nat (sint n)) recreateBackoffBase) \<le> 0 \<or>
        300000000000 < sint (push_bit (nat (sint n)) recreateBackoffBase)
      then word_of_int 300000000000 else push_bit (nat (sint n)) recreateBackoffBase)"
      unfolding backoffDuration_def Let_def sint_recreateMax if_not_P [OF False]
      unfolding m by (simp only: if_distrib [of Inr])
    then show ?thesis unfolding capped_shift if_not_P [OF False] .
  qed (simp add: backoffDuration_def)
qed

subsection \<open>What a run may write\<close>

lemma device_write:
  assumes "traceOf (deviceReconcile (traced k) key) w = h @ a # t" and "\<not> isRead a"
  obtains dev where "deviceRead h = Some dev" and "deviceRead (traceOf (deviceReconcile (traced k) key) w) = Some dev"
    and "\<not> devTerminating dev"
    and "case a of
              ActUpdateDeviceStatus x _ \<Rightarrow> mayPhase h dev x
            | ActUpdateDevice x _ \<Rightarrow> mayAnnotate k h dev x
            | ActDeletePod key _ \<Rightarrow> mayRecreate h dev key
            | ActCreatePod p _ \<Rightarrow> mayBoot k h dev p
            | ActCreateService s _ \<Rightarrow> mayExpose k h dev s
            | ActUpdateService s _ \<Rightarrow> mayRepair h dev s
            | ActCreateJob j _ \<Rightarrow> mayRegister k h dev j
            | _ \<Rightarrow> False"
proof -
  have "deviceMay k h a" by (rule obeys_split [OF within_obeys [OF device_run_obeys] assms(1)])
  then obtain dev where dev: "deviceRead h = Some dev" "\<not> devTerminating dev"
    and may: "case a of
              ActUpdateDeviceStatus x _ \<Rightarrow> mayPhase h dev x
            | ActUpdateDevice x _ \<Rightarrow> mayAnnotate k h dev x
            | ActDeletePod key _ \<Rightarrow> mayRecreate h dev key
            | ActCreatePod p _ \<Rightarrow> mayBoot k h dev p
            | ActCreateService s _ \<Rightarrow> mayExpose k h dev s
            | ActUpdateService s _ \<Rightarrow> mayRepair h dev s
            | ActCreateJob j _ \<Rightarrow> mayRegister k h dev j
            | _ \<Rightarrow> False"
    using assms(2) unfolding deviceMay_def by (cases "deviceRead h") simp_all
  have "deviceRead (traceOf (deviceReconcile (traced k) key) w) = Some dev"
    unfolding assms(1) by (rule deviceRead_mono [OF _ dev(1)]) simp
  with that dev may show ?thesis by blast
qed

text \<open>The Device controller never changes which lease holds a device: each status it writes has
  the metadata (so the resource version), spec, \<open>leaseRef\<close> and time of last use of a device the
  server returned to the run, and it reports no phase but Provisioning, Ready, Leased or Failed.\<close>

theorem device_controller_keeps_binding:
  assumes "traceOf (deviceReconcile (traced k) key) w = h @ ActUpdateDeviceStatus x r # t"
  shows "\<exists>d \<in> set (served h). devMeta x = devMeta d \<and> devSpec x = devSpec d \<and> devLeaseRef x = devLeaseRef d \<and>
    dtLastUsedTime (devStatus x) = dtLastUsedTime (devStatus d) \<and>
    devPhase x \<in> {DeviceProvisioning, DeviceReady, DeviceLeased, DeviceFailed}"
proof -
  obtain dev where "mayPhase h dev x" using device_write [OF assms] by auto
  then show ?thesis unfolding mayPhase_def by (cases "devPhase x") auto
qed

definition bootedPod :: "string \<Rightarrow> pod" where
  \<comment> \<open>the emulator pod of device \<open>n\<close>, up and Ready\<close>
  "bootedPod n = \<lparr> podMeta = emptyMeta\<lparr>mName := n @ ''-emulator'', mNamespace := ''ns''\<rparr>,
     podSpec = \<lparr> psNodeSelector = Map.empty, psTolerations = [], psContainers = [], psVolumes = [] \<rparr>,
     podStatus = \<lparr> pstPhase = PodRunning, pstConditions = [\<lparr> pcdType = ''Ready'', pcdStatus = ConditionTrue \<rparr>],
       pstContainerStatuses = [] \<rparr> \<rparr>"

definition demoUp :: cluster where
  \<comment> \<open>a device bound to a lease whose emulator has just come up\<close>
  "demoUp = (demoCluster (demoPool 2 [(''pixel'', 1)]) [demoDevice ''d1'' ''pixel'' DeviceProvisioning ''l1''] [])
     \<lparr>clPods := [bootedPod ''d1'']\<rparr>"

lemma device_controller_keeps_binding_witness:
  "\<exists>h x r t d. traceOf (deviceReconcile (traced mem) (''ns'', ''d1'')) demoUp = h @ ActUpdateDeviceStatus x r # t \<and>
     devPhase x = DeviceLeased \<and> d \<in> set (served h) \<and> devLeaseRef x = devLeaseRef d"
proof -
  have "someCall deviceStatusWrite (\<lambda>x. devPhase x = DeviceLeased) (traceOf (deviceReconcile (traced mem) (''ns'', ''d1'')) demoUp)"
    by code_simp
  then obtain h x r t where
    *: "traceOf (deviceReconcile (traced mem) (''ns'', ''d1'')) demoUp = h @ ActUpdateDeviceStatus x r # t" "devPhase x = DeviceLeased"
    using some_deviceStatusWrite by blast
  from device_controller_keeps_binding [OF *(1)] * show ?thesis by blast
qed

subsection \<open>The phase\<close>

lemma crashLoopReasonIn_empty:
  "crashLoopReasonIn css = [] \<longleftrightarrow>
     list_all (\<lambda>cs. csWaitingReason cs \<noteq> Some crashLoopBackOff \<and> csRestartCount cs <s 3) css"
  by (induction css) (auto simp: crashLoopRestartThreshold_def word_sless_alt word_sle_eq)

definition crashLooping :: "pod \<Rightarrow> bool" where
  "crashLooping p \<longleftrightarrow> list_ex (\<lambda>cs. csWaitingReason cs = Some ''CrashLoopBackOff'' \<or> 3 \<le> sint (csRestartCount cs))
     (pstContainerStatuses (podStatus p))"

lemma crashLoopReason_crashLooping: "crashLoopReason p = [] \<longleftrightarrow> \<not> crashLooping p"
  by (simp add: crashLoopReason_def crashLoopReasonIn_empty crashLooping_def list_all_iff list_ex_iff
      crashLoopBackOff_def word_sless_alt not_le)

text \<open>The phase computed from a pod is Ready exactly when a Ready condition holds and the pod has
  neither ended nor crash-loops (a container waiting in CrashLoopBackOff or restarted three times);
  Failed exactly when it ended, crash-loops, or is not Ready although the device had booted; and
  Provisioning otherwise.\<close>

theorem computePhase_decides:
  "(fst (computePhase p booted) = DeviceReady) =
     (\<not> crashLooping p \<and> pstPhase (podStatus p) \<notin> {PodFailed, PodSucceeded} \<and> podReady p) \<and>
   (fst (computePhase p booted) = DeviceFailed) =
     (crashLooping p \<or> pstPhase (podStatus p) \<in> {PodFailed, PodSucceeded} \<or> booted \<and> \<not> podReady p) \<and>
   fst (computePhase p booted) \<in> {DeviceReady, DeviceFailed, DeviceProvisioning}"
  unfolding computePhase_def Let_def by (auto simp: crashLoopReason_crashLooping)

lemma deviceRead_of_trace:
  "traceOf (deviceReconcile (traced k) key) w = h @ t \<Longrightarrow> deviceRead h = Some d \<Longrightarrow>
    deviceRead (traceOf (deviceReconcile (traced k) key) w) = Some d"
  by (simp add: deviceRead_mono [of h "h @ t"])

text \<open>C25: A run reports a device Ready or Leased only on its provider's word: an emulator device after it saw
  the device's pod Ready, not ended and not crash-looping; a physical device, which has no pod, when its
  spec names the endpoint its provider reports. It reports Leased exactly when the device carries a
  \<open>leaseRef\<close>.\<close>

theorem device_usable_only_when_up:
  assumes "traceOf (deviceReconcile (traced k) key) w = h @ ActUpdateDeviceStatus x r # t"
    and "devPhase x = DeviceReady \<or> devPhase x = DeviceLeased"
  shows "(devPhase x = DeviceLeased) = (devLeaseRef x \<noteq> []) \<and>
    (\<exists>dev. deviceRead h = Some dev \<and> \<not> devTerminating dev \<and>
      (if dsProviderType (devSpec dev) = ProviderPhysical then dsADBEndpoint (devSpec dev) \<noteq> []
       else \<exists>p. (ActGetPod (devNamespace dev, emulatorPodName dev) (Inr p) \<in> set h \<or> (\<exists>q. ActCreatePod q (Inr p) \<in> set h)) \<and>
         podReady p \<and> \<not> crashLooping p \<and> pstPhase (podStatus p) \<notin> {PodFailed, PodSucceeded}))"
proof -
  obtain dev where dev: "deviceRead h = Some dev" "\<not> devTerminating dev" and may: "mayPhase h dev x"
    using device_write [OF assms(1)] by auto
  have up: "healthySeen h dev" and ref: "(devPhase x = DeviceLeased) = (devLeaseRef x \<noteq> [])"
    using may assms(2) by (auto simp: mayPhase_def)
  have pod: "podReady p \<and> \<not> crashLooping p \<and> pstPhase (podStatus p) \<notin> {PodFailed, PodSucceeded}"
    if "fst (computePhase p b) = DeviceReady" for p b
    using that by (auto simp: computePhase_def Let_def crashLoopReason_crashLooping split: if_splits)
  show ?thesis using up dev ref pod unfolding healthySeen_def podPhaseSeen_def podSeen_def by metis
qed

lemma device_usable_only_when_up_witness:
  "\<exists>h x r t p. traceOf (deviceReconcile (traced mem) (''ns'', ''d1'')) demoUp = h @ ActUpdateDeviceStatus x r # t \<and>
     devPhase x = DeviceLeased \<and> devLeaseRef x \<noteq> [] \<and> podReady p \<and> \<not> crashLooping p"
proof -
  let ?t = "traceOf (deviceReconcile (traced mem) (''ns'', ''d1'')) demoUp"
  have "someCall deviceStatusWrite (\<lambda>x. devPhase x = DeviceLeased) ?t" by code_simp
  then obtain h x r t where *: "?t = h @ ActUpdateDeviceStatus x r # t" "devPhase x = DeviceLeased"
    using some_deviceStatusWrite by blast
  have "map_option (\<lambda>d. dsProviderType (devSpec d)) (deviceRead ?t) = Some ProviderEmulator" by code_simp
  then have "\<forall>d. deviceRead h = Some d \<longrightarrow> dsProviderType (devSpec d) \<noteq> ProviderPhysical"
    using deviceRead_of_trace [OF *(1)] by auto
  with device_usable_only_when_up [OF *(1) disjI2 [OF *(2)]] * show ?thesis by (metis (no_types))
qed

subsection \<open>Recreating a failed device\<close>

text \<open>C20: A run deletes the device's pod only when it saw that pod failed (crash-looping, ended, or
  unready after the device had booted) and not already terminating, at a reading of the clock not
  before the retry time recorded on the device.\<close>

theorem device_recreates_only_after_backoff:
  assumes "traceOf (deviceReconcile (traced k) key) w = h @ ActDeletePod pkey r # t"
  shows "\<exists>dev p q now. deviceRead h = Some dev \<and> podSeen h dev p \<and> podSeen h dev q \<and>
    (crashLooping q \<or> pstPhase (podStatus q) \<in> {PodFailed, PodSucceeded} \<or>
      devAnnotations dev annBooted = Some ''true'' \<and> \<not> podReady q) \<and>
    mDeletionTimestamp (podMeta p) = None \<and> pkey = (mNamespace (podMeta p), mName (podMeta p)) \<and>
    ActClockNow now \<in> set h \<and> (annTime dev annNextRetry = zeroTime \<or> annTime dev annNextRetry \<le> now)"
proof -
  obtain dev where dev: "deviceRead h = Some dev" and may: "mayRecreate h dev pkey"
    using device_write [OF assms] by auto
  from may obtain p q now where *: "podSeen h dev p" "mDeletionTimestamp (podMeta p) = None"
      "pkey = (mNamespace (podMeta p), mName (podMeta p))" "retryDue h dev now" "podSeen h dev q"
      "fst (computePhase q (devAnnotations dev annBooted = Some ''true'')) = DeviceFailed"
    unfolding mayRecreate_def podPhaseSeen_def by blast
  from *(6) have "crashLooping q \<or> pstPhase (podStatus q) \<in> {PodFailed, PodSucceeded} \<or>
      devAnnotations dev annBooted = Some ''true'' \<and> \<not> podReady q"
    by (auto simp: computePhase_def Let_def crashLoopReason_crashLooping split: if_splits)
  moreover have "ActClockNow now \<in> set h \<and> (annTime dev annNextRetry = zeroTime \<or> annTime dev annNextRetry \<le> now)"
    using *(4) by (simp add: retryDue_def isZeroTime_def zeroTime_def)
  ultimately show ?thesis using dev *(1,2,3,5) by blast
qed

definition crashedPod :: "string \<Rightarrow> pod" where
  "crashedPod n = (bootedPod n)\<lparr>podStatus := \<lparr> pstPhase = PodRunning, pstConditions = [],
     pstContainerStatuses = [\<lparr> csName = ''emulator'', csRestartCount = 3, csWaitingReason = None \<rparr>] \<rparr>\<rparr>"

definition demoCrashed :: cluster where
  "demoCrashed = (demoCluster (demoPool 2 [(''pixel'', 1)]) [demoDevice ''d1'' ''pixel'' DeviceReady []] [])
     \<lparr>clPods := [crashedPod ''d1'']\<rparr>"

lemma device_recreates_only_after_backoff_witness:
  "\<exists>h r t q. traceOf (deviceReconcile (traced mem) (''ns'', ''d1'')) demoCrashed = h @ ActDeletePod (''ns'', ''d1-emulator'') r # t \<and>
     (crashLooping q \<or> pstPhase (podStatus q) \<in> {PodFailed, PodSucceeded} \<or> \<not> podReady q)"
proof -
  let ?t = "traceOf (deviceReconcile (traced mem) (''ns'', ''d1'')) demoCrashed"
  have "someCall podDeletion (\<lambda>key. key = (''ns'', ''d1-emulator'')) ?t" by code_simp
  then obtain h r t where *: "?t = h @ ActDeletePod (''ns'', ''d1-emulator'') r # t"
    using some_podDeletion by blast
  from device_recreates_only_after_backoff [OF this] * show ?thesis by blast
qed

text \<open>C26: When a run records a recreation, the annotations it writes read back as one failure more than
  before, no longer booted, and, where the time fits RFC3339, a retry time of the clock reading plus
  the backoff of that count, to the second; what it wrote is the device it read, but for those
  three annotations.\<close>

theorem device_recovery_reads_back:
  assumes "traceOf (deviceReconcile (traced k) key) w = h @ ActUpdateDevice x r # t"
    and "devAnnotations x annBooted \<noteq> Some ''true''"
  shows "\<exists>dev now b. deviceRead h = Some dev \<and> ActClockNow now \<in> set h \<and>
    backoffDuration (annInt dev annFailures) = Inr b \<and> annInt x annFailures = annInt dev annFailures + 1 \<and>
    (fitsRFC3339 (localOffset k) (now + sint b) \<longrightarrow> annTime x annNextRetry = truncSecond (now + sint b)) \<and>
    devAnnotations x annBooted = None \<and> devStatus x = devStatus dev \<and> devSpec x = devSpec dev \<and>
    mResourceVersion (devMeta x) = mResourceVersion (devMeta dev)"
proof -
  have keys: "annBooted \<noteq> annFailures" "annBooted \<noteq> annNextRetry" "annFailures \<noteq> annNextRetry"
    by (simp_all add: annBooted_def annFailures_def annNextRetry_def)
  obtain dev where dev: "deviceRead h = Some dev" and may: "mayAnnotate k h dev x"
    using device_write [OF assms(1)] by auto
  have "x \<noteq> setAnnotations (healthyAnnotations dev) dev"
    using assms(2) keys by (auto simp: setAnnotations_def healthyAnnotations_def)
  with may obtain now b where *: "retryDue h dev now" "backoffDuration (annInt dev annFailures) = Inr b"
      "x = setAnnotations (recoveryAnnotations (localOffset k) now b dev) dev"
    unfolding mayAnnotate_def by blast
  have entries: "devAnnotations x annFailures = Some (itoa (sint (annInt dev annFailures + 1)))"
    "devAnnotations x annNextRetry = Some (formatRFC3339 (localOffset k) (timeAdd now b))"
    "devAnnotations x annBooted = None"
    using keys by (simp_all add: *(3) setAnnotations_def recoveryAnnotations_def)
  have "annInt x annFailures = annInt dev annFailures + 1"
    unfolding annInt_def [of x]
    using decimal.read_entry [where m = "devAnnotations x" and key = annFailures and d = 0, OF TrueI entries(1)] by simp
  moreover have "annTime x annNextRetry = truncSecond (now + sint b)" if "fitsRFC3339 (localOffset k) (now + sint b)"
    unfolding annTime_def
    using rfc3339.read_entry [where m = "devAnnotations x" and key = annNextRetry and d = zeroTime, OF _ entries(2)] that
    by (simp add: timeAdd_def)
  moreover have "devStatus x = devStatus dev" "devSpec x = devSpec dev" "mResourceVersion (devMeta x) = mResourceVersion (devMeta dev)"
    by (simp_all add: *(3) setAnnotations_def)
  ultimately show ?thesis using dev *(1,2) entries(3) unfolding retryDue_def by blast
qed

lemma device_recovery_reads_back_witness:
  "\<exists>h x r t dev. traceOf (deviceReconcile (traced mem) (''ns'', ''d1'')) demoCrashed = h @ ActUpdateDevice x r # t \<and>
     deviceRead h = Some dev \<and> annInt x annFailures = annInt dev annFailures + 1 \<and> devAnnotations x annBooted = None"
proof -
  let ?t = "traceOf (deviceReconcile (traced mem) (''ns'', ''d1'')) demoCrashed"
  have "someCall deviceWrite (\<lambda>x. devAnnotations x annBooted \<noteq> Some ''true'') ?t" by code_simp
  then obtain h x r t where *: "?t = h @ ActUpdateDevice x r # t" "devAnnotations x annBooted \<noteq> Some ''true''"
    using some_deviceWrite by blast
  from device_recovery_reads_back [OF *] * show ?thesis by blast
qed

subsection \<open>Physical and terminating devices\<close>

fun touchesPod :: "action \<Rightarrow> bool" where
  "touchesPod (ActCreatePod _ _) = True"
| "touchesPod (ActDeletePod _ _) = True"
| "touchesPod (ActCreateService _ _) = True"
| "touchesPod (ActUpdateService _ _) = True"
| "touchesPod _ = False"

text \<open>For a physical device, whose hardware the provider owns, a run never creates or deletes a pod
  and never creates or changes a Service.\<close>

theorem physical_device_has_no_pod:
  assumes "deviceRead (traceOf (deviceReconcile (traced k) key) w) = Some dev"
    and "dsProviderType (devSpec dev) = ProviderPhysical"
  shows "filter touchesPod (traceOf (deviceReconcile (traced k) key) w) = []"
proof -
  have "\<not> touchesPod a" if mem: "a \<in> set (traceOf (deviceReconcile (traced k) key) w)" for a
  proof
    assume touch: "touchesPod a"
    then have "\<not> isRead a" by (cases a) auto
    obtain h t where t: "traceOf (deviceReconcile (traced k) key) w = h @ a # t" using mem by (meson split_list)
    obtain dev' where "deviceRead (traceOf (deviceReconcile (traced k) key) w) = Some dev'"
      and may: "case a of
              ActUpdateDeviceStatus x _ \<Rightarrow> mayPhase h dev' x
            | ActUpdateDevice x _ \<Rightarrow> mayAnnotate k h dev' x
            | ActDeletePod key _ \<Rightarrow> mayRecreate h dev' key
            | ActCreatePod p _ \<Rightarrow> mayBoot k h dev' p
            | ActCreateService s _ \<Rightarrow> mayExpose k h dev' s
            | ActUpdateService s _ \<Rightarrow> mayRepair h dev' s
            | ActCreateJob j _ \<Rightarrow> mayRegister k h dev' j
            | _ \<Rightarrow> False"
      by (rule device_write [OF t \<open>\<not> isRead a\<close>])
    then have "dev' = dev" using assms(1) by simp
    then show False using may touch assms(2)
      by (cases a) (auto simp: mayRecreate_def mayBoot_def mayExpose_def mayRepair_def podSeen_def)
  qed
  then show ?thesis by (simp add: filter_empty_conv)
qed

definition demoPhysical :: cluster where
  "demoPhysical = demoCluster (demoPool 2 [(''pixel'', 1)])
     [(demoDevice ''d1'' ''pixel'' DeviceProvisioning [])\<lparr>devSpec := (devSpec (demoDevice ''d1'' ''pixel'' DeviceProvisioning []))
        \<lparr>dsProviderType := ProviderPhysical, dsADBEndpoint := ''10.0.0.7:5555''\<rparr>\<rparr>] []"

lemma physical_device_has_no_pod_witness:
  "\<exists>dev. deviceRead (traceOf (deviceReconcile (traced mem) (''ns'', ''d1'')) demoPhysical) = Some dev \<and>
     filter touchesPod (traceOf (deviceReconcile (traced mem) (''ns'', ''d1'')) demoPhysical) = [] \<and>
     writesIn (traceOf (deviceReconcile (traced mem) (''ns'', ''d1'')) demoPhysical) \<noteq> []"
proof -
  let ?t = "traceOf (deviceReconcile (traced mem) (''ns'', ''d1'')) demoPhysical"
  have "map_option (\<lambda>d. dsProviderType (devSpec d)) (deviceRead ?t) = Some ProviderPhysical" by code_simp
  then obtain dev where dev: "deviceRead ?t = Some dev" "dsProviderType (devSpec dev) = ProviderPhysical" by auto
  have "list_ex (\<lambda>a. \<not> isRead a) ?t" by code_simp
  then have "writesIn ?t \<noteq> []" by (simp add: list_ex_iff filter_empty_conv)
  with physical_device_has_no_pod [OF dev] dev(1) show ?thesis by blast
qed

text \<open>A run on a device that is being deleted, or that is gone, writes nothing.\<close>

theorem terminating_device_left_alone:
  assumes "\<forall>dev. deviceRead (traceOf (deviceReconcile (traced k) key) w) = Some dev \<longrightarrow> devTerminating dev"
  shows "writesIn (traceOf (deviceReconcile (traced k) key) w) = []"
proof -
  have "isRead a" if mem: "a \<in> set (traceOf (deviceReconcile (traced k) key) w)" for a
  proof (rule ccontr)
    assume "\<not> isRead a"
    obtain h t where t: "traceOf (deviceReconcile (traced k) key) w = h @ a # t" using mem by (meson split_list)
    show False using device_write [OF t \<open>\<not> isRead a\<close>] assms by auto
  qed
  then show ?thesis by (simp add: filter_empty_conv)
qed

lemma terminating_device_left_alone_witness:
  "writesIn (traceOf (deviceReconcile (traced mem) (''ns'', ''d2'')) demoPhysical) = []"
proof (rule terminating_device_left_alone)
  have "deviceRead (traceOf (deviceReconcile (traced mem) (''ns'', ''d2'')) demoPhysical) = None" by code_simp
  then show "\<forall>dev. deviceRead (traceOf (deviceReconcile (traced mem) (''ns'', ''d2'')) demoPhysical) = Some dev \<longrightarrow> devTerminating dev"
    by simp
qed

subsection \<open>Pod, Service and their wiring\<close>

definition selects :: "(string \<rightharpoonup> string) \<Rightarrow> (string \<rightharpoonup> string) \<Rightarrow> bool" where
  "selects sel labels \<longleftrightarrow> sel \<subseteq>\<^sub>m labels"

text \<open>The adb Service of a device selects the device's own emulator pod and no pod of a device of
  another name, and sends its port to the port on which the pod's proxy container listens; the pod
  mounts the host's KVM device into its privileged emulator container.\<close>

theorem service_reaches_own_pod:
  "selects (svcSelector (adbService d)) (mLabels (podMeta (buildPod d dc))) \<and>
   selects (svcSelector (adbService d)) (mLabels (podMeta (buildPod d' dc'))) = (devName d' = devName d) \<and>
   map spTargetPort (svcPorts (adbService d)) = [FromInt32 5556] \<and>
   map (\<lambda>c. (ctName c, map cpContainerPort (ctPorts c))) (psContainers (podSpec (buildPod d dc))) =
     [(''emulator'', [5555]), (''adb-proxy'', [5556])] \<and>
   map ctArgs (psContainers (podSpec (buildPod d dc))) =
     [[], [''tcp-listen:5556,fork,reuseaddr'', ''tcp:127.0.0.1:5555'']] \<and>
   map ctPrivileged (psContainers (podSpec (buildPod d dc))) = [Some True, None] \<and>
   map volHostPath (psVolumes (podSpec (buildPod d dc))) = [''/dev/kvm'']"
proof -
  have "itoa (sint adbProxyPort) = ''5556''" "itoa (sint adbPort) = ''5555''" by code_simp+
  then show ?thesis
    by (auto simp: selects_def adbService_def buildPod_def Let_def deviceSelector_def emptyMeta_def emptyContainer_def
        adbProxyPort_def adbPort_def kvmHostPath_def map_le_def split: option.splits)
qed

text \<open>Repairing a Service that drifted makes it NodePort and points its port at the proxy if it has
  exactly one, changes nothing else, reports a change exactly when it made one, and leaves nothing
  to repair.\<close>

theorem driftedService_repairs:
  "svcType (fst (driftedService s)) = ''NodePort'' \<and>
   map spTargetPort (svcPorts (fst (driftedService s))) =
     (if length (svcPorts s) = 1 then [FromInt32 5556] else map spTargetPort (svcPorts s)) \<and>
   map spPort (svcPorts (fst (driftedService s))) = map spPort (svcPorts s) \<and>
   svcMeta (fst (driftedService s)) = svcMeta s \<and> svcSelector (fst (driftedService s)) = svcSelector s \<and>
   snd (driftedService s) = (fst (driftedService s) \<noteq> s) \<and>
   driftedService (fst (driftedService s)) = (fst (driftedService s), False)"
proof -
  have upd: "(s\<lparr>svcType := t\<rparr> \<noteq> s) = (svcType s \<noteq> t)" "(s\<lparr>svcPorts := ps\<rparr> \<noteq> s) = (svcPorts s \<noteq> ps)"
    "(s\<lparr>svcType := t, svcPorts := ps\<rparr> \<noteq> s) = (svcType s \<noteq> t \<or> svcPorts s \<noteq> ps)" for s :: service and t ps
    by (cases s; auto)+
  have upd2: "(p\<lparr>spTargetPort := q\<rparr> = p) = (spTargetPort p = q)" "(p = p\<lparr>spTargetPort := q\<rparr>) = (spTargetPort p = q)" for p q
    by (cases p; auto)+
  consider "svcPorts s = []" | p where "svcPorts s = [p]" | p q ps where "svcPorts s = p # q # ps"
    by (cases "svcPorts s" rule: remdups_adj.cases) auto
  then show ?thesis
    by cases (auto simp: driftedService_def Let_def serviceTypeNodePort_def adbProxyPort_def upd upd2 split: list.splits)
qed

subsection \<open>Settled devices\<close>

context status_conditions
begin

lemma setPhase_settled:
  assumes "setStatusCondition k = setc" and "devPhase d = ph" and "adb = [] \<or> dtADBEndpoint (devStatus d) = adb"
    and "hasCondition (dtConditions (devStatus d)) (readyCondition d ph reason msg)"
  shows "run_state (setPhase k d ph adb reason msg) w = (Inr emptyResult, w)"
  using set_settled [OF assms(4)] assms(1,2,3) unfolding setPhase_phased by simp

lemma setPhase_written_settles:
  assumes "setStatusCondition k = setc" and "run_state (setc (dtConditions (devStatus d)) (readyCondition d ph reason msg)) w = ((b, conds), w')"
  shows "run_state (setPhase k (phased d ph adb conds) ph adb reason msg) v = (Inr emptyResult, v)"
proof (rule setPhase_settled [OF assms(1)])
  show "hasCondition (dtConditions (devStatus (phased d ph adb conds))) (readyCondition (phased d ph adb conds) ph reason msg)"
    using set_reflects [OF assms(2)] by (simp add: readyCondition_def)
qed auto

end

text \<open>Writing the phase settles: whatever device status \<open>setPhase\<close> computes and writes, running it
  again on that status with the same phase, endpoint, reason and message makes no call, whatever the
  library's SetStatusCondition is, as long as it keeps its documented contract.\<close>

theorem setPhase_settles:
  assumes "status_conditions (setStatusCondition k)"
    and "run_state (setStatusCondition k (dtConditions (devStatus d)) (readyCondition d ph reason msg)) w = ((b, conds), w')"
  shows "run_state (setPhase k (d\<lparr>devStatus := (devStatus d)\<lparr>dtPhase := ph,
       dtADBEndpoint := (if adb = [] then dtADBEndpoint (devStatus d) else adb), dtConditions := conds\<rparr>\<rparr>) ph adb reason msg) v
     = (Inr emptyResult, v)"
  using status_conditions.setPhase_written_settles [OF assms(1) refl assms(2)] by (simp add: phased_def)

lemma setPhase_settles_witness:
  "\<exists>conds. run_state (setPhase mem ((demoDevice ''d1'' ''pixel'' DeviceReady [])\<lparr>devStatus :=
      (devStatus (demoDevice ''d1'' ''pixel'' DeviceReady []))\<lparr>dtPhase := DeviceFailed, dtADBEndpoint := ''x:5555'',
         dtConditions := conds\<rparr>\<rparr>) DeviceFailed ''x:5555'' ''PodFailed'' ''m'') demoUp = (Inr emptyResult, demoUp)"
proof -
  obtain b conds w' where "run_state (setStatusCondition mem (dtConditions (devStatus (demoDevice ''d1'' ''pixel'' DeviceReady [])))
      (readyCondition (demoDevice ''d1'' ''pixel'' DeviceReady []) DeviceFailed ''PodFailed'' ''m'')) demoUp = ((b, conds), w')"
    by (metis surj_pair)
  from setPhase_settles [OF mem_conditions.status_conditions_axioms this, of "''x:5555''" demoUp]
  show ?thesis by auto
qed

end
