(* ===== verification/Pool_Controller.thy ===== *)
theory Pool_Controller
  imports Capacity
begin

text \<open>
  The DevicePool controller, \<^verbatim>\<open>operator/internal/controller/devicepool_controller.go\<close>: it keeps
  \<open>minWarm\<close> Devices of every class the pool lists, within \<open>maxConcurrent\<close> less the capacity
  reserved for pending leases, and reports the tally per class. The Go map from class to devices is
  an association list in order of first insertion; Go iterates it in an unspecified order, and the
  lemmas show that nothing computed from it depends on the order.
\<close>

subsection \<open>Grouping the pool's devices\<close>

fun appendTo :: "string \<Rightarrow> Device \<Rightarrow> (string \<times> Device list) list \<Rightarrow> (string \<times> Device list) list" where
  "appendTo c d [] = [(c, [d])]"
| "appendTo c d ((c', ds) # rest) =
     (if c' = c then (c', ds @ [d]) # rest else (c', ds) # appendTo c d rest)"

definition groupStep :: "(string \<times> Device list) list \<Rightarrow> Device \<Rightarrow> (string \<times> Device list) list" where
  "groupStep m d = (if devTerminating d then m else appendTo (devClass d) d m)"

definition groupByClass :: "Device list \<Rightarrow> (string \<times> Device list) list" where
  "groupByClass devs = foldl groupStep [] devs"

definition classDevices :: "(string \<times> Device list) list \<Rightarrow> string \<Rightarrow> Device list" where
  "classDevices m c = (case map_of m c of None \<Rightarrow> [] | Some ds \<Rightarrow> ds)"

definition activeDevicesByClass ::
    "'w kube \<Rightarrow> DevicePool \<Rightarrow> ('w, goError + (string \<times> Device list) list) state" where
  "activeDevicesByClass k pool =
     tryE (apiListDevices k (mNamespace (poolMeta pool)) [(LabelPool, mName (poolMeta pool))])
       (\<lambda>devs. ret (Inr (groupByClass devs)))"

definition totalStep :: "int32 \<times> Device list \<Rightarrow> string \<times> Device list \<Rightarrow> int32 \<times> Device list" where
  "totalStep s e = (fst s + of_nat (length (snd e)), snd s @ snd e)"

definition totalDevices :: "(string \<times> Device list) list \<Rightarrow> int32 \<times> Device list" where
  "totalDevices active = foldl totalStep (0, []) active"

subsection \<open>Reserving capacity and filling the warm pool\<close>

fun reserveLoop ::
    "'w kube \<Rightarrow> string \<Rightarrow> Device list \<Rightarrow> PoolClass list \<Rightarrow> int32 \<Rightarrow> ('w, goError + int32) state" where
  "reserveLoop k ns devs [] reserved = ret (Inr reserved)"
| "reserveLoop k ns devs (pc # pcs) reserved =
     tryE (pendingLeaseDemand k ns (pcName pc)) (\<lambda>demand.
       let supply = unclaimedSupply devs (pcName pc)
       in if supply <s demand then reserveLoop k ns devs pcs (reserved + (demand - supply))
          else reserveLoop k ns devs pcs reserved)"

definition createDevice :: "'w kube \<Rightarrow> DevicePool \<Rightarrow> DeviceClass \<Rightarrow> ('w, goError + unit) state" where
  "createDevice k pool dc =
     (let dev = newPoolDevice pool dc in
      tryE (ret (setControllerReference k ''DevicePool'' (poolMeta pool) (devMeta dev)))
        (\<lambda>m. tryE (apiCreateDevice k (setDeviceMeta m dev)) (\<lambda>_. ret (Inr ()))))"

function warmLoop ::
    "'w kube \<Rightarrow> DevicePool \<Rightarrow> DeviceClass \<Rightarrow> int32 \<Rightarrow> int32 \<Rightarrow> int32 \<Rightarrow> int32 \<Rightarrow> ('w, goError + int32) state" where
  \<comment> \<open>the class's loop from \<open>have\<close> devices on, with the running total it returns\<close>
  "warmLoop k pool dc minWarm warmBudget have tot =
     (if have <s minWarm \<and> tot <s warmBudget
      then tryE (createDevice k pool dc) (\<lambda>_. warmLoop k pool dc minWarm warmBudget (have + 1) (tot + 1))
      else ret (Inr tot))"
  by pat_completeness auto
termination
  by (relation "measure (\<lambda>(k, pool, dc, minWarm, warmBudget, have, tot). nat (sint minWarm - sint have))")
    (auto simp: sint32_incr word_sless_alt)

declare warmLoop.simps [simp del]

fun warmClasses ::
    "'w kube \<Rightarrow> DevicePool \<Rightarrow> (string \<times> Device list) list \<Rightarrow> int32 \<Rightarrow> PoolClass list \<Rightarrow> int32 \<Rightarrow> bool
       \<Rightarrow> ('w, goError + bool) state" where
  \<comment> \<open>over the pool's classes, with the running total; returns whether a class is missing\<close>
  "warmClasses k pool active warmBudget [] tot classMissing = ret (Inr classMissing)"
| "warmClasses k pool active warmBudget (pc # pcs) tot classMissing = do {
     r \<leftarrow> apiGetDeviceClass k (pcName pc);
     (case r of
        Inl ErrNotFound \<Rightarrow> warmClasses k pool active warmBudget pcs tot True
      | Inl e \<Rightarrow> ret (Inl e)
      | Inr dc \<Rightarrow>
          tryE (warmLoop k pool dc (pcMinWarm pc) warmBudget
                  (of_nat (length (classDevices active (pcName pc)))) tot)
            (\<lambda>tot'. warmClasses k pool active warmBudget pcs tot' classMissing))
   }"

subsection \<open>Status\<close>

definition emptyCounts :: "PoolClass \<Rightarrow> ClassCounts" where
  "emptyCounts c = \<lparr> ccClass = pcName c, ccTotal = 0, ccReady = 0, ccLeased = 0, ccProvisioning = 0 \<rparr>"

fun classIndex :: "PoolClass list \<Rightarrow> nat \<Rightarrow> (string \<rightharpoonup> nat) \<Rightarrow> (string \<rightharpoonup> nat)" where
  "classIndex [] n idx = idx"
| "classIndex (c # cs) n idx = classIndex cs (Suc n) (idx(pcName c \<mapsto> n))"

definition bumpCounts :: "DevicePhase \<Rightarrow> ClassCounts \<Rightarrow> ClassCounts" where
  "bumpCounts phase cc =
     (let cc = cc\<lparr>ccTotal := ccTotal cc + 1\<rparr> in
      case phase of
        DeviceReady \<Rightarrow> cc\<lparr>ccReady := ccReady cc + 1\<rparr>
      | DeviceLeased \<Rightarrow> cc\<lparr>ccLeased := ccLeased cc + 1\<rparr>
      | _ \<Rightarrow> cc\<lparr>ccProvisioning := ccProvisioning cc + 1\<rparr>)"

definition countStep :: "(string \<rightharpoonup> nat) \<Rightarrow> ClassCounts list \<Rightarrow> Device \<Rightarrow> ClassCounts list" where
  "countStep idx out d =
     (case idx (devClass d) of
        None \<Rightarrow> out
      | Some pos \<Rightarrow> out[pos := bumpCounts (devPhase d) (out ! pos)])"

definition computeCounts :: "PoolClass list \<Rightarrow> Device list \<Rightarrow> ClassCounts list" where
  "computeCounts classes devices =
     foldl (countStep (classIndex classes 0 Map.empty)) (map emptyCounts classes) devices"

definition poolCondition :: "DevicePool \<Rightarrow> bool \<Rightarrow> condition" where
  "poolCondition pool classMissing =
     (if classMissing
      then \<lparr> cType = ''Ready'', cStatus = ConditionFalse,
             cObservedGeneration = mGeneration (poolMeta pool), cReason = ''DeviceClassNotFound'',
             cMessage = ''one or more referenced DeviceClasses do not exist'', cLastTransitionTime = zeroTime \<rparr>
      else \<lparr> cType = ''Ready'', cStatus = ConditionTrue,
             cObservedGeneration = mGeneration (poolMeta pool), cReason = ''WarmPoolSatisfied'',
             cMessage = ''minWarm satisfied for all referenced classes'', cLastTransitionTime = zeroTime \<rparr>)"

definition updatePoolStatus :: "'w kube \<Rightarrow> DevicePool \<Rightarrow> bool \<Rightarrow> ('w, goError + unit) state" where
  "updatePoolStatus k pool classMissing =
     tryE (apiListDevices k (mNamespace (poolMeta pool)) [(LabelPool, mName (poolMeta pool))]) (\<lambda>devs. do {
       (_, conds) \<leftarrow> setStatusCondition k (dptConditions (poolStatus pool)) (poolCondition pool classMissing);
       tryE (apiUpdateDevicePoolStatus k
               (pool\<lparr>poolStatus := \<lparr> dptPerClass = computeCounts (dpsClasses (poolSpec pool)) devs,
                                    dptConditions = conds \<rparr>\<rparr>))
         (\<lambda>_. ret (Inr ()))
     })"

subsection \<open>Reconcile\<close>

definition poolReconcile :: "'w kube \<Rightarrow> objectKey \<Rightarrow> ('w, goError + ctrlResult) state" where
  "poolReconcile k req = do {
     r \<leftarrow> apiGetDevicePool k req;
     (case r of
        Inl ErrNotFound \<Rightarrow> ret (Inr emptyResult)
      | Inl e \<Rightarrow> ret (Inl e)
      | Inr pool \<Rightarrow>
          tryE (activeDevicesByClass k pool) (\<lambda>active.
            let (tot, all) = totalDevices active;
                classes = dpsClasses (poolSpec pool)
            in tryE (reserveLoop k (mNamespace (poolMeta pool)) all classes 0) (\<lambda>reserved.
               let warmBudget = dpsMaxConcurrent (poolSpec pool) - reserved
               in tryE (warmClasses k pool active warmBudget classes tot False) (\<lambda>classMissing.
                  tryE (updatePoolStatus k pool classMissing) (\<lambda>_. ret (Inr emptyResult))))))
   }"

definition keyOf :: "objectMeta \<Rightarrow> objectKey" where "keyOf m = (mNamespace m, mName m)"

definition poolsForLease :: "'w kube \<Rightarrow> objectMeta \<Rightarrow> ('w, objectKey list) state" where
  "poolsForLease k obj = do {
     r \<leftarrow> apiListDevicePools k (mNamespace obj);
     ret (case r of Inl _ \<Rightarrow> [] | Inr pools \<Rightarrow> map (\<lambda>p. keyOf (poolMeta p)) pools)
   }"

end
