(* ===== verification/Pool_Safety.thy ===== *)
theory Pool_Safety
  imports Pool_Controller Policy
begin

text \<open>
  What the DevicePool controller computes and may write: the meaning of its grouping and counting
  loops, and the policy \<open>poolMay\<close> that every run obeys, against every client. A pool creates
  devices within its budget and reports its status; it writes nothing else.
\<close>

subsection \<open>Grouping and totals\<close>

definition activeOf :: "string \<Rightarrow> Device list \<Rightarrow> Device list" where
  "activeOf c ds = filter (\<lambda>d. \<not> devTerminating d \<and> devClass d = c) ds"

lemma classDevices_appendTo:
  "classDevices (appendTo c d m) c' = (if c' = c then classDevices m c @ [d] else classDevices m c')"
  by (induction c d m rule: appendTo.induct) (auto simp: classDevices_def)

lemma classDevices_fold:
  "classDevices (foldl groupStep m ds) c = classDevices m c @ activeOf c ds"
  by (induction ds arbitrary: m) (auto simp: groupStep_def classDevices_appendTo activeOf_def)

lemma classDevices_group: "classDevices (groupByClass ds) c = activeOf c ds"
  using classDevices_fold [of "[]" ds c] by (simp add: groupByClass_def classDevices_def)

lemma mset_appendTo: "mset (concat (map snd (appendTo c d m))) = add_mset d (mset (concat (map snd m)))"
  by (induction c d m rule: appendTo.induct) auto

lemma mset_group_fold:
  "mset (concat (map snd (foldl groupStep m ds))) = mset (concat (map snd m)) + mset (filter (\<lambda>d. \<not> devTerminating d) ds)"
  by (induction ds arbitrary: m) (auto simp: groupStep_def mset_appendTo)

lemma totalDevices_fold:
  "foldl totalStep (n, ds) m = (n + of_nat (length (concat (map snd m))), ds @ concat (map snd m))"
  by (induction m arbitrary: n ds) (simp_all add: totalStep_def)

lemma totalDevices_concat: "totalDevices m = (of_nat (length (concat (map snd m))), concat (map snd m))"
  by (simp add: totalDevices_def totalDevices_fold)

lemma totalDevices_group:
  "totalDevices (groupByClass ds) = (of_nat (length (activeDevices ds)), concat (map snd (groupByClass ds)))"
proof -
  have "mset (concat (map snd (groupByClass ds))) = mset (activeDevices ds)"
    using mset_group_fold [of "[]" ds] by (simp add: groupByClass_def activeDevices_filter)
  then show ?thesis using mset_eq_length by (metis totalDevices_concat)
qed

lemma unclaimedSupply_group: "unclaimedSupply (concat (map snd (groupByClass ds))) c = unclaimedSupply ds c"
proof -
  have "mset (concat (map snd (groupByClass ds))) = mset (activeDevices ds)"
    using mset_group_fold [of "[]" ds] by (simp add: groupByClass_def activeDevices_filter)
  then have "unclaimedSupply (concat (map snd (groupByClass ds))) c = unclaimedSupply (activeDevices ds) c"
    by (rule unclaimedSupply_perm)
  also have "\<dots> = unclaimedSupply ds c"
    unfolding unclaimedSupply_count activeDevices_filter filter_filter
    by (rule arg_cong [where f = "\<lambda>xs. of_nat (length xs)"]) (auto simp: claimable_def intro: filter_cong)
  finally show ?thesis .
qed

subsection \<open>What a run has seen\<close>

definition poolRead :: "action list \<Rightarrow> DevicePool option" where
  "poolRead h = (case h of ActGetDevicePool _ (Inr p) # _ \<Rightarrow> Some p | _ \<Rightarrow> None)"

definition creates :: "action list \<Rightarrow> nat" where
  "creates h = length (filter createsDevice (writesIn h))"

definition shortfall :: "Device list \<Rightarrow> string \<Rightarrow> DeviceLease list \<Rightarrow> int32" where
  \<comment> \<open>what one class adds to the reserved capacity\<close>
  "shortfall ds c ls = (if unclaimedSupply ds c <s demandOf c ls then demandOf c ls - unclaimedSupply ds c else 0)"

definition reservedIn :: "action list \<Rightarrow> string \<Rightarrow> Device list \<Rightarrow> PoolClass list \<Rightarrow> int32 \<Rightarrow> bool" where
  \<comment> \<open>the sum of the shortfalls, each over a list of leases the run was given\<close>
  "reservedIn h ns ds pcs r \<longleftrightarrow>
     (\<exists>lss. list_all2 (\<lambda>pc ls. ActListDeviceLeases ns (Inr ls) \<in> set h) pcs lss \<and>
        r = sum_list (map2 (\<lambda>pc ls. shortfall ds (pcName pc) ls) pcs lss))"

definition budgetIn :: "action list \<Rightarrow> DevicePool \<Rightarrow> Device list \<Rightarrow> int32 \<Rightarrow> bool" where
  "budgetIn h pool ds b \<longleftrightarrow>
     ActListDevices (mNamespace (poolMeta pool)) [(LabelPool, mName (poolMeta pool))] (Inr ds) \<in> set h \<and>
     (\<exists>r. reservedIn h (mNamespace (poolMeta pool)) ds (dpsClasses (poolSpec pool)) r \<and>
        b = dpsMaxConcurrent (poolSpec pool) - r)"

definition fitsBudget :: "action list \<Rightarrow> Device list \<Rightarrow> int32 \<Rightarrow> bool" where
  \<comment> \<open>the pool's active devices with those the run has created are below the budget\<close>
  "fitsBudget h ds b \<longleftrightarrow> length (activeDevices ds) < 2 ^ 31 \<longrightarrow> int (length (activeDevices ds) + creates h) < sint b"

definition countsTotal :: "action list \<Rightarrow> Device list \<Rightarrow> int32 \<Rightarrow> bool" where
  \<comment> \<open>the loop's running total\<close>
  "countsTotal h ds tot \<longleftrightarrow> length (activeDevices ds) < 2 ^ 31 \<longrightarrow> sint tot = int (length (activeDevices ds) + creates h)"

subsection \<open>What may be written\<close>

definition mayFill :: "'w kube \<Rightarrow> action list \<Rightarrow> DevicePool \<Rightarrow> Device \<Rightarrow> bool" where
  "mayFill k h pool x \<longleftrightarrow>
     (\<exists>ds b pc dc m. budgetIn h pool ds b \<and> fitsBudget h ds b \<and>
        pc \<in> set (dpsClasses (poolSpec pool)) \<and> ActGetDeviceClass (pcName pc) (Inr dc) \<in> set h \<and>
        of_nat (length (activeOf (pcName pc) ds)) <s pcMinWarm pc \<and>
        setControllerReference k ''DevicePool'' (poolMeta pool) (devMeta (newPoolDevice pool dc)) = Inr m \<and>
        x = setDeviceMeta m (newPoolDevice pool dc))"

definition mayTally :: "action list \<Rightarrow> DevicePool \<Rightarrow> DevicePool \<Rightarrow> bool" where
  "mayTally h pool x \<longleftrightarrow> poolMeta x = poolMeta pool \<and> poolSpec x = poolSpec pool \<and>
     (\<exists>ds. ActListDevices (mNamespace (poolMeta pool)) [(LabelPool, mName (poolMeta pool))] (Inr ds) \<in> set h \<and>
        dptPerClass (poolStatus x) = computeCounts (dpsClasses (poolSpec pool)) ds)"

definition poolMay :: "'w kube \<Rightarrow> policy" where
  "poolMay k h a =
     (isRead a \<or>
      (case poolRead h of
         None \<Rightarrow> False
       | Some pool \<Rightarrow>
           (case a of
              ActCreateDevice x _ \<Rightarrow> mayFill k h pool x
            | ActUpdateDevicePoolStatus x _ \<Rightarrow> mayTally h pool x
            | _ \<Rightarrow> False)))"

interpretation pp: write_policy "poolMay k" for k :: "'w kube"
  by unfold_locales (simp add: poolMay_def)

lemma poolRead_mono: "prefix h h' \<Longrightarrow> poolRead h = Some p \<Longrightarrow> poolRead h' = Some p"
  by (auto simp: poolRead_def prefix_def split: list.splits action.splits sum.splits)

lemma reservedIn_mono: "prefix h h' \<Longrightarrow> reservedIn h ns ds pcs r \<Longrightarrow> reservedIn h' ns ds pcs r"
  unfolding reservedIn_def by (blast intro: list_all2_mono prefix_in)

lemma budgetIn_mono: "prefix h h' \<Longrightarrow> budgetIn h pool ds b \<Longrightarrow> budgetIn h' pool ds b"
  unfolding budgetIn_def by (blast intro: reservedIn_mono prefix_in)

lemmas pseen = poolRead_mono budgetIn_mono prefix_in

subsection \<open>Every run obeys the policy\<close>

context write_policy
begin

lemma reading_leaseDemand:
  "reading A (pendingLeaseDemand (traced k) ns cls)
     (\<lambda>r l. \<forall>n. r = Inr n \<longrightarrow> (\<exists>ls. ActListDeviceLeases ns (Inr ls) \<in> set l \<and> n = demandOf cls ls))"
  unfolding pendingLeaseDemand_def
  by (rule readingI) (auto intro!: lwp_intro exI simp: reads split: sum.split)

lemma reading_activeDevicesByClass:
  "reading A (activeDevicesByClass (traced k) pool)
     (\<lambda>r l. \<forall>m. r = Inr m \<longrightarrow> (\<exists>ds. m = groupByClass ds \<and>
        ActListDevices (mNamespace (poolMeta pool)) [(LabelPool, mName (poolMeta pool))] (Inr ds) \<in> set l))"
  unfolding activeDevicesByClass_def
  by (rule readingI) (auto intro!: lwp_intro exI simp: reads split: sum.split)

lemma reading_reserveLoop:
  assumes "\<And>c. unclaimedSupply all c = unclaimedSupply ds c"
  shows "reading A (reserveLoop (traced k) ns all pcs r0)
     (\<lambda>r l. \<forall>x. r = Inr x \<longrightarrow> (\<exists>y. reservedIn l ns ds pcs y \<and> x = r0 + y))"
proof (induction pcs arbitrary: r0)
  case Nil
  show ?case by (rule reading_within) (auto intro!: within_intro simp: reservedIn_def)
next
  case (Cons pc pcs)
  show ?case
  proof (rule reading_within, unfold reserveLoop.simps, rule within_tryE [OF readingD [OF reading_leaseDemand]], goal_cases)
    case (3 l demand l1)
    obtain ls where ls: "ActListDeviceLeases ns (Inr ls) \<in> set l1" "demand = demandOf (pcName pc) ls" using 3(4) by auto
    let ?r1 = "r0 + shortfall ds (pcName pc) ls"
    have "within A l1 (reserveLoop (traced k) ns all pcs ?r1) (\<lambda>r l'. writesIn l' = writesIn l \<and>
        (\<forall>x. r = Inr x \<longrightarrow> (\<exists>y. reservedIn l' ns ds (pc # pcs) y \<and> x = r0 + y)))"
    proof (rule within_conseq [OF readingD [OF Cons.IH 3(2)]], goal_cases)
      case (1 r l')
      have "reservedIn l' ns ds (pc # pcs) (shortfall ds (pcName pc) ls + y)" if "reservedIn l' ns ds pcs y" for y
      proof -
        from that obtain lss where lss: "list_all2 (\<lambda>pc ls. ActListDeviceLeases ns (Inr ls) \<in> set l') pcs lss"
          "y = sum_list (map2 (\<lambda>pc ls. shortfall ds (pcName pc) ls) pcs lss)" unfolding reservedIn_def by blast
        then show ?thesis
          using prefix_in [OF 1(1) ls(1)] unfolding reservedIn_def
          by (intro exI [of _ "ls # lss"]) simp
      qed
      then show ?case using 1 3(4) by (metis add.assoc)
    qed
    moreover have "(let supply = unclaimedSupply all (pcName pc)
       in if supply <s demand then reserveLoop (traced k) ns all pcs (r0 + (demand - supply))
          else reserveLoop (traced k) ns all pcs r0) = reserveLoop (traced k) ns all pcs ?r1"
      by (simp add: Let_def shortfall_def ls(2) assms)
    ultimately show ?case by simp
  qed simp_all
qed

end

lemma creates_append [simp]: "creates (h @ [ActCreateDevice x r]) = Suc (creates h)"
  by (simp add: creates_def)

lemma creates_reads: "writesIn h' = writesIn h \<Longrightarrow> creates h' = creates h"
  by (simp add: creates_def)

lemma within_createDevice:
  assumes l: "obeys (poolMay k) l" and pool: "poolRead l = Some pool" and b: "budgetIn l pool ds b"
    and room: "fitsBudget l ds b"
    and pc: "pc \<in> set (dpsClasses (poolSpec pool))" "ActGetDeviceClass (pcName pc) (Inr dc) \<in> set l"
      "of_nat (length (activeOf (pcName pc) ds)) <s pcMinWarm pc"
  shows "within (poolMay k) l (createDevice (traced k) pool dc) (\<lambda>r l'. r = Inr () \<longrightarrow> creates l' = Suc (creates l))"
proof (cases "setControllerReference k ''DevicePool'' (poolMeta pool) (devMeta (newPoolDevice pool dc))")
  case (Inl e)
  then show ?thesis using l by (auto simp: createDevice_def tryE_def intro!: within_intro)
next
  case (Inr m)
  have "mayFill k l pool (setDeviceMeta m (newPoolDevice pool dc))" using b room pc Inr unfolding mayFill_def by blast
  then have "poolMay k l (ActCreateDevice (setDeviceMeta m (newPoolDevice pool dc)) r)" for r
    using pool by (simp add: poolMay_def)
  then show ?thesis using l Inr
    by (auto simp: createDevice_def Let_def tryE_def intro!: within_bind [OF within_call [where I = "\<lambda>_ l'. creates l' = Suc (creates l)"]]
        within_intro split: sum.split)
qed

lemma within_warmLoop:
  assumes "obeys (poolMay k) l" and "poolRead l = Some pool" and "budgetIn l pool ds b"
    and "pc \<in> set (dpsClasses (poolSpec pool))" and "ActGetDeviceClass (pcName pc) (Inr dc) \<in> set l"
    and "countsTotal l ds tot"
    and "n <s pcMinWarm pc \<Longrightarrow> of_nat (length (activeOf (pcName pc) ds)) <s pcMinWarm pc"
  shows "within (poolMay k) l (warmLoop (traced k) pool dc (pcMinWarm pc) b n tot)
     (\<lambda>r l'. \<forall>tot'. r = Inr tot' \<longrightarrow> countsTotal l' ds tot')"
  using assms
proof (induction "nat (sint (pcMinWarm pc) - sint n)" arbitrary: n tot l rule: less_induct)
  case less
  show ?case
  proof (cases "n <s pcMinWarm pc \<and> tot <s b")
    case True
    have dec: "nat (sint (pcMinWarm pc) - sint (n + 1)) < nat (sint (pcMinWarm pc) - sint n)"
    proof -
      have "sint (n + 1) = sint n + 1" using True sint32_incr by blast
      then show ?thesis using True by (simp add: word_sless_alt)
    qed
    have "within (poolMay k) l (tryE (createDevice (traced k) pool dc)
        (\<lambda>_. warmLoop (traced k) pool dc (pcMinWarm pc) b (n + 1) (tot + 1)))
       (\<lambda>r l'. \<forall>tot'. r = Inr tot' \<longrightarrow> countsTotal l' ds tot')"
    proof (rule within_tryE [OF within_createDevice [OF less.prems(1,2,3) _ less.prems(4,5)]], goal_cases)
      case (4 u l1)
      show ?case
      proof (rule less.hyps [OF dec 4(1)])
        have "sint (tot + 1) = sint tot + 1" using True sint32_incr by blast
        then show "countsTotal l1 ds (tot + 1)" using less.prems(6) 4(3) by (simp add: countsTotal_def)
        show "of_nat (length (activeOf (pcName pc) ds)) <s pcMinWarm pc" using less.prems(7) True by blast
      qed (use pseen [OF 4(2)] less.prems in blast)+
    qed (use less.prems True in \<open>auto simp: fitsBudget_def countsTotal_def word_sless_alt\<close>)
    then show ?thesis using True by (subst warmLoop.simps) simp
  next
    case False
    then show ?thesis using less.prems by (subst warmLoop.simps) (auto intro: within_ret)
  qed
qed

lemma within_warmClasses:
  assumes "obeys (poolMay k) l" and "poolRead l = Some pool" and "budgetIn l pool ds b"
    and "set pcs \<subseteq> set (dpsClasses (poolSpec pool))" and "countsTotal l ds tot"
  shows "within (poolMay k) l (warmClasses (traced k) pool (groupByClass ds) b pcs tot miss) (\<lambda>_ _. True)"
  using assms
proof (induction pcs arbitrary: l tot miss)
  case Nil
  then show ?case by (auto intro: within_ret)
next
  case (Cons pc pcs)
  show ?case unfolding warmClasses.simps traced_simps
  proof (rule within_bind [OF pp.within_readCall [OF Cons.prems(1)]], simp, goal_cases)
    case (1 r l1)
    have l1: "poolRead l1 = Some pool" "budgetIn l1 pool ds b" using pseen [OF 1(2)] Cons.prems(2,3) by blast+
    have tot1: "countsTotal l1 ds tot"
      using Cons.prems(5) creates_reads [of l1 l] 1(3) by (simp add: countsTotal_def)
    show ?case
    proof (cases r)
      case (Inl e)
      then show ?thesis using 1(1) Cons.IH [OF 1(1) l1 _ tot1] Cons.prems(4)
        by (cases e) (auto intro!: within_intro)
    next
      case (Inr dc)
      have dc: "ActGetDeviceClass (pcName pc) (Inr dc) \<in> set l1" using 1(3) Inr by simp
      show ?thesis unfolding Inr sum.case
      proof (rule within_tryE [OF within_warmLoop [OF 1(1) l1 _ dc tot1]], goal_cases)
        case (4 tot' l2)
        then show ?case using pseen [OF 4(2)] l1 Cons.prems(4) by (intro Cons.IH) auto
      qed (use Cons.prems(4) in \<open>simp_all add: classDevices_group\<close>)
    qed
  qed
qed

lemma within_updatePoolStatus:
  assumes l: "obeys (poolMay k) l" and pool: "poolRead l = Some pool"
  shows "within (poolMay k) l (updatePoolStatus (traced k) pool miss) (\<lambda>_ _. True)"
  unfolding updatePoolStatus_def traced_simps
proof (rule within_tryE [OF pp.within_readCall [OF l]], simp, simp, goal_cases)
  case (1 ds l1)
  have "poolMay k l1 (ActUpdateDevicePoolStatus (pool\<lparr>poolStatus := \<lparr> dptPerClass = computeCounts (dpsClasses (poolSpec pool)) ds,
      dptConditions = conds \<rparr>\<rparr>) r)" for conds r
    using pseen [OF 1(2)] pool 1(3) by (auto simp: poolMay_def mayTally_def)
  then show ?case using 1(1)
    by (auto intro!: within_bind [where I = "\<lambda>_ l'. l' = l1"] within_tryE [where I = "\<lambda>_ _. True"] within_intro)
qed

lemma pool_run_obeys: "within (poolMay k) [] (poolReconcile (traced k) key) (\<lambda>_ _. True)"
  unfolding poolReconcile_def traced_simps
proof (rule within_bind [OF pp.within_readCall], simp, simp, goal_cases)
  case (1 r l)
  show ?case
  proof (cases r)
    case (Inl e)
    then show ?thesis using 1 by (auto intro!: within_intro split: goError.split)
  next
    case (Inr pool)
    have l: "poolRead l = Some pool" and none: "creates l = 0" using 1(3) Inr by (simp_all add: poolRead_def creates_def)
    show ?thesis unfolding Inr sum.case
    proof (rule within_tryE [OF readingD [OF pp.reading_activeDevicesByClass 1(1)]], simp, goal_cases)
      case (1 m l1)
      then obtain ds where ds: "m = groupByClass ds"
        "ActListDevices (mNamespace (poolMeta pool)) [(LabelPool, mName (poolMeta pool))] (Inr ds) \<in> set l1" by blast
      have l1: "poolRead l1 = Some pool" using poolRead_mono [OF 1(2) l] .
      have none1: "creates l1 = 0" using none creates_reads [of l1 l] 1(3) by simp
      show ?case unfolding ds(1) totalDevices_group Let_def prod.case
      proof (rule within_tryE [OF readingD [OF pp.reading_reserveLoop [OF unclaimedSupply_group] 1(1)]], simp, goal_cases)
        case (1 reserved l2)
        have l2: "poolRead l2 = Some pool" using poolRead_mono [OF 1(2) l1] .
        have none2: "creates l2 = 0" using none1 creates_reads [of l2 l1] 1(3) by simp
        have b2: "budgetIn l2 pool ds (dpsMaxConcurrent (poolSpec pool) - reserved)"
          using prefix_in [OF 1(2) ds(2)] 1(3) unfolding budgetIn_def by auto
        show ?case
        proof (rule within_tryE [OF within_warmClasses [OF 1(1) l2 b2 order_refl]], goal_cases)
          case (3 miss l3)
          then show ?case using pseen [OF 3(2)] l2
            by (auto intro!: within_tryE [OF within_updatePoolStatus] within_intro)
        qed (simp_all add: none2 countsTotal_def sint32_of_nat)
      qed
    qed
  qed
qed

end
