(* ===== verification/Pool_Properties.thy ===== *)
theory Pool_Properties
  imports Pool_Safety Demo
begin

text \<open>
  The properties of the DevicePool controller: its budget, its warm loop, its tally and what its
  runs may write.
\<close>

lemma pool_write:
  assumes "traceOf (poolReconcile (traced k) key) w = h @ a # t" and "\<not> isRead a"
  obtains pool where "poolRead h = Some pool"
    and "case a of ActCreateDevice x _ \<Rightarrow> mayFill k h pool x
           | ActUpdateDevicePoolStatus x _ \<Rightarrow> mayTally h pool x
           | _ \<Rightarrow> False"
proof -
  have "poolMay k h a" by (rule obeys_split [OF within_obeys [OF pool_run_obeys] assms(1)])
  then show ?thesis using assms(2) that unfolding poolMay_def by (auto split: option.splits)
qed

subsection \<open>The budget\<close>

definition shortage :: "Device list \<Rightarrow> string \<Rightarrow> DeviceLease list \<Rightarrow> nat" where
  \<comment> \<open>by how much the leases waiting for a class outnumber the devices that can serve them\<close>
  "shortage ds c ls = length (filter (unsatisfied c) ls) - length (filter (claimable c) ds)"

lemma shortfall_shortage:
  assumes "length ds < 2 ^ 31" and "length ls < 2 ^ 31"
  shows "shortfall ds c ls = of_nat (shortage ds c ls)"
proof -
  have "length (filter (claimable c) ds) < 2 ^ 31" "length (filter (unsatisfied c) ls) < 2 ^ 31"
    using assms length_filter_le le_less_trans by blast+
  then show ?thesis
    by (simp add: shortfall_def shortage_def unclaimedSupply_count demandOf_count sless_of_nats of_nat_diff)
qed

lemma nat_below: "int n \<le> b \<Longrightarrow> b < 2 ^ 31 \<Longrightarrow> n < 2 ^ 31"
  by simp

lemma reserved_shortages:
  assumes "list_all2 (\<lambda>pc ls. ActListDeviceLeases ns (Inr ls) \<in> set h) pcs lss"
    and "listedWithin b h" and "b < 2 ^ 31" and "length ds < 2 ^ 31"
  shows "sum_list (map2 (\<lambda>pc ls. shortfall ds (pcName pc) ls) pcs lss)
      = of_nat (sum_list (map2 (\<lambda>pc ls. shortage ds (pcName pc) ls) pcs lss)) \<and>
    int (sum_list (map2 (\<lambda>pc ls. shortage ds (pcName pc) ls) pcs lss)) \<le> int (length pcs) * b"
  using assms(1)
proof (induction rule: list_all2_induct)
  case (Cons pc pcs ls lss)
  have ls: "int (length ls) \<le> b" using listedWithinD(2) [OF assms(2) Cons(1)] .
  then have "length ls < 2 ^ 31" using assms(3) by (rule nat_below)
  then have "shortfall ds (pcName pc) ls = of_nat (shortage ds (pcName pc) ls)"
    by (rule shortfall_shortage [OF assms(4)])
  moreover have "int (shortage ds (pcName pc) ls) \<le> b"
  proof -
    have "shortage ds (pcName pc) ls \<le> length ls"
      unfolding shortage_def using length_filter_le [of "unsatisfied (pcName pc)" ls] by linarith
    then show ?thesis using ls by linarith
  qed
  ultimately show ?case using Cons(3) by (simp add: algebra_simps)
qed simp

text \<open>C18: A pool creates a device only while its active devices, the ones the run has already created,
  and the shortage of every class (leases waiting beyond the devices that can serve them) together
  stay below \<open>maxConcurrent\<close>, and only for one of its classes that had fewer active devices than
  \<open>minWarm\<close>. The bound on list lengths keeps the 32-bit sums from wrapping.\<close>

theorem pool_fills_within_budget:
  assumes "traceOf (poolReconcile (traced k) key) w = h @ ActCreateDevice x r # t"
    and "listedWithin b h" and "b < 2 ^ 31"
    and "\<forall>pool. poolRead h = Some pool \<longrightarrow> validPoolSpec (poolSpec pool) \<and> int (length (dpsClasses (poolSpec pool))) * b < 2 ^ 31"
  shows "\<exists>pool ds lss pc dc. poolRead h = Some pool \<and>
    ActListDevices (mNamespace (poolMeta pool)) [(LabelPool, mName (poolMeta pool))] (Inr ds) \<in> set h \<and>
    list_all2 (\<lambda>pc ls. ActListDeviceLeases (mNamespace (poolMeta pool)) (Inr ls) \<in> set h) (dpsClasses (poolSpec pool)) lss \<and>
    int (length (filter (\<lambda>d. \<not> devTerminating d) ds)) + int (creates h) +
      int (sum_list (map2 (\<lambda>pc ls. shortage ds (pcName pc) ls) (dpsClasses (poolSpec pool)) lss))
      < sint (dpsMaxConcurrent (poolSpec pool)) \<and>
    pc \<in> set (dpsClasses (poolSpec pool)) \<and> int (length (activeOf (pcName pc) ds)) < sint (pcMinWarm pc) \<and>
    ActGetDeviceClass (pcName pc) (Inr dc) \<in> set h \<and> devSpec x = devSpec (newPoolDevice pool dc)"
proof -
  obtain pool where pool: "poolRead h = Some pool" and may: "mayFill k h pool x"
    using pool_write [OF assms(1)] by auto
  let ?pcs = "dpsClasses (poolSpec pool)" and ?max = "dpsMaxConcurrent (poolSpec pool)"
  from may obtain ds bud pc dc m where *: "budgetIn h pool ds bud" "fitsBudget h ds bud" "pc \<in> set ?pcs"
      "ActGetDeviceClass (pcName pc) (Inr dc) \<in> set h" "of_nat (length (activeOf (pcName pc) ds)) <s pcMinWarm pc"
      "x = setDeviceMeta m (newPoolDevice pool dc)"
    unfolding mayFill_def by blast
  from *(1) obtain lss where ds: "ActListDevices (mNamespace (poolMeta pool)) [(LabelPool, mName (poolMeta pool))] (Inr ds) \<in> set h"
    and lss: "list_all2 (\<lambda>pc ls. ActListDeviceLeases (mNamespace (poolMeta pool)) (Inr ls) \<in> set h) ?pcs lss"
    and bud: "bud = ?max - sum_list (map2 (\<lambda>pc ls. shortfall ds (pcName pc) ls) ?pcs lss)"
    unfolding budgetIn_def reservedIn_def by blast
  let ?N = "sum_list (map2 (\<lambda>pc ls. shortage ds (pcName pc) ls) ?pcs lss)"
  have len: "length ds < 2 ^ 31" using listedWithinD(1) [OF assms(2) ds] assms(3) by (rule nat_below)
  have sums: "bud = ?max - of_nat ?N" "int ?N \<le> int (length ?pcs) * b"
    using reserved_shortages [OF lss assms(2,3) len] bud by simp_all
  have "int (length ?pcs) * b < 2 ^ 31" using assms(4) pool by simp
  then have N: "bud = ?max - of_nat ?N" "?N < 2 ^ 31"
    using sums by (simp, blast intro: nat_below)
  have valid: "1 \<le> sint ?max" using assms(4) pool by (simp add: validPoolSpec_def)
  have "sint bud = sint ?max - int ?N"
    using N valid sint32_range [of ?max] sint32_of_nat [OF N(2)] sint32_diff [of ?max "of_nat ?N"] by simp
  moreover have act: "length (activeDevices ds) < 2 ^ 31" "length (activeOf (pcName pc) ds) < 2 ^ 31"
    using len length_filter_le le_less_trans unfolding activeDevices_filter activeOf_def by blast+
  then have "int (length (activeDevices ds) + creates h) < sint bud"
    using *(2) by (simp add: fitsBudget_def)
  ultimately have "int (length (filter (\<lambda>d. \<not> devTerminating d) ds)) + int (creates h) + int ?N < sint ?max"
    by (simp add: activeDevices_filter)
  moreover have "int (length (activeOf (pcName pc) ds)) < sint (pcMinWarm pc)"
    using *(5) act(2) by (simp add: sless_of_nat)
  moreover have "devSpec x = devSpec (newPoolDevice pool dc)" using *(6) by (simp add: setDeviceMeta_def)
  ultimately show ?thesis using pool ds lss *(3,4) by blast
qed

definition demoPending :: cluster where
  \<comment> \<open>room for three devices; one pixel is kept warm, two leases wait for a tablet\<close>
  "demoPending = demoCluster (demoPool 3 [(''pixel'', 2), (''tablet'', 0)])
     [] [demoLease ''l1'' ''tablet'' LeasePending [] None, demoLease ''l2'' ''tablet'' LeasePending [] None]"

lemma pool_fills_within_budget_witness:
  "\<exists>h x r t pool. traceOf (poolReconcile (traced mem) (''ns'', ''pool'')) demoPending = h @ ActCreateDevice x r # t \<and>
     poolRead h = Some pool \<and> int (creates h) < sint (dpsMaxConcurrent (poolSpec pool))"
proof -
  let ?t = "traceOf (poolReconcile (traced mem) (''ns'', ''pool'')) demoPending"
  have "someCall deviceCreation (\<lambda>_. True) ?t" by code_simp
  then obtain h x r t where *: "?t = h @ ActCreateDevice x r # t" using some_deviceCreation by blast
  have "listedWithin 10 ?t" by code_simp
  then have short: "listedWithin 10 h" unfolding * by (rule listedWithin_prefix)
  have "case poolRead ?t of Some p \<Rightarrow> validPoolSpec (poolSpec p) \<and> int (length (dpsClasses (poolSpec p))) * 10 < 2 ^ 31 | None \<Rightarrow> True"
    by code_simp
  then have "\<forall>pool. poolRead h = Some pool \<longrightarrow> validPoolSpec (poolSpec pool) \<and> int (length (dpsClasses (poolSpec pool))) * 10 < 2 ^ 31"
    using poolRead_mono [of h ?t] * by auto
  then show ?thesis using pool_fills_within_budget [OF * short] * by fastforce
qed

subsection \<open>The warm loop\<close>

definition createsFor :: "DevicePool \<Rightarrow> DeviceClass \<Rightarrow> action \<Rightarrow> bool" where
  "createsFor pool dc a \<longleftrightarrow> (case a of ActCreateDevice x _ \<Rightarrow> devSpec x = devSpec (newPoolDevice pool dc) | _ \<Rightarrow> False)"

definition warmed :: "DevicePool \<Rightarrow> DeviceClass \<Rightarrow> int \<Rightarrow> int32 \<Rightarrow> goError + int32 \<Rightarrow> action list \<Rightarrow> bool" where
  \<comment> \<open>at most \<open>n\<close> devices of the class were created; exactly \<open>n\<close>, and counted, unless a call failed\<close>
  "warmed pool dc n tot r t \<longleftrightarrow> int (length t) \<le> n \<and> list_all (createsFor pool dc) t \<and>
     (case r of Inl _ \<Rightarrow> True | Inr tot' \<Rightarrow> int (length t) = n \<and> sint tot' = sint tot + n)"

lemma createDevice_lwp:
  assumes "\<And>e. Q (Inl e) l" and "\<And>x e. createsFor pool dc (ActCreateDevice x (Inl e)) \<Longrightarrow> Q (Inl e) (l @ [ActCreateDevice x (Inl e)])"
    and "\<And>x d. createsFor pool dc (ActCreateDevice x (Inr d)) \<Longrightarrow> Q (Inr ()) (l @ [ActCreateDevice x (Inr d)])"
  shows "lwp (createDevice (traced k) pool dc) Q l"
  unfolding createDevice_def Let_def
  by (auto intro!: lwp_intro assms simp: createsFor_def setDeviceMeta_def split: sum.split)

lemma warmLoop_lwp:
  "lwp (warmLoop (traced k) pool dc mw b n tot)
     (\<lambda>r l'. \<exists>t. l' = l @ t \<and> warmed pool dc (max 0 (min (sint mw - sint n) (sint b - sint tot))) tot r t) l"
proof (induction "nat (sint mw - sint n)" arbitrary: n tot l rule: less_induct)
  case less
  show ?case
  proof (cases "n <s mw \<and> tot <s b")
    case True
    then have inc: "sint (n + 1) = sint n + 1" "sint (tot + 1) = sint tot + 1" using sint32_incr by blast+
    then have dec: "nat (sint mw - sint (n + 1)) < nat (sint mw - sint n)" using True by (simp add: word_sless_alt)
    let ?m = "max 0 (min (sint mw - sint n) (sint b - sint tot))"
    have m: "max 0 (min (sint mw - sint (n + 1)) (sint b - sint (tot + 1))) = ?m - 1" "1 \<le> ?m"
      using True inc by (auto simp: word_sless_alt)
    have step: "lwp (warmLoop (traced k) pool dc mw b (n + 1) (tot + 1))
       (\<lambda>r l'. \<exists>t. l' = l @ t \<and> warmed pool dc ?m tot r t) (l @ [a])" if "createsFor pool dc a" for a
    proof (rule lwp_conseq [OF less [OF dec]])
      fix r l'
      assume "\<exists>t. l' = (l @ [a]) @ t \<and> warmed pool dc (max 0 (min (sint mw - sint (n + 1)) (sint b - sint (tot + 1)))) (tot + 1) r t"
      then obtain t where t: "l' = l @ a # t" "warmed pool dc (?m - 1) (tot + 1) r t" unfolding m by auto
      then have "warmed pool dc ?m tot r (a # t)"
        using that m(2) inc(2) unfolding warmed_def by (cases r) simp_all
      with t(1) show "\<exists>t. l' = l @ t \<and> warmed pool dc ?m tot r t" by blast
    qed
    have "lwp (tryE (createDevice (traced k) pool dc) (\<lambda>_. warmLoop (traced k) pool dc mw b (n + 1) (tot + 1)))
       (\<lambda>r l'. \<exists>t. l' = l @ t \<and> warmed pool dc ?m tot r t) l"
      by (rule lwp_tryE, rule createDevice_lwp) (use m(2) step in \<open>auto simp: warmed_def\<close>)
    then show ?thesis using True by (subst warmLoop.simps) simp
  next
    case False
    then have "max 0 (min (sint mw - sint n) (sint b - sint tot)) = 0" by (auto simp: word_sless_alt)
    then show ?thesis using False by (subst warmLoop.simps) (auto intro!: lwp_ret simp: warmed_def)
  qed
qed

text \<open>C22: The warm loop of a class ends after creating exactly as many devices of the class as are
  missing to \<open>minWarm\<close> or fit in the budget, whichever is fewer, and returns the total raised by
  that many; when a call fails it has created no more than that. No counter wraps, whatever the
  32-bit values it starts from.\<close>

theorem warmLoop_creates_exactly:
  "int (length (traceOf (warmLoop (traced k) pool dc minWarm budget have0 tot) w)) \<le>
     max 0 (min (sint minWarm - sint have0) (sint budget - sint tot)) \<and>
   list_all (createsFor pool dc) (traceOf (warmLoop (traced k) pool dc minWarm budget have0 tot) w) \<and>
   (case resultOf (warmLoop (traced k) pool dc minWarm budget have0 tot) w of
      Inl _ \<Rightarrow> True
    | Inr tot' \<Rightarrow>
        int (length (traceOf (warmLoop (traced k) pool dc minWarm budget have0 tot) w)) =
          max 0 (min (sint minWarm - sint have0) (sint budget - sint tot)) \<and>
        sint tot' = sint tot + max 0 (min (sint minWarm - sint have0) (sint budget - sint tot)))"
  using lwp_trace [OF warmLoop_lwp, of k pool dc minWarm budget have0 tot w] by (auto simp: warmed_def)

subsection \<open>Nothing else is written\<close>

fun reportsPool :: "action \<Rightarrow> bool" where
  "reportsPool (ActUpdateDevicePoolStatus _ _) = True"
| "reportsPool _ = False"

text \<open>A pool run only reads, creates devices and reports the pool's status: it never deletes or
  changes a device, whatever the state of the pool, and touches no lease, pod, Service or Job.\<close>

theorem pool_never_deletes:
  "list_all (\<lambda>a. isRead a \<or> createsDevice a \<or> reportsPool a) (traceOf (poolReconcile (traced k) key) w)"
proof -
  have "isRead a \<or> createsDevice a \<or> reportsPool a" if mem: "a \<in> set (traceOf (poolReconcile (traced k) key) w)" for a
  proof (cases "isRead a")
    case False
    obtain h t where "traceOf (poolReconcile (traced k) key) w = h @ a # t" using mem by (meson split_list)
    then obtain pool where "case a of ActCreateDevice x _ \<Rightarrow> mayFill k h pool x
           | ActUpdateDevicePoolStatus x _ \<Rightarrow> mayTally h pool x
           | _ \<Rightarrow> False" by (rule pool_write [OF _ False])
    then show ?thesis by (cases a) auto
  qed simp
  then show ?thesis by (simp add: list_all_iff)
qed

subsection \<open>The tally\<close>


definition tallyOf :: "Device list \<Rightarrow> PoolClass \<Rightarrow> ClassCounts" where
  \<comment> \<open>the counts of one class, each the number of its devices in the phases the column stands for\<close>
  "tallyOf ds c = \<lparr> ccClass = pcName c,
     ccTotal = of_nat (length (filter (\<lambda>d. devClass d = pcName c) ds)),
     ccReady = of_nat (length (filter (\<lambda>d. devClass d = pcName c \<and> devPhase d = DeviceReady) ds)),
     ccLeased = of_nat (length (filter (\<lambda>d. devClass d = pcName c \<and> devPhase d = DeviceLeased) ds)),
     ccProvisioning = of_nat (length (filter (\<lambda>d. devClass d = pcName c \<and> devPhase d \<notin> {DeviceReady, DeviceLeased}) ds)) \<rparr>"

lemma classIndex_notin: "c \<notin> set (map pcName cs) \<Longrightarrow> classIndex cs n idx c = idx c"
  by (induction cs arbitrary: n idx) auto

lemma classIndex_nth:
  "distinct (map pcName cs) \<Longrightarrow> i < length cs \<Longrightarrow> classIndex cs n idx (pcName (cs ! i)) = Some (n + i)"
proof (induction cs arbitrary: n idx i)
  case (Cons c cs)
  then show ?case by (cases i) (auto simp: classIndex_notin)
qed simp

lemma tallyOf_snoc:
  "tallyOf (ds @ [d]) c = (if devClass d = pcName c then bumpCounts (devPhase d) (tallyOf ds c) else tallyOf ds c)"
  by (cases "devPhase d") (auto simp: tallyOf_def bumpCounts_def Let_def)

lemma countStep_tally:
  assumes "distinct (map pcName cs)"
  shows "countStep (classIndex cs 0 Map.empty) (map (tallyOf ds) cs) d = map (tallyOf (ds @ [d])) cs"
proof (cases "devClass d \<in> set (map pcName cs)")
  case False
  then show ?thesis by (auto simp: countStep_def classIndex_notin tallyOf_snoc)
next
  case True
  then obtain i where i: "i < length cs" "devClass d = pcName (cs ! i)" by (auto simp: in_set_conv_nth)
  have at: "devClass d = pcName (cs ! j) \<longleftrightarrow> j = i" if "j < length cs" for j
    using assms i that by (metis length_map nth_eq_iff_index_eq nth_map)
  have idx: "classIndex cs 0 Map.empty (devClass d) = Some i"
    using classIndex_nth [OF assms i(1), of 0 Map.empty] i(2) by simp
  show ?thesis
    by (rule nth_equalityI) (simp_all add: countStep_def idx tallyOf_snoc nth_list_update i(1) at)
qed

text \<open>C29: For a pool whose classes have distinct names, the tally lists each class once, in the order of
  the spec, with the numbers of its devices that are in any phase, Ready, Leased, and in any other
  phase (so Failed and Draining devices count as provisioning).\<close>

theorem computeCounts_tallies:
  assumes "distinct (map pcName classes)"
  shows "computeCounts classes ds = map (\<lambda>c. \<lparr> ccClass = pcName c,
     ccTotal = of_nat (length (filter (\<lambda>d. devClass d = pcName c) ds)),
     ccReady = of_nat (length (filter (\<lambda>d. devClass d = pcName c \<and> devPhase d = DeviceReady) ds)),
     ccLeased = of_nat (length (filter (\<lambda>d. devClass d = pcName c \<and> devPhase d = DeviceLeased) ds)),
     ccProvisioning = of_nat (length (filter (\<lambda>d. devClass d = pcName c \<and> devPhase d \<notin> {DeviceReady, DeviceLeased}) ds)) \<rparr>) classes"
proof -
  have "computeCounts classes ds = map (tallyOf ds) classes"
    unfolding computeCounts_def
  proof (induction ds rule: rev_induct)
    case Nil
    show ?case by (simp add: tallyOf_def emptyCounts_def)
  next
    case (snoc d ds)
    then show ?case by (simp add: countStep_tally [OF assms])
  qed
  then show ?thesis by (simp add: tallyOf_def [abs_def])
qed

lemma computeCounts_tallies_witness:
  "map (\<lambda>cc. (ccClass cc, ccTotal cc, ccReady cc, ccLeased cc, ccProvisioning cc))
     (computeCounts (dpsClasses (poolSpec (demoPool 5 [(''pixel'', 1), (''tablet'', 1)])))
        [demoDevice ''a'' ''pixel'' DeviceReady [], demoDevice ''b'' ''pixel'' DeviceLeased ''l'',
         demoDevice ''c'' ''pixel'' DeviceFailed [], demoDevice ''d'' ''phone'' DeviceReady []])
   = [(''pixel'', 3, 1, 1, 1), (''tablet'', 0, 0, 0, 0)]"
proof -
  have "distinct (map pcName (dpsClasses (poolSpec (demoPool 5 [(''pixel'', 1), (''tablet'', 1)]))))" by code_simp
  from computeCounts_tallies [OF this] show ?thesis by (simp add: demoPool_def demoDevice_def emptyDeviceStatus_def)
qed

lemma mset_concat_snd: "mset (concat (map snd m)) = (\<Sum>e \<in># mset m. mset (snd e))"
  by (induction m) auto

text \<open>What the pool computes from its devices grouped by class does not depend on the order in which
  Go iterates the map: any two orders give the same total and the same supply of every class, and
  for the grouping of a list of devices these are the number of its devices that are not
  terminating and the supply of the list itself.\<close>

theorem pool_totals_ignore_map_order:
  assumes "mset m = mset (groupByClass ds)"
  shows "fst (totalDevices m) = of_nat (length (filter (\<lambda>d. \<not> devTerminating d) ds)) \<and>
    unclaimedSupply (snd (totalDevices m)) c = unclaimedSupply ds c \<and>
    length (classDevices (groupByClass ds) c) = length (filter (\<lambda>d. \<not> devTerminating d \<and> devClass d = c) ds)"
proof -
  have "mset (concat (map snd m)) = mset (concat (map snd (groupByClass ds)))"
    by (simp only: mset_concat_snd assms)
  then have "length (concat (map snd m)) = length (concat (map snd (groupByClass ds)))"
    and "unclaimedSupply (concat (map snd m)) c = unclaimedSupply (concat (map snd (groupByClass ds))) c"
    by (rule mset_eq_length, rule unclaimedSupply_perm)
  moreover have "fst (totalDevices (groupByClass ds)) = of_nat (length (filter (\<lambda>d. \<not> devTerminating d) ds))"
    unfolding totalDevices_group by (simp add: activeDevices_filter)
  ultimately show ?thesis
    by (simp only: totalDevices_concat fst_conv snd_conv unclaimedSupply_group classDevices_group activeOf_def)
qed

lemma pool_totals_ignore_map_order_witness:
  "fst (totalDevices (rev (groupByClass [demoDevice ''a'' ''pixel'' DeviceReady [], demoDevice ''b'' ''tablet'' DeviceReady []]))) = 2"
  using pool_totals_ignore_map_order [of "rev (groupByClass [demoDevice ''a'' ''pixel'' DeviceReady [], demoDevice ''b'' ''tablet'' DeviceReady []])"
    "[demoDevice ''a'' ''pixel'' DeviceReady [], demoDevice ''b'' ''tablet'' DeviceReady []]"]
  by (simp add: demoDevice_def emptyMeta_def)

end
