(* ===== verification/Binding.thy ===== *)
theory Binding
  imports Lease_Properties Device_Properties Pool_Properties
begin

text \<open>
  Exclusive binding, across controllers. The device store with optimistic concurrency is a step
  relation over its contents and the versions it has ever served; the writes of the controllers are
  its only steps. Reads may be arbitrarily stale: a write may be based on any version ever served.
  The safety theorem is that \<open>leaseRef\<close> is handed from one lease to another only through the release
  by the first; the refinement theorem is that the runs of the three controllers write nothing that
  is not such a step.
\<close>

subsection \<open>The device store\<close>

definition devKey :: "Device \<Rightarrow> objectKey" where "devKey d = (devNamespace d, devName d)"

abbreviation devVersion :: "Device \<Rightarrow> nat" where "devVersion d \<equiv> mResourceVersion (devMeta d)"

record farm =
  stored :: "objectKey \<Rightarrow> Device option"
  versions :: "Device list"  \<comment> \<open>every version there has ever been\<close>

datatype event =
    Claim string objectKey   \<comment> \<open>a lease takes a device\<close>
  | Free string objectKey    \<comment> \<open>a lease gives its device up\<close>
  | Keep objectKey           \<comment> \<open>any other accepted write\<close>
  | Appear objectKey
  | Vanish objectKey

definition storeDevice :: "farm \<Rightarrow> Device \<Rightarrow> farm" where
  "storeDevice f d = f\<lparr>stored := (stored f)(devKey d \<mapsto> d), versions := d # versions f\<rparr>"

definition accepts :: "farm \<Rightarrow> Device \<Rightarrow> Device \<Rightarrow> bool" where
  \<comment> \<open>the store takes the write \<open>x\<close>, based on the stored version, and makes \<open>y\<close> of it\<close>
  "accepts f x y \<longleftrightarrow>
     (\<exists>d. stored f (devKey x) = Some d \<and> devVersion d = devVersion x) \<and>
     devKey y = devKey x \<and> devLeaseRef y = devLeaseRef x \<and> devVersion y \<notin> devVersion ` set (versions f)"

definition claimOf :: "string \<Rightarrow> Device list \<Rightarrow> Device \<Rightarrow> bool" where
  \<comment> \<open>the binding write of \<open>reconcilePending\<close> for a lease of name \<open>l\<close>, based on some version seen\<close>
  "claimOf l seen x \<longleftrightarrow> (\<exists>d \<in> set seen. \<exists>le used. freeAndReady d \<and> leaseName le = l \<and> x = boundDevice le used d)"

definition freeOf :: "string \<Rightarrow> Device list \<Rightarrow> Device \<Rightarrow> bool" where
  \<comment> \<open>the write of \<open>releaseDevice\<close> for a lease of name \<open>l\<close>\<close>
  "freeOf l seen x \<longleftrightarrow> (\<exists>d \<in> set seen. \<exists>now. devLeaseRef d = l \<and> x = releasedDevice now d)"

definition keepOf :: "Device list \<Rightarrow> Device \<Rightarrow> bool" where
  \<comment> \<open>a status write that leaves the binding as it was seen\<close>
  "keepOf seen x \<longleftrightarrow> (\<exists>d \<in> set seen. devLeaseRef x = devLeaseRef d \<and> devMeta x = devMeta d)"

inductive farmStep :: "farm \<Rightarrow> event \<Rightarrow> farm \<Rightarrow> bool" where
  claim: "claimOf l (versions f) x \<Longrightarrow> accepts f x y \<Longrightarrow> farmStep f (Claim l (devKey x)) (storeDevice f y)"
| free: "freeOf l (versions f) x \<Longrightarrow> accepts f x y \<Longrightarrow> farmStep f (Free l (devKey x)) (storeDevice f y)"
| keep: "keepOf (versions f) x \<Longrightarrow> accepts f x y \<Longrightarrow> farmStep f (Keep (devKey x)) (storeDevice f y)"
| edit: "stored f (devKey y) = Some d \<Longrightarrow> devLeaseRef y = devLeaseRef d \<Longrightarrow> devVersion y \<notin> devVersion ` set (versions f)
    \<Longrightarrow> farmStep f (Keep (devKey y)) (storeDevice f y)"
| appear: "stored f (devKey y) = None \<Longrightarrow> devLeaseRef y = [] \<Longrightarrow> devVersion y \<notin> devVersion ` set (versions f)
    \<Longrightarrow> farmStep f (Appear (devKey y)) (storeDevice f y)"
| vanish: "farmStep f (Vanish k) (f\<lparr>stored := (stored f)(k := None)\<rparr>)"

inductive_cases farmStepE: "farmStep f e f'"

inductive farmRun :: "farm \<Rightarrow> event list \<Rightarrow> farm \<Rightarrow> bool" where
  stop: "farmRun f [] f"
| step: "farmStep f e f1 \<Longrightarrow> farmRun f1 es f2 \<Longrightarrow> farmRun f (e # es) f2"

inductive_cases farmRunE: "farmRun f (e # es) f'"

subsection \<open>Versions identify contents\<close>

definition wellVersioned :: "farm \<Rightarrow> bool" where
  "wellVersioned f \<longleftrightarrow>
     (\<forall>k d. stored f k = Some d \<longrightarrow> d \<in> set (versions f) \<and> devKey d = k) \<and>
     (\<forall>d \<in> set (versions f). \<forall>e \<in> set (versions f). devVersion d = devVersion e \<longrightarrow> d = e)"

lemma wellVersioned_store:
  "wellVersioned f \<Longrightarrow> devVersion y \<notin> devVersion ` set (versions f) \<Longrightarrow> wellVersioned (storeDevice f y)"
  unfolding wellVersioned_def storeDevice_def by (auto simp: image_iff split: if_splits)

lemma wellVersioned_step: "farmStep f e f' \<Longrightarrow> wellVersioned f \<Longrightarrow> wellVersioned f'"
proof (induction rule: farmStep.induct)
  case (vanish f k)
  then show ?case by (auto simp: wellVersioned_def split: if_splits)
qed (simp_all add: wellVersioned_store accepts_def)

text \<open>An accepted write was based on the very version the store held.\<close>

lemma accepted_base:
  assumes "wellVersioned f" and "accepts f x y" and "d \<in> set (versions f)" and "devMeta x = devMeta d"
  shows "stored f (devKey x) = Some d"
proof -
  obtain e where e: "stored f (devKey x) = Some e" "devVersion e = devVersion x"
    using assms(2) unfolding accepts_def by blast
  then have "e \<in> set (versions f)" using assms(1) unfolding wellVersioned_def by blast
  then have "e = d" using assms(1,3,4) e(2) unfolding wellVersioned_def by auto
  then show ?thesis using e(1) by simp
qed

subsection \<open>Hand-over\<close>

definition heldBy :: "farm \<Rightarrow> objectKey \<Rightarrow> string \<Rightarrow> bool" where
  "heldBy f k l \<longleftrightarrow> l \<noteq> [] \<and> (\<exists>d. stored f k = Some d \<and> devLeaseRef d = l)"

lemma claim_simps [simp]:
  "devMeta (boundDevice le used d) = devMeta d" "devLeaseRef (boundDevice le used d) = leaseName le"
  "devMeta (releasedDevice now d) = devMeta d" "devLeaseRef (releasedDevice now d) = []"
  "devSpec (boundDevice le used d) = devSpec d" "devSpec (releasedDevice now d) = devSpec d"
  by (simp_all add: boundDevice_def releasedDevice_def)

lemma step_handover:
  assumes "farmStep f e f'" and "wellVersioned f" and "heldBy f k l" and "\<not> heldBy f' k l"
  shows "e = Free l k \<or> e = Vanish k"
  using assms
proof (cases rule: farmStep.cases)
  case (claim l' x y)
  then obtain d where d: "d \<in> set (versions f)" "freeAndReady d" "devMeta x = devMeta d"
    unfolding claimOf_def by auto
  then have "stored f (devKey x) = Some d" using accepted_base assms(2) claim(4) by blast
  then have "k \<noteq> devKey x" using assms(3) d(2) by (auto simp: heldBy_def freeAndReady_def)
  then show ?thesis using assms(3,4) claim by (auto simp: heldBy_def storeDevice_def accepts_def)
next
  case (free l' x y)
  then obtain d where d: "d \<in> set (versions f)" "devLeaseRef d = l'" "devMeta x = devMeta d"
    unfolding freeOf_def by auto
  then have "stored f (devKey x) = Some d" using accepted_base assms(2) free(4) by blast
  then show ?thesis using assms(3,4) free d(2) by (cases "k = devKey x") (auto simp: heldBy_def storeDevice_def accepts_def)
next
  case (keep x y)
  then obtain d where d: "d \<in> set (versions f)" "devLeaseRef x = devLeaseRef d" "devMeta x = devMeta d" unfolding keepOf_def by blast
  then have "stored f (devKey x) = Some d" using accepted_base assms(2) keep(4) by blast
  then show ?thesis using assms(3,4) keep d(2) by (cases "k = devKey x") (auto simp: heldBy_def storeDevice_def accepts_def)
qed (auto simp: heldBy_def storeDevice_def split: if_splits)

lemma run_handover:
  "farmRun f es f' \<Longrightarrow> wellVersioned f \<Longrightarrow> heldBy f k l \<Longrightarrow> \<not> heldBy f' k l \<Longrightarrow> Free l k \<in> set es \<or> Vanish k \<in> set es"
proof (induction rule: farmRun.induct)
  case (step f e f1 es f2)
  then show ?case
    using step_handover [OF step.hyps(1) step.prems(1,2)] wellVersioned_step [OF step.hyps(1) step.prems(1)]
    by (cases "heldBy f1 k l") auto
qed simp

text \<open>C5: Once a device is held by a lease, it comes to be held by another only after the first lease
  itself has released it (or the device was deleted and created anew), whatever stale versions the
  controllers' writes are based on and however they interleave: \<open>leaseRef\<close> is claimed only by writes
  \<open>boundDevice\<close> based on a version that was free and Ready.\<close>

theorem device_handed_over_only_by_release:
  assumes "farmRun f es f'" and "wellVersioned f" and "heldBy f k l1" and "heldBy f' k l2" and "l1 \<noteq> l2"
  shows "Free l1 k \<in> set es \<or> Vanish k \<in> set es"
proof -
  have "\<not> heldBy f' k l1" using assms(4,5) by (auto simp: heldBy_def)
  then show ?thesis using run_handover [OF assms(1,2,3)] by blast
qed

definition demoFarm :: farm where
  "demoFarm = storeDevice \<lparr> stored = Map.empty, versions = [] \<rparr>
     (demoDevice ''d1'' ''pixel'' DeviceReady ''l1'')"

definition atVersion :: "nat \<Rightarrow> Device \<Rightarrow> Device" where
  "atVersion v d = d\<lparr>devMeta := (devMeta d)\<lparr>mResourceVersion := v\<rparr>\<rparr>"

lemma device_handed_over_only_by_release_witness:
  "\<exists>es f'. farmRun demoFarm es f' \<and> heldBy f' (''ns'', ''d1'') ''l2'' \<and>
     (Free ''l1'' (''ns'', ''d1'') \<in> set es \<or> Vanish (''ns'', ''d1'') \<in> set es)"
proof -
  let ?d = "demoDevice ''d1'' ''pixel'' DeviceReady ''l1''" and ?le = "demoLease ''l2'' ''pixel'' LeasePending [] None"
  let ?y1 = "atVersion 1 (releasedDevice 5 ?d)"
  let ?f1 = "storeDevice demoFarm ?y1"
  let ?y2 = "atVersion 2 (boundDevice ?le 6 ?y1)"
  let ?f2 = "storeDevice ?f1 ?y2"
  have nm [simp]: "leaseName ?le = ''l2''" by (simp add: demoLease_def)
  have keys: "devKey ?d = (''ns'', ''d1'')" "devKey ?y1 = (''ns'', ''d1'')" "devKey ?y2 = (''ns'', ''d1'')"
    "devKey (releasedDevice 5 ?d) = (''ns'', ''d1'')" "devKey (boundDevice ?le 6 ?y1) = (''ns'', ''d1'')"
    by (simp_all add: devKey_def demoDevice_def atVersion_def)
  have refs: "devLeaseRef ?y1 = []" "devLeaseRef ?y2 = ''l2''" "devVersion ?y1 = 1" "devVersion ?y2 = 2" "devVersion ?d = 0"
    "devVersion (boundDevice ?le 6 ?y1) = 1" "devLeaseRef ?d = ''l1''"
    by (simp_all add: demoDevice_def atVersion_def demoLease_def emptyMeta_def)
  have "farmStep demoFarm (Free ''l1'' (devKey (releasedDevice 5 ?d))) ?f1"
  proof (rule farmStep.free)
    show "freeOf ''l1'' (versions demoFarm) (releasedDevice 5 ?d)"
      unfolding freeOf_def demoFarm_def storeDevice_def using refs by auto
    show "accepts demoFarm (releasedDevice 5 ?d) ?y1"
      using keys refs by (simp add: accepts_def demoFarm_def storeDevice_def)
  qed
  moreover have "farmStep ?f1 (Claim ''l2'' (devKey (boundDevice ?le 6 ?y1))) ?f2"
  proof (rule farmStep.claim)
    have "freeAndReady ?y1" by (simp add: freeAndReady_def atVersion_def demoDevice_def releasedDevice_def emptyMeta_def)
    moreover note nm
    moreover have "?y1 \<in> set (versions ?f1)" by (simp add: storeDevice_def)
    ultimately show "claimOf ''l2'' (versions ?f1) (boundDevice ?le 6 ?y1)"
      unfolding claimOf_def by blast
    show "accepts ?f1 (boundDevice ?le 6 ?y1) ?y2"
      using keys refs by (simp add: accepts_def demoFarm_def storeDevice_def)
  qed
  ultimately have run: "farmRun demoFarm [Free ''l1'' (''ns'', ''d1''), Claim ''l2'' (''ns'', ''d1'')] ?f2"
    unfolding keys by (blast intro: farmRun.intros)
  have well: "wellVersioned demoFarm" using keys by (simp add: wellVersioned_def demoFarm_def storeDevice_def)
  have h1: "heldBy demoFarm (''ns'', ''d1'') ''l1''" and h2: "heldBy ?f2 (''ns'', ''d1'') ''l2''"
    using keys refs by (simp_all add: heldBy_def demoFarm_def storeDevice_def)
  from device_handed_over_only_by_release [OF run well h1 h2] run h2 show ?thesis by blast
qed

subsection \<open>The controllers write nothing else\<close>

definition statusWrites :: "(action list \<Rightarrow> Device \<Rightarrow> bool) \<Rightarrow> policy" where
  \<comment> \<open>every device status written satisfies \<open>P\<close>, given the calls made before it\<close>
  "statusWrites P h a = (case a of ActUpdateDeviceStatus x _ \<Rightarrow> P h x | _ \<Rightarrow> True)"

definition claimsOrFrees :: "action list \<Rightarrow> Device \<Rightarrow> bool" where
  "claimsOrFrees h x \<longleftrightarrow>
     (\<exists>le. leaseRead h = Some le \<and> (claimOf (leaseName le) (served h) x \<or> freeOf (leaseName le) (served h) x))"

lemma statusWrites_obeyed:
  assumes "\<And>h x r u. t = h @ ActUpdateDeviceStatus x r # u \<Longrightarrow> P h x"
  shows "obeys (statusWrites P) t"
  by (rule obeysI) (auto simp: statusWrites_def split: action.split dest: assms)

lemma lease_claims_or_frees:
  assumes "traceOf (leaseReconcile (traced k) key) w = h @ ActUpdateDeviceStatus x r # u"
  shows "claimsOrFrees h x"
proof -
  obtain le where le: "leaseRead h = Some le" and "mayBind h le x \<or> mayFree k h le x"
    using lease_write [OF assms] by auto
  then consider (bind) "mayBind h le x" | (free) "mayFree k h le x" by blast
  then have "claimOf (leaseName le) (served h) x \<or> freeOf (leaseName le) (served h) x"
  proof cases
    case bind
    then obtain ds d used where "ActListDevices (leaseNamespace le) [(LabelClass, lsClassRef (leaseSpec le))] (Inr ds) \<in> set h"
      "d \<in> set ds" and d: "freeAndReady d" "x = boundDevice le used d" unfolding mayBind_def by blast
    from this(1,2) have "d \<in> set (served h)" by (force simp: served_def)
    with d show ?thesis unfolding claimOf_def by blast
  next
    case free
    then show ?thesis unfolding mayFree_def freedBy_def freeOf_def by blast
  qed
  with le show ?thesis unfolding claimsOrFrees_def by blast
qed

text \<open>C8: Every device status the three controllers write is a step of the device store: a lease run
  writes a claim or a release by the lease it read, a device run a write that keeps the binding, each
  based on a version the server gave the run; a pool run writes no device status at all.\<close>

theorem controllers_write_only_store_steps:
  "obeys (statusWrites claimsOrFrees) (traceOf (leaseReconcile (traced k) key) w) \<and>
   obeys (statusWrites (\<lambda>h. keepOf (served h))) (traceOf (deviceReconcile (traced k) key) w) \<and>
   obeys (statusWrites (\<lambda>_ _. False)) (traceOf (poolReconcile (traced k) key) w)"
proof (intro conjI statusWrites_obeyed)
  fix h x r u
  show "claimsOrFrees h x" if "traceOf (leaseReconcile (traced k) key) w = h @ ActUpdateDeviceStatus x r # u"
    by (rule lease_claims_or_frees [OF that])
  show "keepOf (served h) x" if "traceOf (deviceReconcile (traced k) key) w = h @ ActUpdateDeviceStatus x r # u"
    using device_write [OF that] by (auto simp: mayPhase_def keepOf_def)
  show False if "traceOf (poolReconcile (traced k) key) w = h @ ActUpdateDeviceStatus x r # u"
    using pool_write [OF that] by auto
qed

end
