(* ===== verification/Convergence.thy ===== *)
theory Convergence
  imports Lease_Properties Pool_Controller
begin

text \<open>
  What a lease run achieves when nothing interferes: against an API server that answers, whose lists
  are up to date and that accepts writes based on the stored version, one run binds a waiting lease to
  a device there is, recycles the device of an expired lease, and lets a deleted lease go. The server
  is an interface, \<open>api_server\<close>, over any world from which its devices and leases can be read off;
  the lease controller's lemmas are proved inside it, and the reference server provides it.
\<close>

subsection \<open>The interface\<close>

locale api_server =
  fixes k :: "'w kube" and devs :: "'w \<Rightarrow> Device list" and leases :: "'w \<Rightarrow> DeviceLease list"
  assumes get_lease: "run_state (apiGetDeviceLease k key) w = (getObj leaseMeta key (leases w), w)"
    and list_devices: "run_state (apiListDevices k ns sel) w =
      (Inr (filter (\<lambda>d. devNamespace d = ns \<and> matchesLabels sel (devMeta d)) (devs w)), w)"
    and clock: "\<exists>t. run_state (clockNow k) w = (t, w)"
    and conditions: "\<exists>b cs'. run_state (setStatusCondition k cs c) w = ((b, cs'), w)"
    and write_device: "getObj devMeta (keyOf (devMeta x)) (devs w) = Inr old \<Longrightarrow>
      mResourceVersion (devMeta x) = mResourceVersion (devMeta old) \<Longrightarrow>
      \<exists>y w'. run_state (apiUpdateDeviceStatus k x) w = (Inr y, w') \<and> keyOf (devMeta y) = keyOf (devMeta x) \<and>
        devLeaseRef y = devLeaseRef x \<and> leases w' = leases w \<and>
        set (devs w') \<subseteq> insert y {d \<in> set (devs w). keyOf (devMeta d) \<noteq> keyOf (devMeta x)} \<and>
        (\<not> devTerminating old \<longrightarrow> getObj devMeta (keyOf (devMeta x)) (devs w') = Inr y)"
    and write_lease: "getObj leaseMeta (keyOf (leaseMeta l)) (leases w) = Inr old_l \<Longrightarrow>
      mResourceVersion (leaseMeta l) = mResourceVersion (leaseMeta old_l) \<Longrightarrow> \<not> leaseTerminating old_l \<Longrightarrow>
      \<exists>z w'. run_state (apiUpdateDeviceLeaseStatus k l) w = (Inr z, w') \<and> devs w' = devs w \<and>
        getObj leaseMeta (keyOf (leaseMeta l)) (leases w') = Inr z \<and>
        leasePhase z = leasePhase l \<and> ltDeviceRef (leaseStatus z) = ltDeviceRef (leaseStatus l)"
    and drop_lease: "getObj leaseMeta (keyOf (leaseMeta l)) (leases w) = Inr old_l \<Longrightarrow>
      mResourceVersion (leaseMeta l) = mResourceVersion (leaseMeta old_l) \<Longrightarrow> leaseTerminating old_l \<Longrightarrow> mFinalizers (leaseMeta l) = [] \<Longrightarrow>
      \<exists>z w'. run_state (apiUpdateDeviceLease k l) w = (Inr z, w') \<and> devs w' = devs w \<and>
        getObj leaseMeta (keyOf (leaseMeta l)) (leases w') = Inl ErrNotFound"
    and delete_pod: "\<exists>r w'. run_state (apiDeletePod k key) w = (r, w') \<and> (r = Inr () \<or> r = Inl ErrNotFound) \<and>
      devs w' = devs w \<and> leases w' = leases w"
    and finalizer_list: "containsFinalizer k m f \<longleftrightarrow> f \<in> set (mFinalizers m)"
      "addFinalizer k m f = (if f \<in> set (mFinalizers m) then m else m\<lparr>mFinalizers := mFinalizers m @ [f]\<rparr>)"
      "removeFinalizer k m f = m\<lparr>mFinalizers := filter (\<lambda>g. g \<noteq> f) (mFinalizers m)\<rparr>"

sublocale api_server \<subseteq> finalizers "containsFinalizer k" "addFinalizer k" "removeFinalizer k"
  by unfold_locales (auto simp: finalizer_list)

lemma getObj_key: "getObj mt key xs = Inr x \<Longrightarrow> x \<in> set xs \<and> keyOf (mt x) = key"
  by (auto simp: getObj_def keyOf_def hasKey_def split: option.splits dest!: find_SomeD)

lemma getObj_distinct:
  "distinct (map (\<lambda>x. keyOf (mt x)) xs) \<Longrightarrow> x \<in> set xs \<Longrightarrow> getObj mt (keyOf (mt x)) xs = Inr x"
  by (induction xs) (force simp: getObj_def keyOf_def hasKey_def)+

definition storedIn :: "DeviceLease list \<Rightarrow> DeviceLease \<Rightarrow> bool" where
  "storedIn ls le \<longleftrightarrow> getObj leaseMeta (keyOf (leaseMeta le)) ls = Inr le"

definition heldOnce :: "Device list \<Rightarrow> DeviceLease \<Rightarrow> bool" where
  \<comment> \<open>at most one device of the lease's namespace carries its name\<close>
  "heldOnce ds le \<longleftrightarrow> leaseName le \<noteq> [] \<and> (\<forall>d \<in> set ds. \<forall>d' \<in> set ds. devNamespace d = leaseNamespace le \<longrightarrow> devLeaseRef d = leaseName le \<longrightarrow>
     devNamespace d' = leaseNamespace le \<longrightarrow> devLeaseRef d' = leaseName le \<longrightarrow> d = d')"

definition lettingGo :: "Device list \<Rightarrow> DeviceLease \<Rightarrow> bool" where
  \<comment> \<open>no device of the lease's namespace carries its name\<close>
  "lettingGo ds le \<longleftrightarrow> (\<forall>d \<in> set ds. devNamespace d = leaseNamespace le \<longrightarrow> devLeaseRef d \<noteq> leaseName le)"

definition givenOrFree :: "DeviceLease \<Rightarrow> Device \<Rightarrow> bool" where
  \<comment> \<open>the device already carries the lease's name (an interrupted run gave it), or is a Ready, free device of its class\<close>
  "givenOrFree le d \<longleftrightarrow> devLeaseRef d = leaseName le \<or>
     mLabels (devMeta d) LabelClass = Some (lsClassRef (leaseSpec le)) \<and> freeAndReady d"

subsection \<open>The lease controller against it\<close>

context api_server
begin

lemma writeStatus_stores:
  assumes "storedIn (leases w) le0" and "leaseMeta le = leaseMeta le0" and "\<not> leaseTerminating le0"
  shows "\<exists>y w'. run_state (writeStatus k le ph reason msg) w = (Inr (), w') \<and> devs w' = devs w \<and>
    getObj leaseMeta (keyOf (leaseMeta le)) (leases w') = Inr y \<and> leasePhase y = ph \<and>
    ltDeviceRef (leaseStatus y) = ltDeviceRef (leaseStatus le)"
proof -
  let ?st = "(leaseStatus le)\<lparr>ltPhase := ph\<rparr>"
  obtain b cs where c: "run_state (setStatusCondition k (ltConditions ?st) (boundCondition le ph reason msg)) w = ((b, cs), w)"
    using conditions by blast
  let ?x = "le\<lparr>leaseStatus := ?st\<lparr>ltConditions := cs\<rparr>\<rparr>"
  have "getObj leaseMeta (keyOf (leaseMeta ?x)) (leases w) = Inr le0" using assms by (simp add: storedIn_def)
  from write_lease [OF this] assms obtain y w' where
    "run_state (apiUpdateDeviceLeaseStatus k ?x) w = (Inr y, w')" "devs w' = devs w"
    "getObj leaseMeta (keyOf (leaseMeta le)) (leases w') = Inr y" "leasePhase y = ph"
    "ltDeviceRef (leaseStatus y) = ltDeviceRef (leaseStatus le)" by auto
  then show ?thesis using c by (simp add: writeStatus_def Let_def)
qed

lemma bound_run:
  assumes "storedIn (leases w) le" and "\<not> leaseTerminating le"
  shows "\<exists>res le' w'. run_state (finishBinding k le d) w = (Inr res, w') \<and> devs w' = devs w \<and>
    getObj leaseMeta (keyOf (leaseMeta le)) (leases w') = Inr le' \<and> leasePhase le' = LeaseBound \<and>
    ltDeviceRef (leaseStatus le') = devName d"
proof -
  obtain now where now: "run_state (clockNow k) w = (now, w)" using clock by blast
  let ?le = "boundLease le now d"
  have m: "leaseMeta ?le = leaseMeta le" "ltDeviceRef (leaseStatus ?le) = devName d" by (simp_all add: boundLease_def Let_def)
  obtain y w' where y: "run_state (writeStatus k ?le LeaseBound ''Bound'' (''bound to device '' @ devName d)) w = (Inr (), w')"
    "devs w' = devs w" "getObj leaseMeta (keyOf (leaseMeta le)) (leases w') = Inr y" "leasePhase y = LeaseBound"
    "ltDeviceRef (leaseStatus y) = devName d"
    using writeStatus_stores [OF assms(1) m(1) assms(2)] m by metis
  moreover obtain now' where "run_state (clockNow k) w' = (now', w')" using clock by blast
  ultimately show ?thesis using now by (simp add: finishBinding_def Let_def)
qed

lemma run_deviceBoundTo:
  "run_state (deviceBoundTo k le) w =
     (Inr (find (\<lambda>d. devLeaseRef d = leaseName le) (filter (\<lambda>d. devNamespace d = leaseNamespace le) (devs w))), w)"
  by (simp add: deviceBoundTo_def list_devices matchesLabels_def)

lemma run_freeReadyDevice:
  "run_state (freeReadyDevice k le) w =
     (Inr (find freeAndReady (filter (\<lambda>d. devNamespace d = leaseNamespace le \<and> mLabels (devMeta d) LabelClass = Some (lsClassRef (leaseSpec le))) (devs w))), w)"
  by (simp add: freeReadyDevice_def list_devices matchesLabels_def)

lemma lastUsed_stays: "\<exists>t. run_state (lastUsedOrNow k d) w = (t, w)"
  using clock by (auto simp: lastUsedOrNow_def split: option.splits)

lemma pending_run:
  assumes le: "storedIn (leases w) le" "\<not> leaseTerminating le"
    and keys: "distinct (map (\<lambda>d. keyOf (devMeta d)) (devs w))"
    and some: "\<exists>d \<in> set (devs w). devNamespace d = leaseNamespace le \<and> givenOrFree le d"
  shows "\<exists>res le' d d0 w'. run_state (reconcilePending k le) w = (Inr res, w') \<and>
    getObj leaseMeta (keyOf (leaseMeta le)) (leases w') = Inr le' \<and> leasePhase le' = LeaseBound \<and>
    d \<in> set (devs w') \<and> devNamespace d = leaseNamespace le \<and> ltDeviceRef (leaseStatus le') = devName d \<and> devLeaseRef d = leaseName le \<and>
    d0 \<in> set (devs w) \<and> keyOf (devMeta d0) = keyOf (devMeta d) \<and> givenOrFree le d0"
proof (cases "find (\<lambda>d. devLeaseRef d = leaseName le) (filter (\<lambda>d. devNamespace d = leaseNamespace le) (devs w))")
  case (Some d)
  then have "d \<in> set (devs w)" "devNamespace d = leaseNamespace le" "devLeaseRef d = leaseName le"
    by (auto dest: find_SomeD)
  with Some bound_run [OF le, of d] show ?thesis by (fastforce simp: reconcilePending_def run_deviceBoundTo givenOrFree_def)
next
  case None
  define free where "free = filter (\<lambda>d. devNamespace d = leaseNamespace le \<and> mLabels (devMeta d) LabelClass = Some (lsClassRef (leaseSpec le))) (devs w)"
  have "find freeAndReady free \<noteq> None"
    using some None by (auto simp: find_None_iff free_def givenOrFree_def)
  then obtain d where d: "find freeAndReady free = Some d" by blast
  then have mem: "d \<in> set (devs w)" "devNamespace d = leaseNamespace le" "\<not> devTerminating d" "givenOrFree le d"
    by (auto simp: free_def freeAndReady_def givenOrFree_def dest: find_SomeD)
  obtain used where used: "run_state (lastUsedOrNow k d) w = (used, w)" using lastUsed_stays by blast
  have "getObj devMeta (keyOf (devMeta (boundDevice le used d))) (devs w) = Inr d"
    using getObj_distinct [OF keys mem(1)] by (simp add: boundDevice_def)
  from write_device [OF this] mem(3) obtain y w1 where
    y: "run_state (apiUpdateDeviceStatus k (boundDevice le used d)) w = (Inr y, w1)" "keyOf (devMeta y) = keyOf (devMeta d)"
    "devLeaseRef y = leaseName le" "leases w1 = leases w" "y \<in> set (devs w1)"
    by (auto simp: boundDevice_def dest: getObj_key)
  obtain res le' w' where "run_state (finishBinding k le y) w1 = (Inr res, w')" "devs w' = devs w1"
    "getObj leaseMeta (keyOf (leaseMeta le)) (leases w') = Inr le'" "leasePhase le' = LeaseBound" "ltDeviceRef (leaseStatus le') = devName y"
    using bound_run [of w1 le y] le y(4) by auto
  moreover have "devNamespace y = leaseNamespace le" using y(2) mem(2) by (simp add: keyOf_def)
  ultimately show ?thesis using None d used y
    by (intro exI [of _ res] exI [of _ le'] exI [of _ y] exI [of _ d] exI [of _ w'])
      (simp add: reconcilePending_def run_deviceBoundTo run_freeReadyDevice free_def mem)
qed

lemma freed_device:
  assumes keys: "distinct (map (\<lambda>d. keyOf (devMeta d)) (devs w))" and once: "heldOnce (devs w) le"
    and d: "d \<in> set (devs w)" "devNamespace d = leaseNamespace le" "devLeaseRef d = leaseName le"
  shows "\<exists>y w1. run_state (apiUpdateDeviceStatus k (releasedDevice now d)) w = (Inr y, w1) \<and> leases w1 = leases w \<and> lettingGo (devs w1) le"
proof -
  have "getObj devMeta (keyOf (devMeta (releasedDevice now d))) (devs w) = Inr d"
    using getObj_distinct [OF keys d(1)] by (simp add: releasedDevice_def)
  from write_device [OF this] obtain y w1 where
    y: "run_state (apiUpdateDeviceStatus k (releasedDevice now d)) w = (Inr y, w1)" "devLeaseRef y = []" "leases w1 = leases w"
    "set (devs w1) \<subseteq> insert y {d' \<in> set (devs w). keyOf (devMeta d') \<noteq> keyOf (devMeta d)}"
    by (auto simp: releasedDevice_def)
  have "lettingGo (devs w1) le"
    unfolding lettingGo_def
  proof (intro ballI impI)
    fix x assume "x \<in> set (devs w1)" and ns: "devNamespace x = leaseNamespace le"
    then consider "x = y" | "x \<in> set (devs w)" "x \<noteq> d" using y(4) by blast
    then show "devLeaseRef x \<noteq> leaseName le"
    proof cases
      case 1
      then show ?thesis using y(2) once by (auto simp: heldOnce_def)
    next
      case 2
      then show ?thesis using once d ns unfolding heldOnce_def by blast
    qed
  qed
  with y show ?thesis by blast
qed

lemma release_run:
  assumes keys: "distinct (map (\<lambda>d. keyOf (devMeta d)) (devs w))" and once: "heldOnce (devs w) le"
  shows "\<exists>w'. run_state (releaseDevice k le) w = (Inr (), w') \<and> leases w' = leases w \<and> lettingGo (devs w') le"
proof (cases "find (\<lambda>d. devLeaseRef d = leaseName le) (filter (\<lambda>d. devNamespace d = leaseNamespace le) (devs w))")
  case None
  then have "lettingGo (devs w) le" by (auto simp: lettingGo_def find_None_iff)
  with None show ?thesis by (simp add: releaseDevice_def run_deviceBoundTo)
next
  case (Some d)
  then have d: "d \<in> set (devs w)" "devNamespace d = leaseNamespace le" "devLeaseRef d = leaseName le"
    by (auto dest: find_SomeD)
  obtain now where now: "run_state (clockNow k) w = (now, w)" using clock by blast
  obtain y w1 where y: "run_state (apiUpdateDeviceStatus k (releasedDevice now d)) w = (Inr y, w1)" "leases w1 = leases w" "lettingGo (devs w1) le"
    using freed_device [OF keys once d] by blast
  obtain r w2 where "run_state (apiDeletePod k (devNamespace y, emulatorPodName y)) w1 = (r, w2)"
    "r = Inr () \<or> r = Inl ErrNotFound" "devs w2 = devs w1" "leases w2 = leases w1" using delete_pod by blast
  then show ?thesis using Some now y by (auto simp: releaseDevice_def run_deviceBoundTo)
qed

lemma expired_run:
  assumes "storedIn (leases w) le" and "\<not> leaseTerminating le" and "ltLastHeartbeat (leaseStatus le) = Some hb"
    and "run_state (clockNow k) w = (now, w)" and "timeAdd hb (ttlDuration le) < now"
    and "distinct (map (\<lambda>d. keyOf (devMeta d)) (devs w))" and "heldOnce (devs w) le"
  shows "\<exists>le' w'. run_state (reconcileBound k le) w = (Inr emptyResult, w') \<and> lettingGo (devs w') le \<and>
    getObj leaseMeta (keyOf (leaseMeta le)) (leases w') = Inr le' \<and> leasePhase le' = LeaseExpired"
proof -
  have same: "withHeartbeat hb le = le" using assms(3) by (simp add: withHeartbeat_def)
  obtain w1 where w1: "run_state (releaseDevice k le) w = (Inr (), w1)" "leases w1 = leases w" "lettingGo (devs w1) le"
    using release_run [OF assms(6,7)] by blast
  then obtain y w' where "run_state (writeStatus k le LeaseExpired ''TTLExpired''
      ''lease expired without a heartbeat; device recycled'') w1 = (Inr (), w')"
    "devs w' = devs w1" "getObj leaseMeta (keyOf (leaseMeta le)) (leases w') = Inr y" "leasePhase y = LeaseExpired"
    using writeStatus_stores [of w1 le le] assms(1,2) by metis
  with w1 assms(3,4,5) show ?thesis by (simp add: reconcileBound_def heartbeatOrNow_def same Let_def)
qed

lemma deleted_run:
  assumes "storedIn (leases w) le" and "leaseTerminating le" and "mFinalizers (leaseMeta le) = [leaseFinalizer]"
    and "distinct (map (\<lambda>d. keyOf (devMeta d)) (devs w))" and "heldOnce (devs w) le"
  shows "\<exists>w'. run_state (reconcileDeleted k le) w = (Inr emptyResult, w') \<and> lettingGo (devs w') le \<and>
    getObj leaseMeta (keyOf (leaseMeta le)) (leases w') = Inl ErrNotFound"
proof -
  obtain w1 where w1: "run_state (releaseDevice k le) w = (Inr (), w1)" "leases w1 = leases w" "lettingGo (devs w1) le"
    using release_run [OF assms(4,5)] by blast
  let ?x = "setLeaseMeta (removeFinalizer k (leaseMeta le) leaseFinalizer) le"
  have m: "keyOf (leaseMeta ?x) = keyOf (leaseMeta le)" "mResourceVersion (leaseMeta ?x) = mResourceVersion (leaseMeta le)"
    "mFinalizers (leaseMeta ?x) = []" using assms(3) by (simp_all add: setLeaseMeta_def finalizer_list keyOf_def)
  then have "getObj leaseMeta (keyOf (leaseMeta ?x)) (leases w1) = Inr le" using assms(1) w1(2) by (simp add: storedIn_def)
  from drop_lease [OF this m(2) assms(2) m(3)] m(1) obtain y w' where
    "run_state (apiUpdateDeviceLease k ?x) w1 = (Inr y, w')" "devs w' = devs w1"
    "getObj leaseMeta (keyOf (leaseMeta le)) (leases w') = Inl ErrNotFound" by auto
  with w1 assms(3) show ?thesis by (simp add: reconcileDeleted_def finalizer_list)
qed

lemma stored_key: "getObj leaseMeta key (leases w) = Inr le \<Longrightarrow> storedIn (leases w) le \<and> keyOf (leaseMeta le) = key"
  using getObj_key [of leaseMeta key "leases w" le] by (auto simp: storedIn_def)

lemma run_leaseReconcile:
  assumes "getObj leaseMeta key (leases w) = Inr le"
  shows "leaseTerminating le \<Longrightarrow> run_state (leaseReconcile k key) w = run_state (reconcileDeleted k le) w"
    and "\<not> leaseTerminating le \<Longrightarrow> leaseFinalizer \<in> set (mFinalizers (leaseMeta le)) \<Longrightarrow>
      leasePhase le \<in> {LeasePhaseUnset, LeasePending} \<Longrightarrow> run_state (leaseReconcile k key) w = run_state (reconcilePending k le) w"
    and "\<not> leaseTerminating le \<Longrightarrow> leaseFinalizer \<in> set (mFinalizers (leaseMeta le)) \<Longrightarrow>
      leasePhase le = LeaseBound \<Longrightarrow> run_state (leaseReconcile k key) w = run_state (reconcileBound k le) w"
  using assms by (auto simp: leaseReconcile_def get_lease finalizer_list)

end

subsection \<open>The reference server provides it\<close>

lemma hasKey_keyOf: "hasKey key m \<longleftrightarrow> keyOf m = key"
  by (simp add: hasKey_def keyOf_def)

lemma getObj_putObj: "getObj mt key xs = Inr old \<Longrightarrow> keyOf (mt y) = key \<Longrightarrow> getObj mt key (putObj mt y xs) = Inr y"
  by (induction xs) (auto simp: getObj_def putObj_def hasKey_def keyOf_def split: option.splits if_splits)

lemma getObj_dropObj: "getObj mt key (dropObj mt key xs) = Inl ErrNotFound"
  by (induction xs) (auto simp: getObj_def dropObj_def)

lemma set_putObj: "set (putObj mt y xs) \<subseteq> insert y {x \<in> set xs. keyOf (mt x) \<noteq> keyOf (mt y)}"
  by (auto simp: putObj_def hasKey_keyOf) (simp_all add: keyOf_def)

lemma set_dropObj: "set (dropObj mt key xs) \<subseteq> {x \<in> set xs. keyOf (mt x) \<noteq> key}"
  by (auto simp: dropObj_def hasKey_keyOf)

lemma writeObj_accepted:
  assumes "getObj mt (keyOf (mt x)) xs = Inr old" and "mResourceVersion (mt x) = mResourceVersion (mt old)"
  shows "writeObj mt mm mrg v x xs =
    (let y = mm (\<lambda>m. m\<lparr>mResourceVersion := Suc v\<rparr>) (mrg old x) in
      (Inr y, if mDeletionTimestamp (mt y) \<noteq> None \<and> mFinalizers (mt y) = [] then dropObj mt (keyOf (mt x)) xs else putObj mt y xs))"
  using assms by (simp add: writeObj_def keyOf_def Let_def)

lemma run_writes: "run_state (writes f) c = (case f c of (r, c') \<Rightarrow>
    (r, case r of Inl _ \<Rightarrow> c | Inr _ \<Rightarrow> c'\<lparr>clVersion := Suc (clVersion c)\<rparr>))"
  by (simp add: writes_def split: prod.splits)

lemma run_deletePod:
  "\<exists>r c'. run_state (apiDeletePod mem key) c = (r, c') \<and> (r = Inr () \<or> r = Inl ErrNotFound) \<and>
     clDevices c' = clDevices c \<and> clLeases c' = clLeases c"
  by (auto simp: mem_def withTime_def onPods_def run_writes deleteObj_def getObj_def split: option.splits)

interpretation mem_server: api_server mem clDevices clLeases
proof
  fix x :: Device and c :: cluster and old
  assume old: "getObj devMeta (keyOf (devMeta x)) (clDevices c) = Inr old"
    and v: "mResourceVersion (devMeta x) = mResourceVersion (devMeta old)"
  let ?y = "mapDevMeta (\<lambda>m. m\<lparr>mResourceVersion := Suc (clVersion c)\<rparr>) (mergeDeviceStatus old x)"
  have key: "keyOf (devMeta ?y) = keyOf (devMeta x)"
    using getObj_key [OF old] by (simp add: mapDevMeta_def mergeDeviceStatus_def keyOf_def)
  let ?c = "if mDeletionTimestamp (devMeta ?y) \<noteq> None \<and> mFinalizers (devMeta ?y) = []
      then dropObj devMeta (keyOf (devMeta x)) (clDevices c) else putObj devMeta ?y (clDevices c)"
  have "run_state (apiUpdateDeviceStatus mem x) c = (Inr ?y, c\<lparr>clDevices := ?c, clVersion := Suc (clVersion c)\<rparr>)"
    using writeObj_accepted [OF old v] by (simp add: mem_def onDevices_def run_writes Let_def)
  moreover have "set ?c \<subseteq> insert ?y {d \<in> set (clDevices c). keyOf (devMeta d) \<noteq> keyOf (devMeta x)}"
    using set_putObj [of devMeta ?y "clDevices c"] set_dropObj [of devMeta "keyOf (devMeta x)" "clDevices c"] key by auto
  moreover have "getObj devMeta (keyOf (devMeta x)) ?c = Inr ?y" if "\<not> devTerminating old"
    using getObj_putObj [OF old key] that by (simp add: mapDevMeta_def mergeDeviceStatus_def)
  moreover have "devLeaseRef ?y = devLeaseRef x" by (simp add: mapDevMeta_def mergeDeviceStatus_def storedDevStatus_def)
  ultimately show "\<exists>y c'. run_state (apiUpdateDeviceStatus mem x) c = (Inr y, c') \<and> keyOf (devMeta y) = keyOf (devMeta x) \<and>
      devLeaseRef y = devLeaseRef x \<and> clLeases c' = clLeases c \<and>
      set (clDevices c') \<subseteq> insert y {d \<in> set (clDevices c). keyOf (devMeta d) \<noteq> keyOf (devMeta x)} \<and>
      (\<not> devTerminating old \<longrightarrow> getObj devMeta (keyOf (devMeta x)) (clDevices c') = Inr y)"
    using key by (intro exI [of _ ?y] exI [of _ "c\<lparr>clDevices := ?c, clVersion := Suc (clVersion c)\<rparr>"]) simp
next
  fix l :: DeviceLease and c :: cluster and old
  assume old: "getObj leaseMeta (keyOf (leaseMeta l)) (clLeases c) = Inr old"
    and v: "mResourceVersion (leaseMeta l) = mResourceVersion (leaseMeta old)" and nt: "\<not> leaseTerminating old"
  let ?y = "mapLeaseMeta (\<lambda>m. m\<lparr>mResourceVersion := Suc (clVersion c)\<rparr>) (mergeLeaseStatus old l)"
  have key: "keyOf (leaseMeta ?y) = keyOf (leaseMeta l)"
    using getObj_key [OF old] by (simp add: mapLeaseMeta_def mergeLeaseStatus_def keyOf_def)
  have "run_state (apiUpdateDeviceLeaseStatus mem l) c =
      (Inr ?y, c\<lparr>clLeases := putObj leaseMeta ?y (clLeases c), clVersion := Suc (clVersion c)\<rparr>)"
    using writeObj_accepted [OF old v] nt by (simp add: mem_def onLeases_def run_writes Let_def mapLeaseMeta_def mergeLeaseStatus_def)
  moreover have "getObj leaseMeta (keyOf (leaseMeta l)) (putObj leaseMeta ?y (clLeases c)) = Inr ?y" by (rule getObj_putObj [OF old key])
  moreover have "leasePhase ?y = leasePhase l" "ltDeviceRef (leaseStatus ?y) = ltDeviceRef (leaseStatus l)"
    by (simp_all add: mapLeaseMeta_def mergeLeaseStatus_def storedLeaseStatus_def)
  ultimately show "\<exists>z c'. run_state (apiUpdateDeviceLeaseStatus mem l) c = (Inr z, c') \<and> clDevices c' = clDevices c \<and>
      getObj leaseMeta (keyOf (leaseMeta l)) (clLeases c') = Inr z \<and>
      leasePhase z = leasePhase l \<and> ltDeviceRef (leaseStatus z) = ltDeviceRef (leaseStatus l)"
    by (intro exI [of _ ?y] exI [of _ "c\<lparr>clLeases := putObj leaseMeta ?y (clLeases c), clVersion := Suc (clVersion c)\<rparr>"]) simp
next
  fix l :: DeviceLease and c :: cluster and old
  assume old: "getObj leaseMeta (keyOf (leaseMeta l)) (clLeases c) = Inr old"
    and v: "mResourceVersion (leaseMeta l) = mResourceVersion (leaseMeta old)"
    and del: "leaseTerminating old" "mFinalizers (leaseMeta l) = []"
  let ?y = "mapLeaseMeta (\<lambda>m. m\<lparr>mResourceVersion := Suc (clVersion c)\<rparr>) (mergeLease old l)"
  have "run_state (apiUpdateDeviceLease mem l) c =
      (Inr ?y, c\<lparr>clLeases := dropObj leaseMeta (keyOf (leaseMeta l)) (clLeases c), clVersion := Suc (clVersion c)\<rparr>)"
    using writeObj_accepted [OF old v] del
    by (simp add: mem_def onLeases_def run_writes Let_def mapLeaseMeta_def mergeLease_def mergeMeta_def)
  then show "\<exists>z c'. run_state (apiUpdateDeviceLease mem l) c = (Inr z, c') \<and> clDevices c' = clDevices c \<and>
      getObj leaseMeta (keyOf (leaseMeta l)) (clLeases c') = Inl ErrNotFound"
    by (simp add: getObj_dropObj)
next
  show "\<exists>r c'. run_state (apiDeletePod mem key) c = (r, c') \<and> (r = Inr () \<or> r = Inl ErrNotFound) \<and>
     clDevices c' = clDevices c \<and> clLeases c' = clLeases c" for key c by (rule run_deletePod)
  show "\<exists>b cs'. run_state (setStatusCondition mem cs x) c = ((b, cs'), c)" for cs x c
    by (cases "setConditionIn (clNow c) cs x") (simp add: mem_def reads_def)
qed (simp_all add: mem_def reads_def addFinalizerTo_def removeFinalizerFrom_def)

subsection \<open>What one run achieves\<close>

text \<open>C9: Undisturbed, one run of the lease controller binds a waiting lease whenever some Ready, free
  device of its class, or a device an interrupted run already gave it, is in its namespace. The lease
  is then Bound, a stored device of the name it gives carries the lease's name, and that device is one
  which before the run was Ready, free and of the lease's class, or already the lease's own.\<close>

theorem waiting_lease_gets_device:
  assumes "api_server k devs leases" and "getObj leaseMeta key (leases w) = Inr le" and "\<not> leaseTerminating le"
    and "leaseFinalizer \<in> set (mFinalizers (leaseMeta le))" and "leasePhase le \<in> {LeasePhaseUnset, LeasePending}"
    and "distinct (map (\<lambda>d. keyOf (devMeta d)) (devs w))"
    and "\<exists>d \<in> set (devs w). devNamespace d = leaseNamespace le \<and> (devLeaseRef d = leaseName le \<or>
        mLabels (devMeta d) LabelClass = Some (lsClassRef (leaseSpec le)) \<and> freeAndReady d)"
  shows "\<exists>res le' d d0 w'. run_state (leaseReconcile k key) w = (Inr res, w') \<and>
    getObj leaseMeta key (leases w') = Inr le' \<and> leasePhase le' = LeaseBound \<and> d \<in> set (devs w') \<and>
    devNamespace d = leaseNamespace le \<and> ltDeviceRef (leaseStatus le') = devName d \<and> devLeaseRef d = leaseName le \<and>
    d0 \<in> set (devs w) \<and> keyOf (devMeta d0) = keyOf (devMeta d) \<and>
    (devLeaseRef d0 = leaseName le \<or>
     mLabels (devMeta d0) LabelClass = Some (lsClassRef (leaseSpec le)) \<and> devPhase d0 = DeviceReady \<and> devLeaseRef d0 = [] \<and> \<not> devTerminating d0)"
proof -
  have key: "storedIn (leases w) le" "keyOf (leaseMeta le) = key" using api_server.stored_key [OF assms(1,2)] by simp_all
  have "\<exists>d \<in> set (devs w). devNamespace d = leaseNamespace le \<and> givenOrFree le d" using assms(7) by (simp add: givenOrFree_def)
  from api_server.pending_run [OF assms(1) key(1) assms(3,6) this] show ?thesis
    unfolding api_server.run_leaseReconcile(2) [OF assms(1-5)] key(2) givenOrFree_def freeAndReady_def by blast
qed

text \<open>C13: Undisturbed, one run at a time past the heartbeat plus TTL of a Bound lease leaves the lease
  Expired and no device of its namespace carrying its name.\<close>

theorem expired_lease_is_recycled:
  assumes "api_server k devs leases" and "getObj leaseMeta key (leases w) = Inr le" and "\<not> leaseTerminating le"
    and "leaseFinalizer \<in> set (mFinalizers (leaseMeta le))" and "leasePhase le = LeaseBound"
    and "ltLastHeartbeat (leaseStatus le) = Some hb" and "run_state (clockNow k) w = (now, w)"
    and "hb + sint (lsTTLSeconds (leaseSpec le)) * 1000000000 < now"
    and "distinct (map (\<lambda>d. keyOf (devMeta d)) (devs w))" and "heldOnce (devs w) le"
  shows "\<exists>le' w'. run_state (leaseReconcile k key) w = (Inr emptyResult, w') \<and>
    getObj leaseMeta key (leases w') = Inr le' \<and> leasePhase le' = LeaseExpired \<and> lettingGo (devs w') le"
proof -
  have "timeAdd hb (ttlDuration le) < now" using assms(8) by (simp add: timeAdd_def sint_ttlDuration)
  from api_server.expired_run [OF assms(1) _ assms(3,6,7) this assms(9,10)] show ?thesis
    using api_server.stored_key [OF assms(1,2)] api_server.run_leaseReconcile(3) [OF assms(1-5)] by auto
qed

text \<open>C37: Undisturbed, one run on a deleted lease that only the controller's finalizer keeps leaves no
  device of its namespace carrying its name, and the lease gone.\<close>

theorem deleted_lease_lets_go:
  assumes "api_server k devs leases" and "getObj leaseMeta key (leases w) = Inr le" and "leaseTerminating le"
    and "mFinalizers (leaseMeta le) = [leaseFinalizer]"
    and "distinct (map (\<lambda>d. keyOf (devMeta d)) (devs w))" and "heldOnce (devs w) le"
  shows "\<exists>w'. run_state (leaseReconcile k key) w = (Inr emptyResult, w') \<and>
    getObj leaseMeta key (leases w') = Inl ErrNotFound \<and> lettingGo (devs w') le"
  using api_server.deleted_run [OF assms(1) _ assms(3-6)] api_server.stored_key [OF assms(1,2)]
    api_server.run_leaseReconcile(1) [OF assms(1-3)] by auto

subsection \<open>Witnesses on the reference server\<close>

lemmas demo_defs = demoCluster_def demoDevice_def demoLease_def emptyMeta_def

lemma waiting_lease_gets_device_witness:
  "\<exists>res c' le'. run_state (leaseReconcile mem (''ns'', ''l1'')) demoBind = (Inr res, c') \<and>
     getObj leaseMeta (''ns'', ''l1'') (clLeases c') = Inr le' \<and> leasePhase le' = LeaseBound"
proof -
  let ?le = "demoLease ''l1'' ''pixel'' LeasePending [] None"
  have "getObj leaseMeta (''ns'', ''l1'') (clLeases demoBind) = Inr ?le"
    by (simp add: getObj_def hasKey_def demoBind_def demo_defs)
  moreover have "\<not> leaseTerminating ?le" "leaseFinalizer \<in> set (mFinalizers (leaseMeta ?le))" "leasePhase ?le \<in> {LeasePhaseUnset, LeasePending}"
    "distinct (map (\<lambda>d. keyOf (devMeta d)) (clDevices demoBind))"
    by (simp_all add: leaseFinalizer_def keyOf_def demoBind_def demo_defs)
  moreover have "\<exists>d \<in> set (clDevices demoBind). devNamespace d = leaseNamespace ?le \<and> (devLeaseRef d = leaseName ?le \<or>
        mLabels (devMeta d) LabelClass = Some (lsClassRef (leaseSpec ?le)) \<and> freeAndReady d)"
    by (simp add: freeAndReady_def LabelClass_def LabelPool_def demoBind_def demo_defs)
  ultimately show ?thesis using waiting_lease_gets_device [OF mem_server.api_server_axioms] by blast
qed

lemma expired_lease_is_recycled_witness:
  "\<exists>c' le'. run_state (leaseReconcile mem (''ns'', ''l1'')) demoExpired = (Inr emptyResult, c') \<and>
     getObj leaseMeta (''ns'', ''l1'') (clLeases c') = Inr le' \<and> leasePhase le' = LeaseExpired"
proof -
  obtain le where le: "getObj leaseMeta (''ns'', ''l1'') (clLeases demoExpired) = Inr le" "\<not> leaseTerminating le"
    "leaseFinalizer \<in> set (mFinalizers (leaseMeta le))" "leasePhase le = LeaseBound"
    and hb: "ltLastHeartbeat (leaseStatus le) = Some 600000000000" "sint (lsTTLSeconds (leaseSpec le)) = 300"
    and held: "heldOnce (clDevices demoExpired) le"
    by (simp add: getObj_def hasKey_def heldOnce_def leaseFinalizer_def demoExpired_def demo_defs)
  have now: "run_state (clockNow mem) demoExpired = (1000000000000, demoExpired)"
    by (simp add: mem_def reads_def demoExpired_def demoCluster_def)
  have keys: "distinct (map (\<lambda>d. keyOf (devMeta d)) (clDevices demoExpired))"
    by (simp add: keyOf_def demoExpired_def demo_defs)
  have ttl: "600000000000 + sint (lsTTLSeconds (leaseSpec le)) * 1000000000 < 1000000000000" by (simp add: hb(2))
  from expired_lease_is_recycled [OF mem_server.api_server_axioms le hb(1) now ttl keys held] show ?thesis by blast
qed

definition demoDeleted :: cluster where
  "demoDeleted = demoCluster (demoPool 2 []) [demoDevice ''d1'' ''pixel'' DeviceLeased ''l1'', demoDevice ''d2'' ''pixel'' DeviceLeased ''l2'']
     [deletedAt 900000000000 (demoLease ''l1'' ''pixel'' LeaseBound ''d1'' (Some 600000000000))]"

lemma deleted_lease_lets_go_witness:
  "\<exists>c'. run_state (leaseReconcile mem (''ns'', ''l1'')) demoDeleted = (Inr emptyResult, c') \<and>
     getObj leaseMeta (''ns'', ''l1'') (clLeases c') = Inl ErrNotFound"
proof -
  obtain le where le: "getObj leaseMeta (''ns'', ''l1'') (clLeases demoDeleted) = Inr le" "leaseTerminating le"
    "mFinalizers (leaseMeta le) = [leaseFinalizer]"
    and held: "heldOnce (clDevices demoDeleted) le"
    by (simp add: getObj_def hasKey_def heldOnce_def leaseFinalizer_def demoDeleted_def deletedAt_def mapLeaseMeta_def demo_defs)
  have keys: "distinct (map (\<lambda>d. keyOf (devMeta d)) (clDevices demoDeleted))"
    by (simp add: keyOf_def demoDeleted_def demo_defs)
  from deleted_lease_lets_go [OF mem_server.api_server_axioms le keys held] show ?thesis by blast
qed

end
