(* ===== verification/Go_Strings.thy ===== *)
theory Go_Strings
  imports Go_Std
begin

text \<open>
  The functions of Go's package \<open>strings\<close> the program uses, with what splitting and joining, and finding and
  cutting, make of each other.
\<close>

fun splitOn :: "char \<Rightarrow> string \<Rightarrow> string list" where
  "splitOn c [] = [[]]"
| "splitOn c (x # xs) =
     (if x = c then [] # splitOn c xs
      else (case splitOn c xs of [] \<Rightarrow> [[x]] | p # ps \<Rightarrow> (x # p) # ps))"

fun joinWith :: "string \<Rightarrow> string list \<Rightarrow> string" where
  "joinWith sep [] = []"
| "joinWith sep [s] = s"
| "joinWith sep (s # ss) = s @ sep @ joinWith sep ss"

fun hasPrefix :: "string \<Rightarrow> string \<Rightarrow> bool" where
  \<comment> \<open>whether the first string starts the second\<close>
  "hasPrefix [] s = True"
| "hasPrefix (p # ps) [] = False"
| "hasPrefix (p # ps) (c # cs) \<longleftrightarrow> p = c \<and> hasPrefix ps cs"

definition trimPrefix :: "string \<Rightarrow> string \<Rightarrow> string" where
  "trimPrefix s p = (if hasPrefix p s then drop (length p) s else s)"

fun indexOf :: "string \<Rightarrow> string \<Rightarrow> nat option" where
  \<comment> \<open>where the second string first occurs in the first\<close>
  "indexOf [] t = (if t = [] then Some 0 else None)"
| "indexOf (c # cs) t = (if hasPrefix t (c # cs) then Some 0 else map_option Suc (indexOf cs t))"

definition contains :: "string \<Rightarrow> string \<Rightarrow> bool" where
  "contains s t \<longleftrightarrow> indexOf s t \<noteq> None"

function removeAll :: "string \<Rightarrow> string \<Rightarrow> string" where
  \<comment> \<open>\<open>ReplaceAll(s, t, "")\<close> for a \<open>t\<close> that is not empty\<close>
  "removeAll [] t = []"
| "removeAll (c # cs) t =
     (if t \<noteq> [] \<and> hasPrefix t (c # cs) then removeAll (drop (length t) (c # cs)) t else c # removeAll cs t)"
  by pat_completeness auto
termination by (relation "measure (\<lambda>(s, t). length s)") auto

declare removeAll.simps [simp del]

subsection \<open>Splitting and joining\<close>

lemma splitOn_nonempty [simp]: "splitOn c s \<noteq> []"
  by (cases s) (auto split: list.split)

lemma splitOn_append: "c \<notin> set l \<Longrightarrow> splitOn c (l @ c # s) = l # splitOn c s" "c \<notin> set l \<Longrightarrow> splitOn c l = [l]"
  by (induction l) auto

lemma splitOn_joinWith: "ls \<noteq> [] \<Longrightarrow> \<forall>l \<in> set ls. c \<notin> set l \<Longrightarrow> splitOn c (joinWith [c] ls) = ls"
  by (induction "[c]" ls rule: joinWith.induct) (simp_all add: splitOn_append)

lemma splitOn_joinWith_end: "ls \<noteq> [] \<Longrightarrow> \<forall>l \<in> set ls. c \<notin> set l \<Longrightarrow> splitOn c (joinWith [c] ls @ [c]) = ls @ [[]]"
  by (induction "[c]" ls rule: joinWith.induct) (simp_all add: splitOn_append)

lemma joinWith_splitOn: "joinWith [c] (splitOn c s) = s"
proof (induction s)
  case (Cons x s)
  obtain p ps where "splitOn c s = p # ps" using splitOn_nonempty by (meson neq_Nil_conv)
  with Cons show ?case by (cases ps) auto
qed simp

subsection \<open>Finding and cutting\<close>

lemma hasPrefix_append: "hasPrefix p (p @ s)"
  by (induction p) simp_all

lemma hasPrefix_take: "hasPrefix p s \<Longrightarrow> s = p @ drop (length p) s"
  by (induction p s rule: hasPrefix.induct) auto

lemma indexOf_occurs: "indexOf s t = Some i \<Longrightarrow> s = take i s @ t @ drop (i + length t) s"
proof (induction s arbitrary: i)
  case (Cons c cs)
  then show ?case using hasPrefix_take [of t "c # cs"] by (auto split: if_splits)
qed (auto split: if_splits)

lemma indexOf_first: "indexOf s t = Some i \<Longrightarrow> j < i \<Longrightarrow> \<not> hasPrefix t (drop j s)"
proof (induction s arbitrary: i j)
  case (Cons c cs)
  then show ?case by (cases j) (auto split: if_splits)
qed (auto split: if_splits)

end
