(* ===== verification/Schema.thy ===== *)
theory Schema
  imports Go_Strings Contracts Policy Lease_Controller Pool_Controller
begin

text \<open>
  What the API server accepts: the validation the schemas of \<^verbatim>\<open>operator/config/crd/bases\<close> (generated from the
  markers of the API types) ask of the four resources, and the documented rules for the names, label values
  and ports of the Pods, Services and Jobs the operator creates. \<open>answerOk\<close> says of a call that what the server
  answered has the form a stored object has (with references no longer than a name can be), \<open>callOk\<close> that what the
  call submits will be accepted, and \<open>unfit\<close> that it creates an object after a name that is valid for the object
  it belongs to but leaves no room for, or does not fit, the names and labels made of it.
\<close>

subsection \<open>Names and label values\<close>

definition lowers :: string where "lowers = ''abcdefghijklmnopqrstuvwxyz''"
definition uppers :: string where "uppers = ''ABCDEFGHIJKLMNOPQRSTUVWXYZ''"
definition digits :: string where "digits = ''0123456789''"

abbreviation lowAlnum :: "char \<Rightarrow> bool" where "lowAlnum c \<equiv> c \<in> set (lowers @ digits)"
abbreviation letter :: "char \<Rightarrow> bool" where "letter c \<equiv> c \<in> set (lowers @ uppers)"
abbreviation alnum :: "char \<Rightarrow> bool" where "alnum c \<equiv> c \<in> set (lowers @ uppers @ digits)"

definition dnsPart :: "string \<Rightarrow> bool" where
  "dnsPart s \<longleftrightarrow> s \<noteq> [] \<and> list_all (\<lambda>c. lowAlnum c \<or> c = CHR ''-'') s \<and> lowAlnum (hd s) \<and> lowAlnum (last s)"

definition dnsLabel :: "string \<Rightarrow> bool" where
  \<comment> \<open>RFC 1123\<close>
  "dnsLabel s \<longleftrightarrow> dnsPart s \<and> length s \<le> 63"

definition dns1035Label :: "string \<Rightarrow> bool" where
  "dns1035Label s \<longleftrightarrow> dnsLabel s \<and> hd s \<in> set lowers"

definition qualifiedName :: "string \<Rightarrow> bool" where
  "qualifiedName s \<longleftrightarrow> s \<noteq> [] \<and> list_all (\<lambda>c. alnum c \<or> c \<in> set ''-_.'') s \<and> alnum (hd s) \<and> alnum (last s)"

definition labelValue :: "string \<Rightarrow> bool" where
  "labelValue s \<longleftrightarrow> length s \<le> 63 \<and> (s = [] \<or> qualifiedName s)"

definition labelsOk :: "(string \<rightharpoonup> string) \<Rightarrow> bool" where
  "labelsOk m \<longleftrightarrow> (\<forall>v \<in> ran m. labelValue v)"

declare labelsOk_def [code del]

definition namePrefix :: "string \<Rightarrow> bool" where
  \<comment> \<open>what may stand in \<open>generateName\<close>: the start of a name\<close>
  "namePrefix s \<longleftrightarrow> s \<noteq> [] \<and> length s \<le> 253 \<and> list_all (\<lambda>c. lowAlnum c \<or> c = CHR ''-'') s \<and> lowAlnum (hd s)"

abbreviation refName :: "string \<Rightarrow> bool" where
  \<comment> \<open>no longer than the name of an object can be\<close>
  "refName s \<equiv> length s \<le> 253"

subsection \<open>Conditions\<close>

definition conditionType :: "string \<Rightarrow> bool" where
  \<comment> \<open>a qualified name, with an optional DNS prefix\<close>
  "conditionType s \<longleftrightarrow> length s \<le> 316 \<and>
     (if CHR ''/'' \<in> set s
      then list_all dnsPart (splitOn CHR ''.'' (takeWhile (\<lambda>c. c \<noteq> CHR ''/'') s)) \<and> qualifiedName (tl (dropWhile (\<lambda>c. c \<noteq> CHR ''/'') s))
      else qualifiedName s)"

definition conditionReason :: "string \<Rightarrow> bool" where
  \<comment> \<open>\<^verbatim>\<open>^[A-Za-z]([A-Za-z0-9_,:]*[A-Za-z0-9_])?$\<close>, one to 1024 characters\<close>
  "conditionReason s \<longleftrightarrow> s \<noteq> [] \<and> length s \<le> 1024 \<and> letter (hd s) \<and>
     list_all (\<lambda>c. alnum c \<or> c \<in> set ''_,:'') s \<and> (alnum (last s) \<or> last s = CHR ''_'')"

definition conditionOk :: "condition \<Rightarrow> bool" where
  "conditionOk c \<longleftrightarrow> conditionType (cType c) \<and> conditionReason (cReason c) \<and> length (cMessage c) \<le> 32768 \<and> 0 \<le> sint (cObservedGeneration c)"

definition conditionsOk :: "condition list \<Rightarrow> bool" where
  \<comment> \<open>a list map with the type as its key\<close>
  "conditionsOk cs \<longleftrightarrow> list_all conditionOk cs \<and> distinct (map cType cs)"

subsection \<open>The resources\<close>

definition deviceOk :: "Device \<Rightarrow> bool" where
  "deviceOk d \<longleftrightarrow> dsProviderType (devSpec d) \<noteq> ProviderUnset \<and> refName (devClass d) \<and> refName (devLeaseRef d) \<and>
     conditionsOk (dtConditions (devStatus d))"

definition leaseOk :: "DeviceLease \<Rightarrow> bool" where
  "leaseOk l \<longleftrightarrow> validLeaseSpec (leaseSpec l) \<and> refName (lsClassRef (leaseSpec l)) \<and> refName (ltDeviceRef (leaseStatus l)) \<and>
     conditionsOk (ltConditions (leaseStatus l))"

definition poolOk :: "DevicePool \<Rightarrow> bool" where
  "poolOk p \<longleftrightarrow> validPoolSpec (poolSpec p) \<and> conditionsOk (dptConditions (poolStatus p))"

definition classOk :: "DeviceClass \<Rightarrow> bool" where
  "classOk dc \<longleftrightarrow> dcsProviderType (dcSpec dc) \<noteq> ProviderUnset \<and> refName (mName (dcMeta dc))"

definition portOk :: "int32 \<Rightarrow> bool" where "portOk p \<longleftrightarrow> 1 \<le> sint p \<and> sint p \<le> 65535"

definition containerOk :: "container \<Rightarrow> bool" where
  "containerOk c \<longleftrightarrow> dnsLabel (ctName c) \<and> list_all (\<lambda>p. portOk (cpContainerPort p)) (ctPorts c)"

definition containersOk :: "container list \<Rightarrow> bool" where
  "containersOk cs \<longleftrightarrow> cs \<noteq> [] \<and> list_all containerOk cs \<and> distinct (map ctName cs)"

definition podOk :: "pod \<Rightarrow> bool" where
  "podOk p \<longleftrightarrow> dnsLabel (mName (podMeta p)) \<and> labelsOk (mLabels (podMeta p)) \<and> containersOk (psContainers (podSpec p))"

definition targetOk :: "intOrString \<Rightarrow> bool" where
  "targetOk t \<longleftrightarrow> (case t of FromInt32 p \<Rightarrow> portOk p | FromString s \<Rightarrow> s \<noteq> [] \<and> length s \<le> 15)"

definition serviceOk :: "service \<Rightarrow> bool" where
  "serviceOk s \<longleftrightarrow> dns1035Label (mName (svcMeta s)) \<and> labelsOk (mLabels (svcMeta s)) \<and> labelsOk (svcSelector s) \<and>
     svcType s \<in> {''ClusterIP'', ''NodePort'', ''LoadBalancer'', ''ExternalName''} \<and>
     list_all (\<lambda>p. portOk (spPort p) \<and> targetOk (spTargetPort p)) (svcPorts s)"

definition jobOk :: "job \<Rightarrow> bool" where
  "jobOk j \<longleftrightarrow> dnsLabel (mName (jobMeta j)) \<and> labelsOk (mLabels (jobMeta j)) \<and> 0 \<le> sint (jobBackoffLimit j) \<and>
     jobRestartPolicy j \<in> {''Never'', ''OnFailure''} \<and> containersOk (jobContainers j)"

definition newDeviceOk :: "Device \<Rightarrow> bool" where
  "newDeviceOk d \<longleftrightarrow> deviceOk d \<and> namePrefix (mGenerateName (devMeta d)) \<and> labelsOk (mLabels (devMeta d))"

text \<open>As they are stored, with their metadata.\<close>

definition generationOk :: "objectMeta \<Rightarrow> bool" where "generationOk m \<longleftrightarrow> 0 \<le> sint (mGeneration m)"

definition servedDevice :: "Device \<Rightarrow> bool" where
  "servedDevice d \<longleftrightarrow> deviceOk d \<and> generationOk (devMeta d) \<and> refName (devName d)"

definition servedLease :: "DeviceLease \<Rightarrow> bool" where
  "servedLease l \<longleftrightarrow> leaseOk l \<and> generationOk (leaseMeta l) \<and> refName (leaseName l)"

definition servedPool :: "DevicePool \<Rightarrow> bool" where
  "servedPool p \<longleftrightarrow> poolOk p \<and> generationOk (poolMeta p) \<and> refName (mName (poolMeta p))"

definition servedPod :: "pod \<Rightarrow> bool" where
  "servedPod p \<longleftrightarrow> list_all (\<lambda>cs. refName (csName cs)) (pstContainerStatuses (podStatus p))"

subsection \<open>Calls\<close>

fun answerOk :: "action \<Rightarrow> bool" where
  "answerOk (ActGetDevice _ (Inr d)) = servedDevice d"
| "answerOk (ActListDevices _ _ (Inr ds)) = list_all servedDevice ds"
| "answerOk (ActUpdateDevice _ (Inr d)) = servedDevice d"
| "answerOk (ActUpdateDeviceStatus _ (Inr d)) = servedDevice d"
| "answerOk (ActGetDeviceLease _ (Inr l)) = servedLease l"
| "answerOk (ActGetDevicePool _ (Inr p)) = servedPool p"
| "answerOk (ActListDevicePools _ (Inr ps)) = list_all servedPool ps"
| "answerOk (ActGetDeviceClass _ (Inr dc)) = classOk dc"
| "answerOk (ActGetPod _ (Inr p)) = servedPod p"
| "answerOk (ActCreatePod _ (Inr p)) = servedPod p"
| "answerOk (ActGetService _ (Inr s)) = serviceOk s"
| "answerOk _ = True"

fun callOk :: "action \<Rightarrow> bool" where
  "callOk (ActCreateDevice d _) = newDeviceOk d"
| "callOk (ActUpdateDevice d _) = deviceOk d"
| "callOk (ActUpdateDeviceStatus d _) = deviceOk d"
| "callOk (ActUpdateDeviceLease l _) = leaseOk l"
| "callOk (ActUpdateDeviceLeaseStatus l _) = leaseOk l"
| "callOk (ActUpdateDevicePoolStatus p _) = poolOk p"
| "callOk (ActCreatePod p _) = podOk p"
| "callOk (ActCreateService s _) = serviceOk s"
| "callOk (ActUpdateService s _) = serviceOk s"
| "callOk (ActCreateJob j _) = jobOk j"
| "callOk _ = True"

definition deviceName :: "string \<Rightarrow> bool" where
  \<comment> \<open>leaves room for the suffixes of the Service, the Pod and the Job named after the device\<close>
  "deviceName n \<longleftrightarrow> dns1035Label n \<and> length n \<le> 54"

definition without :: "string \<Rightarrow> string \<Rightarrow> string" where
  "without suf s = take (length s - length suf) s"

fun unfit :: "action \<Rightarrow> bool" where
  "unfit (ActCreatePod p _) = (\<not> deviceName (without ''-emulator'' (mName (podMeta p))))"
| "unfit (ActCreateService s _) = (\<not> deviceName (without ''-adb'' (mName (svcMeta s))))"
| "unfit (ActCreateJob j _) = (\<not> deviceName (without ''-register'' (mName (jobMeta j))))"
| "unfit (ActCreateDevice d _) = (\<not> dnsLabel (dsPoolRef (devSpec d)) \<or> \<not> dnsLabel (devClass d))"
| "unfit _ = False"

lemma without_suffix [simp]: "without s (n @ s) = n"
  by (simp add: without_def)

definition schemaMay :: policy where
  \<comment> \<open>a call is valid, or named after what does not fit, if every answer before it was\<close>
  "schemaMay h a \<longleftrightarrow> (list_all answerOk h \<longrightarrow> callOk a \<or> unfit a)"

interpretation sp: write_policy schemaMay
proof
  fix a h assume "isRead a"
  then show "schemaMay h a" by (cases a) (simp_all add: schemaMay_def)
qed

subsection \<open>The interface\<close>

locale schema_client = owner_references "setControllerReference k" for k :: "'w kube" +
  assumes conditions_stay: "conditionsOk cs \<Longrightarrow> conditionOk c \<Longrightarrow>
      run_state (setStatusCondition k cs c) w = ((b, cs'), w') \<Longrightarrow> conditionsOk cs'"

subsection \<open>What the controllers build\<close>

lemma dnsPart_suffix: "dnsPart n \<Longrightarrow> dnsPart s \<Longrightarrow> dnsPart (n @ CHR ''-'' # s)"
  by (auto simp: dnsPart_def)

lemma dnsLabel_suffix: "dnsPart n \<Longrightarrow> dnsPart s \<Longrightarrow> length n + length s < 63 \<Longrightarrow> dnsLabel (n @ CHR ''-'' # s)"
  by (simp add: dnsLabel_def dnsPart_suffix)

lemma suffixes: "dnsPart ''adb''" "dnsPart ''emulator''" "dnsPart ''register''" "dnsPart ''adb-proxy''"
  by (simp_all add: dnsPart_def lowers_def digits_def)

lemma dnsLabel_labelValue: "dnsLabel s \<Longrightarrow> labelValue s"
  by (auto simp: dnsLabel_def dnsPart_def labelValue_def qualifiedName_def list_all_iff)

lemma deviceNameD: "deviceName n \<Longrightarrow> dnsPart n \<and> labelValue n \<and> n \<noteq> [] \<and> hd n \<in> set lowers \<and> length n \<le> 54"
  by (auto simp: deviceName_def dns1035Label_def dnsLabel_labelValue dnsPart_def dnsLabel_def)

lemma labelsOk_simps [simp]: "labelsOk Map.empty" "labelValue v \<Longrightarrow> labelsOk m \<Longrightarrow> labelsOk (m(l \<mapsto> v))"
  by (auto simp: labelsOk_def ran_def)

lemma conditionsOk_Nil [simp]: "conditionsOk []"
  by (simp add: conditionsOk_def)

lemma namePrefix_join:
  assumes "dnsLabel a" and "dnsLabel b"
  shows "namePrefix (a @ ''-'' @ b @ ''-'')"
proof -
  obtain x xs where "a = x # xs" using assms(1) by (cases a) (auto simp: dnsLabel_def dnsPart_def)
  with assms show ?thesis by (auto simp: namePrefix_def dnsLabel_def dnsPart_def)
qed

lemma newPoolDevice_ok:
  assumes "dnsLabel (mName (poolMeta pool))" and "dnsLabel (mName (dcMeta dc))" and "classOk dc"
  shows "newDeviceOk (newPoolDevice pool dc)"
proof -
  note namePrefix_join [OF assms(1,2)]
  moreover have "refName (mName (dcMeta dc))" using assms(3) by (simp add: classOk_def)
  ultimately show ?thesis
    using assms by (simp add: newDeviceOk_def deviceOk_def newPoolDevice_def classOk_def emptyDeviceStatus_def dnsLabel_labelValue)
qed

lemma deviceSelector_ok: "deviceName (devName d) \<Longrightarrow> labelsOk (deviceSelector d)"
  by (simp add: deviceSelector_def deviceNameD)

lemma deviceName_suffix:
  assumes "deviceName n" and "dnsPart s" and "length s \<le> 8"
  shows "dnsLabel (n @ CHR ''-'' # s)" and "dns1035Label (n @ CHR ''-'' # s)"
  using assms deviceNameD [OF assms(1)] dnsLabel_suffix [of n s] by (auto simp: dns1035Label_def)

lemma buildPod_ok: "deviceName (devName d) \<Longrightarrow> podOk (buildPod d dc)"
  using suffixes deviceName_suffix [of "devName d" "''emulator''"]
  by (simp add: podOk_def buildPod_def Let_def emulatorPodName_def deviceSelector_ok containersOk_def containerOk_def dnsLabel_def
      emptyContainer_def portOk_def adbPort_def adbProxyPort_def)

lemma adbService_ok: "deviceName (devName d) \<Longrightarrow> serviceOk (adbService d)"
  using suffixes deviceName_suffix [of "devName d" "''adb''"]
  by (simp add: serviceOk_def adbService_def adbServiceName_def deviceSelector_ok serviceTypeNodePort_def targetOk_def portOk_def
      adbPort_def adbProxyPort_def)

lemma registrationJob_ok: "deviceName (devName d) \<Longrightarrow> jobOk (registrationJob d host adb)"
  using suffixes deviceName_suffix [of "devName d" "''register''"]
  by (simp add: jobOk_def registrationJob_def deviceSelector_ok containersOk_def containerOk_def dnsLabel_def emptyContainer_def)

lemma driftedService_ok: "serviceOk s \<Longrightarrow> driftedService s = (s', b) \<Longrightarrow> serviceOk s'"
  by (auto simp: driftedService_def serviceOk_def serviceTypeNodePort_def targetOk_def portOk_def adbProxyPort_def Let_def
      split: list.splits if_splits)

subsection \<open>What they report\<close>

lemma length_natToString: "n < 10 ^ Suc k \<Longrightarrow> length (natToString n) \<le> Suc k"
proof (induction k arbitrary: n)
  case (Suc k)
  then have "length (natToString (n div 10)) \<le> Suc k" by (simp add: less_mult_imp_div_less)
  then show ?case by (subst natToString.simps) simp
qed (subst natToString.simps, simp)

lemma length_itoa: "length (itoa (sint (i :: int32))) \<le> 11"
proof -
  have "nat (sint i) < 10 ^ Suc 9" "nat (- sint i) < 10 ^ Suc 9" using sint32_range [of i] by (simp_all, linarith+)
  from this [THEN length_natToString] have "length (natToString (nat (sint i))) \<le> Suc 9" "length (natToString (nat (- sint i))) \<le> Suc 9" .
  then show ?thesis by (simp add: itoa_def)
qed

lemma length_goQuote: "length (goQuote s) \<le> 4 * length s + 2"
  by (induction s) (auto simp: goQuote_def quoteChar_def Let_def)

definition reportOk :: "string \<Rightarrow> string \<Rightarrow> bool" where
  \<comment> \<open>the reason and the message of a condition\<close>
  "reportOk reason msg \<longleftrightarrow> conditionReason reason \<and> length msg \<le> 32768"

lemma crashLoop_short: "servedPod p \<Longrightarrow> length (crashLoopReason p) \<le> 32768"
proof -
  have "list_all (\<lambda>cs. refName (csName cs)) css \<Longrightarrow> length (crashLoopReasonIn css) \<le> 32768" for css
  proof (induction css)
    case (Cons cs css)
    then show ?case using length_itoa [of "csRestartCount cs"] by simp
  qed simp
  then show "servedPod p \<Longrightarrow> length (crashLoopReason p) \<le> 32768" by (simp add: servedPod_def crashLoopReason_def)
qed

lemma reasons:
  "conditionReason ''CrashLoopBackOff''" "conditionReason ''PodFailed''" "conditionReason ''PodExited''"
  "conditionReason ''BootCompleted''" "conditionReason ''Wedged''" "conditionReason ''Provisioning''"
  "conditionReason ''Leased''" "conditionReason ''Connected''" "conditionReason ''AwaitingProvider''"
  "conditionReason ''DeviceClassNotFound''" "conditionReason ''NoDevice''" "conditionReason ''DeviceMissing''"
  "conditionReason ''DeviceFailed''" "conditionReason ''Healthy''" "conditionReason ''Evicted''"
  "conditionReason ''AtCapacity''" "conditionReason ''NoPool''" "conditionReason ''WaitingForDevice''"
  "conditionReason ''Bound''" "conditionReason ''Heartbeat''" "conditionReason ''TTLExpired''"
  "conditionReason ''WarmPoolSatisfied''"
  by (simp_all add: conditionReason_def lowers_def uppers_def digits_def)

lemma types: "conditionType ''Ready''" "conditionType ''Bound''" "conditionType ''DeviceHealthy''"
  by (simp_all add: conditionType_def qualifiedName_def lowers_def uppers_def digits_def)

lemma computePhase_report: "computePhase p b = (ph, reason, msg) \<Longrightarrow> servedPod p \<Longrightarrow> reportOk reason msg"
  using crashLoop_short [of p]
  by (auto simp: computePhase_def crashLoopBackOff_def reportOk_def reasons Let_def split: if_splits)

lemma boundPhase_report:
  "boundPhase d (ph, reason, msg) = (ph', reason', msg') \<Longrightarrow> deviceOk d \<Longrightarrow> reportOk reason msg \<Longrightarrow> reportOk reason' msg'"
  by (auto simp: boundPhase_def reportOk_def deviceOk_def reasons split: if_splits)

lemma connected_report: "boundPhase d (DeviceReady, ''Connected'', ''physical device connected'') = (ph, reason, msg) \<Longrightarrow> deviceOk d \<Longrightarrow> reportOk reason msg"
  by (erule boundPhase_report) (simp_all add: reportOk_def reasons)

lemma missingClass_report: "deviceOk d \<Longrightarrow> reportOk ''DeviceClassNotFound'' (''DeviceClass '' @ goQuote (devClass d) @ '' does not exist'')"
  using length_goQuote [of "devClass d"] by (simp add: reportOk_def reasons deviceOk_def)

lemma readyCondition_ok: "servedDevice d \<Longrightarrow> reportOk reason msg \<Longrightarrow> conditionOk (readyCondition d ph reason msg)"
  using types by (simp add: conditionOk_def readyCondition_def servedDevice_def generationOk_def reportOk_def)

lemma boundCondition_ok: "servedLease l \<Longrightarrow> reportOk reason msg \<Longrightarrow> conditionOk (boundCondition l ph reason msg)"
  using types by (simp add: conditionOk_def boundCondition_def servedLease_def generationOk_def reportOk_def)

lemma healthCondition_ok: "servedLease l \<Longrightarrow> reportOk reason msg \<Longrightarrow> conditionOk (healthCondition l (b, reason, msg))"
  using types by (simp add: conditionOk_def healthCondition_def servedLease_def generationOk_def reportOk_def)

lemma poolCondition_ok: "servedPool p \<Longrightarrow> conditionOk (poolCondition p b)"
  using types by (simp add: reasons conditionOk_def poolCondition_def servedPool_def generationOk_def)

end
