(* ===== verification/Boot.thy ===== *)
theory Boot
  imports Convergence Device_Properties Schema
begin

text \<open>
  What a device run achieves when nothing interferes, and the two controllers together. The interface
  \<open>farm_server\<close> extends \<open>api_server\<close> by the objects a device is made of: pods, Services, Jobs. One
  undisturbed run gives a Device without a pod its pod; once the pod is Ready, one run reports the
  device Ready with its endpoint, and a run of a lease waiting for its class binds it. The server takes
  a new Pod, Service or Job only if it is valid (\<open>Schema\<close>), and of a Pod also only if it accepts what the class
  puts into its spec, the parameter \<open>fit\<close>; so the runs are shown for devices whose names leave room for the
  suffixes of what is named after them (\<open>deviceName\<close>).
\<close>

subsection \<open>The interface\<close>

locale farm_server = api_server k devs leases
  for k :: "'w kube" and devs :: "'w \<Rightarrow> Device list" and leases :: "'w \<Rightarrow> DeviceLease list" +
  fixes pods :: "'w \<Rightarrow> pod list" and rest :: "'w \<Rightarrow> service list \<times> job list" and fit :: "podSpec \<Rightarrow> bool"
  assumes get_device: "run_state (apiGetDevice k key) w = (getObj devMeta key (devs w), w)"
    and get_pool: "\<exists>r. run_state (apiGetDevicePool k key) w = (r, w) \<and> (r = Inl ErrNotFound \<or> (\<exists>p. r = Inr p))"
    and get_pod: "run_state (apiGetPod k key) w = (getObj podMeta key (pods w), w)"
    and get_service: "run_state (apiGetService k key) w = (getObj svcMeta key (fst (rest w)), w)"
    and get_job: "run_state (apiGetJob k key) w = (getObj jobMeta key (snd (rest w)), w)"
    and own: "mOwnerReferences m = [] \<Longrightarrow> mNamespace m = mNamespace owner \<Longrightarrow> \<exists>m'. setControllerReference k kind owner m = Inr m' \<and> keyOf m' = keyOf m \<and> mLabels m' = mLabels m \<and>
      mGenerateName m' = mGenerateName m \<and> mAnnotations m' = mAnnotations m"
    and create_pod: "getObj podMeta (keyOf (podMeta p)) (pods w) = Inl ErrNotFound \<Longrightarrow> podOk p \<Longrightarrow> fit (podSpec p) \<Longrightarrow>
      \<exists>q w'. run_state (apiCreatePod k p) w = (Inr q, w') \<and> devs w' = devs w \<and> leases w' = leases w \<and>
        getObj podMeta (keyOf (podMeta p)) (pods w') = Inr q \<and> podSpec q = podSpec p \<and> podStatus q = podStatus p \<and>
        mLabels (podMeta q) = mLabels (podMeta p)"
    and create_service: "getObj svcMeta (keyOf (svcMeta s)) (fst (rest w)) = Inl ErrNotFound \<Longrightarrow> serviceOk s \<Longrightarrow>
      \<exists>q w'. run_state (apiCreateService k s) w = (Inr q, w') \<and> devs w' = devs w \<and> leases w' = leases w \<and> pods w' = pods w"
    and update_service: "getObj svcMeta (keyOf (svcMeta s)) (fst (rest w)) = Inr olds \<Longrightarrow>
      mResourceVersion (svcMeta s) = mResourceVersion (svcMeta olds) \<Longrightarrow> (serviceOk olds \<longrightarrow> serviceOk s) \<Longrightarrow>
      \<exists>q w'. run_state (apiUpdateService k s) w = (Inr q, w') \<and> devs w' = devs w \<and> leases w' = leases w \<and> pods w' = pods w"
    and create_job: "getObj jobMeta (keyOf (jobMeta j)) (snd (rest w)) = Inl ErrNotFound \<Longrightarrow> jobOk j \<Longrightarrow>
      \<exists>q w'. run_state (apiCreateJob k j) w = (Inr q, w') \<and> devs w' = devs w \<and> leases w' = leases w \<and> pods w' = pods w"
    and write_phase: "getObj devMeta (keyOf (devMeta x)) (devs w) = Inr old \<Longrightarrow>
      mResourceVersion (devMeta x) = mResourceVersion (devMeta old) \<Longrightarrow> \<not> devTerminating old \<Longrightarrow>
      \<exists>y w'. run_state (apiUpdateDeviceStatus k x) w = (Inr y, w') \<and> leases w' = leases w \<and> pods w' = pods w \<and>
        devs w' = putObj devMeta y (devs w) \<and> keyOf (devMeta y) = keyOf (devMeta x) \<and> mLabels (devMeta y) = mLabels (devMeta old) \<and>
        \<not> devTerminating y \<and> devSpec y = devSpec old \<and> devPhase y = devPhase x \<and> devLeaseRef y = devLeaseRef x \<and>
        dtADBEndpoint (devStatus y) = dtADBEndpoint (devStatus x)"
    and edit_device: "getObj devMeta (keyOf (devMeta x)) (devs w) = Inr old \<Longrightarrow>
      mResourceVersion (devMeta x) = mResourceVersion (devMeta old) \<Longrightarrow> \<not> devTerminating old \<Longrightarrow>
      \<exists>y w'. run_state (apiUpdateDevice k x) w = (Inr y, w') \<and> leases w' = leases w \<and> pods w' = pods w \<and>
        devs w' = putObj devMeta y (devs w) \<and> keyOf (devMeta y) = keyOf (devMeta x) \<and> mLabels (devMeta y) = mLabels (devMeta x) \<and>
        mAnnotations (devMeta y) = mAnnotations (devMeta x) \<and> \<not> devTerminating y \<and> devSpec y = devSpec x \<and> devStatus y = devStatus old"

definition hasDevice :: "Device list \<Rightarrow> Device \<Rightarrow> bool" where
  "hasDevice ds d \<longleftrightarrow> getObj devMeta (keyOf (devMeta d)) ds = Inr d \<and> \<not> devTerminating d"

definition keysOf :: "Device list \<Rightarrow> objectKey list" where
  "keysOf ds = map (\<lambda>d. keyOf (devMeta d)) ds"

lemma keysOf_putObj: "keysOf (putObj devMeta y ds) = keysOf ds"
  by (induction ds) (auto simp: keysOf_def putObj_def hasKey_def keyOf_def)

lemma hasDevice_putObj: "hasDevice ds d \<Longrightarrow> keyOf (devMeta y) = keyOf (devMeta d) \<Longrightarrow> \<not> devTerminating y \<Longrightarrow> hasDevice (putObj devMeta y ds) y"
  using getObj_putObj [of devMeta "keyOf (devMeta d)" ds d y] by (simp add: hasDevice_def)

definition devStep :: "Device list \<Rightarrow> Device \<Rightarrow> Device list \<Rightarrow> Device \<Rightarrow> bool" where
  \<comment> \<open>the stored device \<open>d\<close> has become \<open>y\<close>, under its key, with its labels, spec and binding, and the others are as they were\<close>
  "devStep ds d ds' y \<longleftrightarrow> hasDevice ds' y \<and> keysOf ds' = keysOf ds \<and> keyOf (devMeta y) = keyOf (devMeta d) \<and>
     mLabels (devMeta y) = mLabels (devMeta d) \<and> devSpec y = devSpec d \<and> devLeaseRef y = devLeaseRef d \<and>
     {x \<in> set ds'. keyOf (devMeta x) \<noteq> keyOf (devMeta d)} \<subseteq> set ds"

lemma devStep_refl: "hasDevice ds d \<Longrightarrow> devStep ds d ds d"
  by (auto simp: devStep_def)

lemma devStep_trans: "devStep ds d ds1 y \<Longrightarrow> devStep ds1 y ds2 z \<Longrightarrow> devStep ds d ds2 z"
  by (auto simp: devStep_def)

lemma devStep_others: "devStep ds d ds' y \<Longrightarrow> x \<in> set ds' \<Longrightarrow> keyOf (devMeta x) \<noteq> keyOf (devMeta d) \<Longrightarrow> x \<in> set ds"
  by (auto simp: devStep_def)

lemma devStep_put:
  "hasDevice ds d \<Longrightarrow> keyOf (devMeta y) = keyOf (devMeta d) \<Longrightarrow> \<not> devTerminating y \<Longrightarrow> mLabels (devMeta y) = mLabels (devMeta d) \<Longrightarrow>
   devSpec y = devSpec d \<Longrightarrow> devLeaseRef y = devLeaseRef d \<Longrightarrow> devStep ds d (putObj devMeta y ds) y"
  using set_putObj [of devMeta y ds] by (auto simp: devStep_def keysOf_putObj hasDevice_putObj)

subsection \<open>The steps of a device run\<close>

context farm_server
begin

lemma setPhase_run:
  assumes d: "hasDevice (devs w) d"
  shows "\<exists>y w'. run_state (setPhase k d ph adb reason msg) w = (Inr emptyResult, w') \<and> leases w' = leases w \<and> pods w' = pods w \<and>
    devStep (devs w) d (devs w') y \<and> devPhase y = ph \<and> (adb \<noteq> [] \<longrightarrow> dtADBEndpoint (devStatus y) = adb)"
proof -
  obtain b cs where c: "run_state (setStatusCondition k (dtConditions (devStatus d)) (readyCondition d ph reason msg)) w = ((b, cs), w)"
    using conditions by blast
  show ?thesis
  proof (cases "devPhase d = ph \<and> (adb = [] \<or> dtADBEndpoint (devStatus d) = adb) \<and> \<not> b")
    case True
    then show ?thesis using c devStep_refl [OF d] unfolding setPhase_phased by auto
  next
    case False
    have "getObj devMeta (keyOf (devMeta (phased d ph adb cs))) (devs w) = Inr d" using d by (simp add: hasDevice_def)
    from write_phase [OF this] d obtain y w' where y: "run_state (apiUpdateDeviceStatus k (phased d ph adb cs)) w = (Inr y, w')"
      "leases w' = leases w" "pods w' = pods w" "devs w' = putObj devMeta y (devs w)" "keyOf (devMeta y) = keyOf (devMeta d)"
      "mLabels (devMeta y) = mLabels (devMeta d)" "\<not> devTerminating y" "devSpec y = devSpec d" "devPhase y = ph" "devLeaseRef y = devLeaseRef d"
      "dtADBEndpoint (devStatus y) = (if adb = [] then dtADBEndpoint (devStatus d) else adb)"
      by (auto simp: hasDevice_def)
    moreover have "devStep (devs w) d (devs w') y" using devStep_put [OF d y(5,7,6,8,10)] y(4) by simp
    moreover have "run_state (setPhase k d ph adb reason msg) w = (Inr emptyResult, w')"
      unfolding setPhase_phased using c False y(1) by auto
    ultimately show ?thesis by auto
  qed
qed

lemma markHealthy_run:
  assumes d: "hasDevice (devs w) d"
  shows "\<exists>y w'. run_state (markHealthy k d) w = (Inr y, w') \<and> leases w' = leases w \<and> pods w' = pods w \<and>
    devStep (devs w) d (devs w') y \<and> devSpec y = devSpec d"
proof (cases "devAnnotations d = healthyAnnotations d")
  case True
  then show ?thesis using devStep_refl [OF d] by (simp add: markHealthy_annotations)
next
  case False
  let ?x = "setAnnotations (healthyAnnotations d) d"
  have x: "keyOf (devMeta ?x) = keyOf (devMeta d)" "mLabels (devMeta ?x) = mLabels (devMeta d)" "devSpec ?x = devSpec d"
    "mResourceVersion (devMeta ?x) = mResourceVersion (devMeta d)" by (simp_all add: setAnnotations_def keyOf_def)
  have "getObj devMeta (keyOf (devMeta ?x)) (devs w) = Inr d" using d x(1) by (simp add: hasDevice_def)
  from edit_device [OF this x(4)] d obtain y w' where y: "run_state (apiUpdateDevice k ?x) w = (Inr y, w')"
    "leases w' = leases w" "pods w' = pods w" "devs w' = putObj devMeta y (devs w)" "keyOf (devMeta y) = keyOf (devMeta d)"
    "mLabels (devMeta y) = mLabels (devMeta d)" "\<not> devTerminating y" "devSpec y = devSpec d" "devStatus y = devStatus d"
    using x by (auto simp: hasDevice_def)
  moreover have "devStep (devs w) d (devs w') y" using devStep_put [OF d y(5,7,6,8)] y(4,9) by simp
  ultimately show ?thesis using False by (auto simp: markHealthy_annotations)
qed

lemma ensureService_run:
  assumes "deviceName (devName d)"
  shows "\<exists>w'. run_state (ensureService k d) w = (Inr (), w') \<and> devs w' = devs w \<and> leases w' = leases w \<and> pods w' = pods w"
proof (cases "getObj svcMeta (devNamespace d, adbServiceName d) (fst (rest w))")
  case (Inl e)
  then have e: "e = ErrNotFound" by (auto simp: getObj_def split: option.splits)
  obtain m where m: "setControllerReference k ''Device'' (devMeta d) (svcMeta (adbService d)) = Inr m" "keyOf m = keyOf (svcMeta (adbService d))"
    "mLabels m = mLabels (svcMeta (adbService d))"
    using own [of "svcMeta (adbService d)" "devMeta d"] by (auto simp: adbService_def emptyMeta_def)
  have key: "keyOf m = (devNamespace d, adbServiceName d)" using m(2) by (simp add: adbService_def emptyMeta_def keyOf_def)
  have "svcMeta (setServiceMeta m (adbService d)) = m" by (simp add: setServiceMeta_def)
  moreover have "serviceOk (setServiceMeta m (adbService d))"
    using adbService_ok [OF assms] m(2,3) by (simp add: serviceOk_def setServiceMeta_def keyOf_def)
  ultimately obtain q w' where "run_state (apiCreateService k (setServiceMeta m (adbService d))) w = (Inr q, w')"
    "devs w' = devs w" "leases w' = leases w" "pods w' = pods w"
    using create_service [of "setServiceMeta m (adbService d)" w] Inl e key by auto
  with Inl e m(1) show ?thesis by (simp add: ensureService_def get_service Let_def)
next
  case (Inr s)
  obtain s' c where s': "driftedService s = (s', c)" by force
  then have "svcMeta s' = svcMeta s" by (auto simp: driftedService_def Let_def split: if_splits list.splits)
  then obtain q w' where "run_state (apiUpdateService k s') w = (Inr q, w')" "devs w' = devs w" "leases w' = leases w" "pods w' = pods w"
    using update_service [of s' w s] Inr getObj_key [OF Inr] driftedService_ok [OF _ s'] by auto
  with Inr s' show ?thesis by (cases c) (simp_all add: ensureService_def get_service)
qed

lemma ensureRegistration_run:
  assumes "deviceName (devName d)"
  shows "\<exists>w'. run_state (ensureRegistration k d adb) w = (Inr (), w') \<and> devs w' = devs w \<and> leases w' = leases w \<and> pods w' = pods w"
proof (cases "dsPoolRef (devSpec d) = []")
  case False
  obtain r where r: "run_state (apiGetDevicePool k (devNamespace d, dsPoolRef (devSpec d))) w = (r, w)" "r = Inl ErrNotFound \<or> (\<exists>p. r = Inr p)"
    using get_pool by blast
  show ?thesis
  proof (cases "\<exists>p stf. r = Inr p \<and> dpsSTFRef (poolSpec p) = Some stf \<and> stfADBHost stf \<noteq> []")
    case True
    then obtain p stf where p: "r = Inr p" "dpsSTFRef (poolSpec p) = Some stf" "stfADBHost stf \<noteq> []" by blast
    show ?thesis
    proof (cases "getObj jobMeta (devNamespace d, devName d @ ''-register'') (snd (rest w))")
      case (Inl e)
      then have e: "e = ErrNotFound" by (auto simp: getObj_def split: option.splits)
      let ?j = "registrationJob d (stfADBHost stf) adb"
      obtain m where m: "setControllerReference k ''Device'' (devMeta d) (jobMeta ?j) = Inr m" "keyOf m = keyOf (jobMeta ?j)"
        "mLabels m = mLabels (jobMeta ?j)"
        using own [of "jobMeta ?j" "devMeta d"] by (auto simp: registrationJob_def emptyMeta_def)
      have key: "keyOf m = (devNamespace d, devName d @ ''-register'')" using m(2) by (simp add: registrationJob_def emptyMeta_def keyOf_def)
      have "jobMeta (setJobMeta m ?j) = m" by (simp add: setJobMeta_def)
      moreover have "jobOk (setJobMeta m ?j)"
        using registrationJob_ok [OF assms] m(2,3) by (simp add: jobOk_def setJobMeta_def keyOf_def)
      ultimately obtain q w' where "run_state (apiCreateJob k (setJobMeta m ?j)) w = (Inr q, w')"
        "devs w' = devs w" "leases w' = leases w" "pods w' = pods w"
        using create_job [of "setJobMeta m ?j" w] Inl e key by auto
      with Inl e m(1) p r(1) False show ?thesis by (simp add: ensureRegistration_def get_job Let_def)
    next
      case (Inr j)
      with p r(1) False show ?thesis by (simp add: ensureRegistration_def get_job)
    qed
  next
    case none: False
    with r False show ?thesis by (auto simp: ensureRegistration_def split: option.splits)
  qed
qed (simp add: ensureRegistration_def)

lemma new_pod_run:
  assumes "getObj podMeta (devNamespace d, emulatorPodName d) (pods w) = Inl ErrNotFound"
    and "deviceName (devName d)" and "fit (podSpec (buildPod d dc))"
  shows "\<exists>p w'. run_state (ensurePod k d dc) w = (Inr p, w') \<and> devs w' = devs w \<and> leases w' = leases w \<and>
    getObj podMeta (devNamespace d, emulatorPodName d) (pods w') = Inr p \<and> podSpec p = podSpec (buildPod d dc) \<and>
    podStatus p = emptyPodStatus \<and> mLabels (podMeta p) = deviceSelector d"
proof -
  let ?b = "buildPod d dc"
  have b: "keyOf (podMeta ?b) = (devNamespace d, emulatorPodName d)" "mOwnerReferences (podMeta ?b) = []" "podStatus ?b = emptyPodStatus"
    "mLabels (podMeta ?b) = deviceSelector d"
    by (simp_all add: buildPod_def Let_def keyOf_def emptyMeta_def)
  obtain m where m: "setControllerReference k ''Device'' (devMeta d) (podMeta ?b) = Inr m" "keyOf m = (devNamespace d, emulatorPodName d)"
    "mLabels m = deviceSelector d" using own [OF b(2), of "devMeta d"] b(1,4) by (auto simp: keyOf_def)
  have x: "podMeta (setPodMeta m ?b) = m" "podSpec (setPodMeta m ?b) = podSpec ?b" "podStatus (setPodMeta m ?b) = emptyPodStatus"
    using b(3) by (simp_all add: setPodMeta_def)
  have "podOk (setPodMeta m ?b)" using buildPod_ok [OF assms(2), of dc] b m(2,3) x(1,2) by (simp add: podOk_def keyOf_def)
  then obtain q w' where "run_state (apiCreatePod k (setPodMeta m ?b)) w = (Inr q, w')" "devs w' = devs w" "leases w' = leases w"
    "getObj podMeta (devNamespace d, emulatorPodName d) (pods w') = Inr q" "podSpec q = podSpec ?b" "podStatus q = emptyPodStatus"
    "mLabels (podMeta q) = deviceSelector d"
    using create_pod [of "setPodMeta m ?b" w] assms(1,3) x m by auto
  with assms(1) m(1) show ?thesis by (simp add: ensurePod_def get_pod Let_def)
qed

lemma healthy_run:
  assumes d: "hasDevice (devs w) d" and "computePhase p (devAnnotations d annBooted = Some ''true'') = (DeviceReady, reason, msg)"
    and name: "deviceName (devName d)"
  shows "\<exists>y w'. run_state (reconcileEmulator k d p) w = (Inr emptyResult, w') \<and> leases w' = leases w \<and> pods w' = pods w \<and>
    devStep (devs w) d (devs w') y \<and> devPhase y = (if devLeaseRef d = [] then DeviceReady else DeviceLeased) \<and>
    dtADBEndpoint (devStatus y) = adbEndpointOf d"
proof -
  let ?adb = "adbEndpointOf d"
  obtain w1 where w1: "run_state (ensureRegistration k d ?adb) w = (Inr (), w1)" "devs w1 = devs w" "leases w1 = leases w" "pods w1 = pods w"
    using ensureRegistration_run [OF name] by blast
  obtain z w2 where z: "run_state (markHealthy k d) w1 = (Inr z, w2)" "leases w2 = leases w" "pods w2 = pods w" "devStep (devs w) d (devs w2) z"
    using markHealthy_run [of w1 d] d w1 by auto
  obtain ph rs ms where ph: "boundPhase z (DeviceReady, reason, msg) = (ph, rs, ms)" by (cases "boundPhase z (DeviceReady, reason, msg)")
  with z(4) have "ph = (if devLeaseRef d = [] then DeviceReady else DeviceLeased)"
    by (auto simp: boundPhase_def devStep_def split: if_splits)
  note ph = ph this
  have "hasDevice (devs w2) z" using z(4) by (simp add: devStep_def)
  from setPhase_run [OF this, of ph ?adb rs ms] obtain y w' where y: "run_state (setPhase k z ph ?adb rs ms) w2 = (Inr emptyResult, w')"
    "leases w' = leases w2" "pods w' = pods w2" "devStep (devs w2) z (devs w') y" "devPhase y = ph" "dtADBEndpoint (devStatus y) = ?adb"
    by (auto simp: adbEndpointOf_def)
  then show ?thesis using w1 z ph devStep_trans [OF z(4) y(4)] assms(2)
    by (auto simp: reconcileEmulator_def Let_def)
qed

lemma provisioning_run:
  assumes d: "hasDevice (devs w) d" and "devAnnotations d annBooted \<noteq> Some ''true''" and "podStatus p = emptyPodStatus"
  shows "\<exists>y w'. run_state (reconcileEmulator k d p) w = (Inr emptyResult, w') \<and> leases w' = leases w \<and> pods w' = pods w \<and>
    devStep (devs w) d (devs w') y \<and> devPhase y = DeviceProvisioning"
proof -
  have "computePhase p False = (DeviceProvisioning, ''Provisioning'', ''waiting for emulator to boot'')"
    using assms(3) by (simp add: computePhase_def crashLoopReason_def podReady_def emptyPodStatus_def)
  with setPhase_run [OF d] assms(2) show ?thesis by (simp add: reconcileEmulator_def Let_def) metis
qed

lemma run_deviceReconcile:
  assumes "hasDevice (devs w) d" and "dsProviderType (devSpec d) \<noteq> ProviderPhysical" and "deviceName (devName d)"
    and "run_state (apiGetDeviceClass k (devClass d)) w = (Inr dc, w)"
  obtains w1 where "devs w1 = devs w" and "leases w1 = leases w" and "pods w1 = pods w"
    and "run_state (deviceReconcile k (keyOf (devMeta d))) w = run_state (tryE (ensurePod k d dc) (reconcileEmulator k d)) w1"
proof -
  obtain w1 where "run_state (ensureService k d) w = (Inr (), w1)" "devs w1 = devs w" "leases w1 = leases w" "pods w1 = pods w"
    using ensureService_run [OF assms(3)] by blast
  with assms show ?thesis by (intro that [of w1]) (simp_all add: deviceReconcile_def get_device hasDevice_def)
qed

end

subsection \<open>The reference server provides it\<close>

lemma createObj_new:
  assumes "getObj mt (keyOf (mt x)) xs = Inl ErrNotFound" and "mName (mt x) \<noteq> []" and "\<And>f z. mt (mm f z) = f (mt z)"
  shows "createObj mt mm v x xs = (Inr (mm (createdMeta v) x), xs @ [mm (createdMeta v) x])"
    and "getObj mt (keyOf (mt x)) (xs @ [mm (createdMeta v) x]) = Inr (mm (createdMeta v) x)"
proof -
  have key: "mNamespace (mt (mm (createdMeta v) x)) = mNamespace (mt x)" "mName (mt (mm (createdMeta v) x)) = mName (mt x)"
    using assms(2,3) by (simp_all add: createdMeta_def)
  have none: "find (\<lambda>z. hasKey (mNamespace (mt x), mName (mt x)) (mt z)) xs = None"
    using assms(1) by (simp add: getObj_def keyOf_def split: option.splits)
  then show "createObj mt mm v x xs = (Inr (mm (createdMeta v) x), xs @ [mm (createdMeta v) x])"
    by (simp add: createObj_def key Let_def)
  show "getObj mt (keyOf (mt x)) (xs @ [mm (createdMeta v) x]) = Inr (mm (createdMeta v) x)"
    using none key by (induction xs) (auto simp: getObj_def keyOf_def hasKey_def split: if_splits)
qed

lemma mapMeta [simp]:
  "podMeta (mapPodMeta f p) = f (podMeta p)" "svcMeta (mapSvcMeta f s) = f (svcMeta s)" "jobMeta (mapJobMeta f j) = f (jobMeta j)"
  "podSpec (mapPodMeta f p) = podSpec p" "podStatus (mapPodMeta f p) = podStatus p"
  by (simp_all add: mapPodMeta_def mapSvcMeta_def mapJobMeta_def)

lemma writeObj_live:
  assumes "getObj mt (keyOf (mt x)) xs = Inr old" and "mResourceVersion (mt x) = mResourceVersion (mt old)"
    and "\<And>f z. mt (mm f z) = f (mt z)" and "mDeletionTimestamp (mt (mrg old x)) = None"
  shows "writeObj mt mm mrg v x xs = (let y = mm (\<lambda>m. m\<lparr>mResourceVersion := Suc v\<rparr>) (mrg old x) in (Inr y, putObj mt y xs))"
  using assms by (simp add: writeObj_accepted Let_def)

lemma getObj_cases: "getObj mt key xs = Inl ErrNotFound \<or> (\<exists>x. getObj mt key xs = Inr x)"
  by (simp add: getObj_def split: option.split)

lemma kinds_named: "podOk p \<Longrightarrow> mName (podMeta p) \<noteq> []" "serviceOk s \<Longrightarrow> mName (svcMeta s) \<noteq> []" "jobOk j \<Longrightarrow> mName (jobMeta j) \<noteq> []"
  by (auto simp: podOk_def serviceOk_def jobOk_def dns1035Label_def dnsLabel_def dnsPart_def)

interpretation mem_farm: farm_server mem clDevices clLeases clPods "\<lambda>c. (clServices c, clJobs c)" "\<lambda>_. True"
proof
  fix x :: Device and c :: cluster and old
  assume old: "getObj devMeta (keyOf (devMeta x)) (clDevices c) = Inr old"
    and v: "mResourceVersion (devMeta x) = mResourceVersion (devMeta old)" and nt: "\<not> devTerminating old"
  have key: "keyOf (devMeta old) = keyOf (devMeta x)" using getObj_key [OF old] by simp
  have mt: "devMeta (mapDevMeta f z) = f (devMeta z)" for f z by (simp add: mapDevMeta_def)
  let ?y = "mapDevMeta (\<lambda>m. m\<lparr>mResourceVersion := Suc (clVersion c)\<rparr>) (mergeDeviceStatus old x)"
  have "run_state (apiUpdateDeviceStatus mem x) c =
      (Inr ?y, c\<lparr>clDevices := putObj devMeta ?y (clDevices c), clVersion := Suc (clVersion c)\<rparr>)"
    using writeObj_live [where mt = devMeta and mm = mapDevMeta and mrg = mergeDeviceStatus and v = "clVersion c", OF old v mt] nt
    by (simp add: mem_def onDevices_def run_writes Let_def mergeDeviceStatus_def)
  then show "\<exists>y c'. run_state (apiUpdateDeviceStatus mem x) c = (Inr y, c') \<and> clLeases c' = clLeases c \<and> clPods c' = clPods c \<and>
        clDevices c' = putObj devMeta y (clDevices c) \<and> keyOf (devMeta y) = keyOf (devMeta x) \<and> mLabels (devMeta y) = mLabels (devMeta old) \<and>
        \<not> devTerminating y \<and> devSpec y = devSpec old \<and> devPhase y = devPhase x \<and> devLeaseRef y = devLeaseRef x \<and>
        dtADBEndpoint (devStatus y) = dtADBEndpoint (devStatus x)"
    using key nt by (intro exI [of _ ?y]) (simp add: mapDevMeta_def mergeDeviceStatus_def storedDevStatus_def keyOf_def)
  let ?z = "mapDevMeta (\<lambda>m. m\<lparr>mResourceVersion := Suc (clVersion c)\<rparr>) (mergeDevice old x)"
  have "run_state (apiUpdateDevice mem x) c =
      (Inr ?z, c\<lparr>clDevices := putObj devMeta ?z (clDevices c), clVersion := Suc (clVersion c)\<rparr>)"
    using writeObj_live [where mt = devMeta and mm = mapDevMeta and mrg = mergeDevice and v = "clVersion c", OF old v mt] nt
    by (simp add: mem_def onDevices_def run_writes Let_def mergeDevice_def mergeMeta_def)
  then show "\<exists>y c'. run_state (apiUpdateDevice mem x) c = (Inr y, c') \<and> clLeases c' = clLeases c \<and> clPods c' = clPods c \<and>
        clDevices c' = putObj devMeta y (clDevices c) \<and> keyOf (devMeta y) = keyOf (devMeta x) \<and> mLabels (devMeta y) = mLabels (devMeta x) \<and>
        mAnnotations (devMeta y) = mAnnotations (devMeta x) \<and> \<not> devTerminating y \<and> devSpec y = devSpec x \<and> devStatus y = devStatus old"
    using key nt by (intro exI [of _ ?z]) (simp add: mapDevMeta_def mergeDevice_def mergeMeta_def keyOf_def)
next
  fix m owner :: objectMeta and kind :: string assume "mOwnerReferences m = []"
  then show "\<exists>m'. setControllerReference mem kind owner m = Inr m' \<and> keyOf m' = keyOf m \<and> mLabels m' = mLabels m \<and>
      mGenerateName m' = mGenerateName m \<and> mAnnotations m' = mAnnotations m"
    by (simp add: mem_def ownedBy_def controllerOf_def Let_def keyOf_def)
next
  fix p :: pod and c :: cluster assume p: "getObj podMeta (keyOf (podMeta p)) (clPods c) = Inl ErrNotFound" and ok: "podOk p"
  show "\<exists>q c'. run_state (apiCreatePod mem p) c = (Inr q, c') \<and> clDevices c' = clDevices c \<and> clLeases c' = clLeases c \<and>
        getObj podMeta (keyOf (podMeta p)) (clPods c') = Inr q \<and> podSpec q = podSpec p \<and> podStatus q = podStatus p \<and>
        mLabels (podMeta q) = mLabels (podMeta p)"
    using createObj_new [OF p kinds_named(1) [OF ok], of mapPodMeta "clVersion c"]
    by (simp add: mem_def onPods_def run_writes createdMeta_def)
next
  fix s :: service and c :: cluster assume s: "getObj svcMeta (keyOf (svcMeta s)) (fst (clServices c, clJobs c)) = Inl ErrNotFound" and ok: "serviceOk s"
  show "\<exists>q c'. run_state (apiCreateService mem s) c = (Inr q, c') \<and> clDevices c' = clDevices c \<and> clLeases c' = clLeases c \<and> clPods c' = clPods c"
    using createObj_new [OF s [unfolded fst_conv] kinds_named(2) [OF ok], of mapSvcMeta "clVersion c"] by (simp add: mem_def onServices_def run_writes)
next
  fix s old :: service and c :: cluster
  assume "getObj svcMeta (keyOf (svcMeta s)) (fst (clServices c, clJobs c)) = Inr old" "mResourceVersion (svcMeta s) = mResourceVersion (svcMeta old)"
  then show "\<exists>q c'. run_state (apiUpdateService mem s) c = (Inr q, c') \<and> clDevices c' = clDevices c \<and> clLeases c' = clLeases c \<and> clPods c' = clPods c"
    by (simp add: mem_def onServices_def run_writes writeObj_accepted Let_def)
next
  fix j :: job and c :: cluster assume j: "getObj jobMeta (keyOf (jobMeta j)) (snd (clServices c, clJobs c)) = Inl ErrNotFound" and ok: "jobOk j"
  show "\<exists>q c'. run_state (apiCreateJob mem j) c = (Inr q, c') \<and> clDevices c' = clDevices c \<and> clLeases c' = clLeases c \<and> clPods c' = clPods c"
    using createObj_new [OF j [unfolded snd_conv] kinds_named(3) [OF ok], of mapJobMeta "clVersion c"] by (simp add: mem_def onJobs_def run_writes)
next
  show "\<exists>r. run_state (apiGetDevicePool mem key) c = (r, c) \<and> (r = Inl ErrNotFound \<or> (\<exists>p. r = Inr p))" for key c
    using getObj_cases [of poolMeta key "clPools c"] by (simp add: mem_def reads_def)
qed (simp_all add: mem_def reads_def)

subsection \<open>What one run achieves\<close>

definition podHealthy :: "pod \<Rightarrow> bool" where
  \<comment> \<open>Ready, with no container crash-looping, and not ended\<close>
  "podHealthy p \<longleftrightarrow> podReady p \<and> crashLoopReason p = [] \<and> pstPhase (podStatus p) \<noteq> PodFailed \<and> pstPhase (podStatus p) \<noteq> PodSucceeded"

lemma computePhase_healthy: "podHealthy p \<Longrightarrow> computePhase p booted = (DeviceReady, ''BootCompleted'', ''emulator booted and ready'')"
  by (simp add: podHealthy_def computePhase_def)

context farm_server
begin

lemma healthy_reconcile:
  assumes d: "getObj devMeta key (devs w) = Inr d" "\<not> devTerminating d" "dsProviderType (devSpec d) \<noteq> ProviderPhysical" "deviceName (devName d)"
    and dc: "run_state (apiGetDeviceClass k (devClass d)) w = (Inr dc, w)"
    and p: "getObj podMeta (devNamespace d, emulatorPodName d) (pods w) = Inr p" "podHealthy p"
  shows "\<exists>y w'. run_state (deviceReconcile k key) w = (Inr emptyResult, w') \<and> leases w' = leases w \<and> pods w' = pods w \<and>
    devStep (devs w) d (devs w') y \<and> devPhase y = (if devLeaseRef d = [] then DeviceReady else DeviceLeased) \<and>
    dtADBEndpoint (devStatus y) = adbEndpointOf d"
proof -
  have key: "keyOf (devMeta d) = key" using getObj_key [OF d(1)] by simp
  then have has: "hasDevice (devs w) d" using d by (simp add: hasDevice_def)
  obtain w1 where w1: "devs w1 = devs w" "leases w1 = leases w" "pods w1 = pods w"
    "run_state (deviceReconcile k key) w = run_state (tryE (ensurePod k d dc) (reconcileEmulator k d)) w1"
    using run_deviceReconcile [OF has d(3,4) dc] key by blast
  have "run_state (ensurePod k d dc) w1 = (Inr p, w1)" using p(1) w1(3) by (simp add: ensurePod_def get_pod)
  with healthy_run [of w1 d p, OF _ computePhase_healthy [OF p(2)] d(4)] w1 has show ?thesis by simp
qed

lemma new_pod_reconcile:
  assumes d: "getObj devMeta key (devs w) = Inr d" "\<not> devTerminating d" "dsProviderType (devSpec d) \<noteq> ProviderPhysical" "deviceName (devName d)"
    and dc: "run_state (apiGetDeviceClass k (devClass d)) w = (Inr dc, w)"
    and p: "getObj podMeta (devNamespace d, emulatorPodName d) (pods w) = Inl ErrNotFound" "devAnnotations d annBooted \<noteq> Some ''true''"
      "fit (podSpec (buildPod d dc))"
  shows "\<exists>y q w'. run_state (deviceReconcile k key) w = (Inr emptyResult, w') \<and> leases w' = leases w \<and>
    getObj podMeta (devNamespace d, emulatorPodName d) (pods w') = Inr q \<and> podSpec q = podSpec (buildPod d dc) \<and>
    mLabels (podMeta q) = deviceSelector d \<and> devStep (devs w) d (devs w') y \<and> devPhase y = DeviceProvisioning"
proof -
  have key: "keyOf (devMeta d) = key" using getObj_key [OF d(1)] by simp
  then have has: "hasDevice (devs w) d" using d by (simp add: hasDevice_def)
  obtain w1 where w1: "devs w1 = devs w" "leases w1 = leases w" "pods w1 = pods w"
    "run_state (deviceReconcile k key) w = run_state (tryE (ensurePod k d dc) (reconcileEmulator k d)) w1"
    using run_deviceReconcile [OF has d(3,4) dc] key by blast
  obtain q w2 where q: "run_state (ensurePod k d dc) w1 = (Inr q, w2)" "devs w2 = devs w1" "leases w2 = leases w1"
    "getObj podMeta (devNamespace d, emulatorPodName d) (pods w2) = Inr q" "podSpec q = podSpec (buildPod d dc)"
    "podStatus q = emptyPodStatus" "mLabels (podMeta q) = deviceSelector d"
    using new_pod_run [of d w1 dc] p(1,3) d(4) w1(3) by auto
  from provisioning_run [of w2 d q, OF _ p(2) q(6)] has q(2) w1(1) obtain y w' where
    "run_state (reconcileEmulator k d q) w2 = (Inr emptyResult, w')" "leases w' = leases w2" "pods w' = pods w2"
    "devStep (devs w2) d (devs w') y" "devPhase y = DeviceProvisioning" by auto
  with q w1 show ?thesis by (intro exI [of _ y] exI [of _ q] exI [of _ w']) simp
qed

lemma handover:
  assumes d: "getObj devMeta dkey (devs w) = Inr d" "\<not> devTerminating d" "dsProviderType (devSpec d) \<noteq> ProviderPhysical" "deviceName (devName d)"
    and dc: "run_state (apiGetDeviceClass k (devClass d)) w = (Inr dc, w)"
    and p: "getObj podMeta (devNamespace d, emulatorPodName d) (pods w) = Inr p" "podHealthy p"
    and le: "getObj leaseMeta lkey (leases w) = Inr le" "\<not> leaseTerminating le" "leaseFinalizer \<in> set (mFinalizers (leaseMeta le))"
      "leasePhase le \<in> {LeasePhaseUnset, LeasePending}"
    and free: "devLeaseRef d = []" "devNamespace d = leaseNamespace le" "mLabels (devMeta d) LabelClass = Some (lsClassRef (leaseSpec le))"
    and keys: "distinct (map (\<lambda>d. keyOf (devMeta d)) (devs w))"
  shows "\<exists>res le' y d0 w'. run_state (do { _ \<leftarrow> deviceReconcile k dkey; leaseReconcile k lkey }) w = (Inr res, w') \<and>
    getObj leaseMeta lkey (leases w') = Inr le' \<and> leasePhase le' = LeaseBound \<and> y \<in> set (devs w') \<and>
    devNamespace y = leaseNamespace le \<and> ltDeviceRef (leaseStatus le') = devName y \<and> devLeaseRef y = leaseName le \<and>
    d0 \<in> set (devs w) \<and> keyOf (devMeta d0) = keyOf (devMeta y) \<and> (d0 = d \<or> keyOf (devMeta d0) \<noteq> dkey \<and> givenOrFree le d0)"
proof -
  have in_w: "d \<in> set (devs w)" "keyOf (devMeta d) = dkey" using getObj_key [OF d(1)] by simp_all
  obtain y w1 where y: "run_state (deviceReconcile k dkey) w = (Inr emptyResult, w1)" "leases w1 = leases w"
    "devStep (devs w) d (devs w1) y" "devPhase y = DeviceReady"
    using healthy_reconcile [OF d dc p] free(1) by auto
  have ty: "getObj devMeta (keyOf (devMeta y)) (devs w1) = Inr y" "\<not> devTerminating y" "devLeaseRef y = []"
    "mLabels (devMeta y) LabelClass = Some (lsClassRef (leaseSpec le))" "devNamespace y = leaseNamespace le"
    using y(3) free by (auto simp: devStep_def hasDevice_def keyOf_def)
  have keys1: "distinct (map (\<lambda>d. keyOf (devMeta d)) (devs w1))" using y(3) keys by (simp add: devStep_def keysOf_def)
  have some: "\<exists>d \<in> set (devs w1). devNamespace d = leaseNamespace le \<and> givenOrFree le d"
    using ty y(4) getObj_key [OF ty(1)] by (intro bexI [of _ y]) (simp_all add: freeAndReady_def givenOrFree_def)
  have le1: "getObj leaseMeta lkey (leases w1) = Inr le" using le(1) y(2) by simp
  have st: "storedIn (leases w1) le" "keyOf (leaseMeta le) = lkey" using stored_key [OF le1] by simp_all
  obtain res le' z d1 w' where z: "run_state (reconcilePending k le) w1 = (Inr res, w')"
    "getObj leaseMeta lkey (leases w') = Inr le'" "leasePhase le' = LeaseBound" "z \<in> set (devs w')" "devNamespace z = leaseNamespace le"
    "ltDeviceRef (leaseStatus le') = devName z" "devLeaseRef z = leaseName le"
    "d1 \<in> set (devs w1)" "keyOf (devMeta d1) = keyOf (devMeta z)" "givenOrFree le d1"
    using pending_run [OF st(1) le(2) keys1 some] st(2) by auto
  have "\<exists>d0 \<in> set (devs w). keyOf (devMeta d0) = keyOf (devMeta z) \<and> (d0 = d \<or> keyOf (devMeta d0) \<noteq> dkey \<and> givenOrFree le d0)"
  proof (cases "keyOf (devMeta d1) = dkey")
    case True
    then show ?thesis using in_w z(9) by auto
  next
    case False
    then have "d1 \<in> set (devs w)" using devStep_others [OF y(3) z(8)] in_w(2) by simp
    with False z(9,10) show ?thesis by blast
  qed
  moreover have "run_state (do { _ \<leftarrow> deviceReconcile k dkey; leaseReconcile k lkey }) w = (Inr res, w')"
    using run_leaseReconcile(2) [OF le1 le(2-4)] y(1) z(1) by simp
  ultimately show ?thesis using z(2-7) by blast
qed

end

text \<open>Undisturbed, one run of the device controller on an emulator device without a pod creates that pod, as
  built from the device and its class, and reports the device Provisioning.\<close>

theorem missing_pod_is_created:
  assumes "farm_server k devs leases pods rest fit" and "getObj devMeta key (devs w) = Inr d" and "\<not> devTerminating d"
    and "dsProviderType (devSpec d) \<noteq> ProviderPhysical" and "deviceName (devName d)"
    and "run_state (apiGetDeviceClass k (devClass d)) w = (Inr dc, w)"
    and "getObj podMeta (devNamespace d, devName d @ ''-emulator'') (pods w) = Inl ErrNotFound"
    and "devAnnotations d annBooted \<noteq> Some ''true''" and "fit (podSpec (buildPod d dc))"
  shows "\<exists>y q w'. run_state (deviceReconcile k key) w = (Inr emptyResult, w') \<and>
    getObj podMeta (devNamespace d, devName d @ ''-emulator'') (pods w') = Inr q \<and> podSpec q = podSpec (buildPod d dc) \<and>
    mLabels (podMeta q) = deviceSelector d \<and> getObj devMeta key (devs w') = Inr y \<and> devPhase y = DeviceProvisioning"
  using farm_server.new_pod_reconcile [OF assms(1-6) _ assms(8,9)] assms(7) getObj_key [OF assms(2)]
  by (fastforce simp: devStep_def hasDevice_def emulatorPodName_def)

text \<open>Undisturbed, one run of the device controller on a device whose pod is Ready and healthy reports it
  usable: Ready when no lease holds it, Leased otherwise, at its adb endpoint and still bound as before.\<close>

theorem ready_pod_makes_device_usable:
  assumes "farm_server k devs leases pods rest fit" and "getObj devMeta key (devs w) = Inr d" and "\<not> devTerminating d"
    and "dsProviderType (devSpec d) \<noteq> ProviderPhysical" and "deviceName (devName d)"
    and "run_state (apiGetDeviceClass k (devClass d)) w = (Inr dc, w)"
    and "getObj podMeta (devNamespace d, devName d @ ''-emulator'') (pods w) = Inr p" and "podHealthy p"
  shows "\<exists>y w'. run_state (deviceReconcile k key) w = (Inr emptyResult, w') \<and> getObj devMeta key (devs w') = Inr y \<and>
    devPhase y = (if devLeaseRef d = [] then DeviceReady else DeviceLeased) \<and> devLeaseRef y = devLeaseRef d \<and>
    dtADBEndpoint (devStatus y) = devName d @ ''-adb.'' @ devNamespace d @ ''.svc.cluster.local:5555''"
proof -
  have "adbEndpointOf d = devName d @ ''-adb.'' @ devNamespace d @ ''.svc.cluster.local:5555''"
    unfolding adbEndpointOf_def adbServiceName_def adbPort_def by simp code_simp
  with farm_server.healthy_reconcile [OF assms(1-6) _ assms(8)] assms(7) getObj_key [OF assms(2)] show ?thesis
    by (fastforce simp: devStep_def hasDevice_def emulatorPodName_def)
qed

text \<open>C11: The two controllers together: a run of the device controller on an unbound device whose pod is Ready,
  and then a run of the lease controller on a lease of that class still waiting, leave the lease Bound, and a
  stored device of the name it gives carries the lease's name. That device was free and of the lease's class
  before the runs, or already the lease's own. The server accepts only valid new objects, so the name of
  the device is a DNS label that leaves room for the suffixes of its Service and its Job, at most 54 characters.\<close>

theorem ready_pod_reaches_waiting_lease:
  assumes "farm_server k devs leases pods rest fit"
    and "getObj devMeta dkey (devs w) = Inr d" and "\<not> devTerminating d" and "dsProviderType (devSpec d) \<noteq> ProviderPhysical"
    and "deviceName (devName d)" and "run_state (apiGetDeviceClass k (devClass d)) w = (Inr dc, w)"
    and "getObj podMeta (devNamespace d, emulatorPodName d) (pods w) = Inr p" and "podHealthy p"
    and "getObj leaseMeta lkey (leases w) = Inr le" and "\<not> leaseTerminating le"
    and "leaseFinalizer \<in> set (mFinalizers (leaseMeta le))" and "leasePhase le \<in> {LeasePhaseUnset, LeasePending}"
    and "devLeaseRef d = []" and "devNamespace d = leaseNamespace le"
    and "mLabels (devMeta d) LabelClass = Some (lsClassRef (leaseSpec le))" and "distinct (map (\<lambda>d. keyOf (devMeta d)) (devs w))"
  shows "\<exists>res le' y d0 w'. run_state (do { _ \<leftarrow> deviceReconcile k dkey; leaseReconcile k lkey }) w = (Inr res, w') \<and>
    getObj leaseMeta lkey (leases w') = Inr le' \<and> leasePhase le' = LeaseBound \<and> y \<in> set (devs w') \<and>
    devNamespace y = leaseNamespace le \<and> ltDeviceRef (leaseStatus le') = devName y \<and> devLeaseRef y = leaseName le \<and>
    d0 \<in> set (devs w) \<and> keyOf (devMeta d0) = keyOf (devMeta y) \<and>
    (devLeaseRef d0 = leaseName le \<or> mLabels (devMeta d0) LabelClass = Some (lsClassRef (leaseSpec le)) \<and> devLeaseRef d0 = [])"
  using farm_server.handover [OF assms] assms(13,15) unfolding givenOrFree_def freeAndReady_def by blast

subsection \<open>Witnesses on the reference server\<close>

definition bootedPod :: "Device \<Rightarrow> pod" where
  "bootedPod d = (buildPod d (demoClass (devClass d)))\<lparr>podStatus := emptyPodStatus\<lparr>pstPhase := PodRunning,
     pstConditions := [\<lparr> pcdType = ''Ready'', pcdStatus = ConditionTrue \<rparr>]\<rparr>\<rparr>"

definition demoBoot :: cluster where
  \<comment> \<open>two devices still provisioning, the pod of the first of them Ready; a lease waits\<close>
  "demoBoot = (demoCluster (demoPool 2 []) [demoDevice ''d1'' ''pixel'' DeviceProvisioning [], demoDevice ''d2'' ''pixel'' DeviceProvisioning []]
     [demoLease ''l1'' ''pixel'' LeasePending [] None])\<lparr>clPods := [bootedPod (demoDevice ''d1'' ''pixel'' DeviceProvisioning [])]\<rparr>"

lemmas boot_defs = demoBoot_def bootedPod_def demoCluster_def demoDevice_def demoLease_def demoClass_def emptyMeta_def emulatorPodName_def

lemma demoBoot_device:
  assumes "n = ''d1'' \<or> n = ''d2''"
  shows "getObj devMeta (''ns'', n) (clDevices demoBoot) = Inr (demoDevice n ''pixel'' DeviceProvisioning [])"
    and "\<not> devTerminating (demoDevice n ''pixel'' DeviceProvisioning [])"
    and "dsProviderType (devSpec (demoDevice n ''pixel'' DeviceProvisioning [])) \<noteq> ProviderPhysical"
    and "deviceName (devName (demoDevice n ''pixel'' DeviceProvisioning []))"
    and "run_state (apiGetDeviceClass mem (devClass (demoDevice n ''pixel'' DeviceProvisioning []))) demoBoot = (Inr (demoClass ''pixel''), demoBoot)"
  using assms by (auto simp: getObj_def hasKey_def mem_def reads_def deviceName_def dns1035Label_def dnsLabel_def dnsPart_def lowers_def digits_def boot_defs)

lemma demoBoot_pod:
  "getObj podMeta (''ns'', ''d1-emulator'') (clPods demoBoot) = Inr (bootedPod (demoDevice ''d1'' ''pixel'' DeviceProvisioning []))"
  "getObj podMeta (''ns'', ''d2-emulator'') (clPods demoBoot) = Inl ErrNotFound"
  "podHealthy (bootedPod (demoDevice ''d1'' ''pixel'' DeviceProvisioning []))"
  by (simp_all add: getObj_def hasKey_def buildPod_def Let_def podHealthy_def podReady_def crashLoopReason_def emptyPodStatus_def boot_defs)

lemma missing_pod_is_created_witness:
  "\<exists>q c'. run_state (deviceReconcile mem (''ns'', ''d2'')) demoBoot = (Inr emptyResult, c') \<and>
     getObj podMeta (''ns'', ''d2-emulator'') (clPods c') = Inr q"
  using missing_pod_is_created [OF mem_farm.farm_server_axioms demoBoot_device [OF disjI2 [OF refl]]] demoBoot_pod(2)
  by (fastforce simp: boot_defs)

lemma ready_pod_makes_device_usable_witness:
  "\<exists>y c'. run_state (deviceReconcile mem (''ns'', ''d1'')) demoBoot = (Inr emptyResult, c') \<and>
     getObj devMeta (''ns'', ''d1'') (clDevices c') = Inr y \<and> devPhase y = DeviceReady"
  using ready_pod_makes_device_usable [OF mem_farm.farm_server_axioms demoBoot_device [OF disjI1 [OF refl]] _ demoBoot_pod(3)] demoBoot_pod(1)
  by (fastforce simp: boot_defs emptyDeviceStatus_def)

lemma ready_pod_reaches_waiting_lease_witness:
  "\<exists>res le' c'. run_state (do { _ \<leftarrow> deviceReconcile mem (''ns'', ''d1''); leaseReconcile mem (''ns'', ''l1'') }) demoBoot = (Inr res, c') \<and>
     getObj leaseMeta (''ns'', ''l1'') (clLeases c') = Inr le' \<and> leasePhase le' = LeaseBound"
proof -
  let ?d = "demoDevice ''d1'' ''pixel'' DeviceProvisioning []" and ?le = "demoLease ''l1'' ''pixel'' LeasePending [] None"
  have p: "getObj podMeta (devNamespace ?d, emulatorPodName ?d) (clPods demoBoot) = Inr (bootedPod ?d)"
    using demoBoot_pod(1) by (simp add: boot_defs)
  have le: "getObj leaseMeta (''ns'', ''l1'') (clLeases demoBoot) = Inr ?le" "\<not> leaseTerminating ?le"
    "leaseFinalizer \<in> set (mFinalizers (leaseMeta ?le))" "leasePhase ?le \<in> {LeasePhaseUnset, LeasePending}"
    by (simp_all add: getObj_def hasKey_def leaseFinalizer_def boot_defs)
  have free: "devLeaseRef ?d = []" "devNamespace ?d = leaseNamespace ?le" "mLabels (devMeta ?d) LabelClass = Some (lsClassRef (leaseSpec ?le))"
    "distinct (map (\<lambda>d. keyOf (devMeta d)) (clDevices demoBoot))"
    by (simp_all add: LabelClass_def LabelPool_def emptyDeviceStatus_def keyOf_def boot_defs)
  show ?thesis
    using ready_pod_reaches_waiting_lease [OF mem_farm.farm_server_axioms demoBoot_device [OF disjI1 [OF refl]] p demoBoot_pod(3) le free] by blast
qed

end
