(* ===== verification/Frames.thy ===== *)
theory Frames
  imports Lease_Controller Pool_Controller
begin

text \<open>
  What every run of a controller does to the world when every call does: a reflexive and transitive relation
  that each call of the client keeps (something stays as it is, the log of calls only grows) is kept by the
  three controllers. The locale \<open>framed\<close> states it once, whatever the relation.
\<close>

definition moves :: "('w \<Rightarrow> 'w \<Rightarrow> bool) \<Rightarrow> ('w, 'a) state \<Rightarrow> bool" where
  \<comment> \<open>the program leads from a world to one related to it\<close>
  "moves R m \<longleftrightarrow> (\<forall>w. R w (snd (run_state m w)))"

lemma movesD: "moves R m \<Longrightarrow> run_state m w = (x, w') \<Longrightarrow> R w w'"
  unfolding moves_def by (metis snd_conv)

lemma moves_cases:
  "(b \<Longrightarrow> moves R m) \<Longrightarrow> (\<not> b \<Longrightarrow> moves R m') \<Longrightarrow> moves R (if b then m else m')"
  "(\<And>a b. moves R (f a b)) \<Longrightarrow> moves R (case p of (a, b) \<Rightarrow> f a b)"
  "moves R m \<Longrightarrow> (\<And>x. moves R (g x)) \<Longrightarrow> moves R (case o' of None \<Rightarrow> m | Some x \<Rightarrow> g x)"
  "(\<And>e. moves R (h e)) \<Longrightarrow> (\<And>x. moves R (g' x)) \<Longrightarrow> moves R (case r of Inl e \<Rightarrow> h e | Inr x \<Rightarrow> g' x)"
  "moves R m \<Longrightarrow> moves R m' \<Longrightarrow> (\<And>s. moves R (f1 s)) \<Longrightarrow> (\<And>s. moves R (f2 s)) \<Longrightarrow>
    moves R (case e' of ErrNotFound \<Rightarrow> m | ErrConflict \<Rightarrow> m' | ErrOther s \<Rightarrow> f1 s | Panicked s \<Rightarrow> f2 s)"
  by (auto split: prod.split option.split sum.split goError.split)

locale framed =
  fixes k :: "'w kube" and R :: "'w \<Rightarrow> 'w \<Rightarrow> bool"
  assumes rel_refl: "R w w" and rel_trans: "R u v \<Longrightarrow> R v w \<Longrightarrow> R u w"
    and calls: "moves R (clockNow k)"
      "moves R (apiGetDevice k x1)"
      "moves R (apiGetDeviceClass k x2)"
      "moves R (apiGetDevicePool k x3)"
      "moves R (apiGetDeviceLease k x4)"
      "moves R (apiGetPod k x5)"
      "moves R (apiGetService k x6)"
      "moves R (apiGetJob k x7)"
      "moves R (apiListDevices k x8 y8)"
      "moves R (apiListDeviceLeases k x9)"
      "moves R (apiListDevicePools k x10)"
      "moves R (apiCreateDevice k x11)"
      "moves R (apiCreatePod k x13)"
      "moves R (apiCreateService k x14)"
      "moves R (apiCreateJob k x15)"
      "moves R (apiUpdateDevice k x16)"
      "moves R (apiUpdateDeviceLease k x17)"
      "moves R (apiUpdateService k x18)"
      "moves R (apiUpdateDeviceStatus k x19)"
      "moves R (apiUpdateDeviceLeaseStatus k x20)"
      "moves R (apiUpdateDevicePoolStatus k x21)"
      "moves R (apiDeleteDevice k x23)"
      "moves R (apiDeletePod k x24)"
      "moves R (setStatusCondition k x26 y26)"
begin

lemma moves_ret: "moves R (ret x)"
  by (simp add: moves_def rel_refl)

lemma moves_bind: "moves R m \<Longrightarrow> (\<And>x. moves R (f x)) \<Longrightarrow> moves R (State_Monad.bind m f)"
  by (auto simp: moves_def split: prod.split) (metis rel_trans snd_conv)

lemma moves_tryE: "moves R m \<Longrightarrow> (\<And>x. moves R (f x)) \<Longrightarrow> moves R (tryE m f)"
  unfolding tryE_def by (rule moves_bind) (auto intro: moves_ret split: sum.split)

lemmas steps = moves_ret moves_bind moves_tryE calls

subsection \<open>The Device controller\<close>

lemma setPhase_moves: "moves R (setPhase k d ph adb reason msg)"
  unfolding setPhase_def Let_def by (auto intro!: steps split: prod.split)

lemma markHealthy_moves: "moves R (markHealthy k d)"
  unfolding markHealthy_def Let_def by (auto intro!: steps split: prod.split)

lemma recoverFailed_moves: "moves R (recoverFailed k d mp)"
  unfolding recoverFailed_def Let_def by (auto intro!: steps split: sum.split goError.split option.split prod.split)

lemma ensure_moves: "moves R (ensureRegistration k d adb)" "moves R (ensureService k d)" "moves R (ensurePod k d dc)"
  unfolding ensureRegistration_def ensureService_def ensurePod_def Let_def
  by (auto intro!: steps split: sum.split goError.split option.split prod.split)

lemmas device_steps = steps setPhase_moves markHealthy_moves recoverFailed_moves ensure_moves

lemma reconcileEmulator_moves: "moves R (reconcileEmulator k d p)"
  unfolding reconcileEmulator_def Let_def by (auto intro!: device_steps split: prod.split DevicePhase.split)

lemma reconcilePhysical_moves: "moves R (reconcilePhysical k d)"
  unfolding reconcilePhysical_def Let_def by (auto intro!: device_steps split: prod.split)

lemma deviceReconcile_moves: "moves R (deviceReconcile k key)"
  unfolding deviceReconcile_def
  by (auto intro!: device_steps reconcileEmulator_moves reconcilePhysical_moves split: sum.split goError.split)

subsection \<open>The DeviceLease controller\<close>

lemma writeStatus_moves: "moves R (writeStatus k le ph reason msg)"
  unfolding writeStatus_def Let_def by (auto intro!: steps split: prod.split)

lemma finding_moves: "moves R (deviceBoundTo k le)" "moves R (freeReadyDevice k le)" "moves R (deviceHealth k le)"
  "moves R (resolvePool k le)" "moves R (poolDevices k pool)" "moves R (pendingLeaseDemand k ns cls)"
  unfolding deviceBoundTo_def freeReadyDevice_def deviceHealth_def resolvePool_def poolDevices_def pendingLeaseDemand_def Let_def
  by (auto intro!: steps)

lemma clock_moves: "moves R (lastUsedOrNow k d)" "moves R (heartbeatOrNow k le)"
  unfolding lastUsedOrNow_def heartbeatOrNow_def by (auto intro!: steps split: option.split)

lemma releaseDevice_moves: "moves R (releaseDevice k le)"
  unfolding releaseDevice_def by (auto intro!: steps finding_moves split: option.split sum.split goError.split)

lemma provision_moves: "moves R (provision k pool dc)"
  unfolding provision_def Let_def by (auto intro!: steps)

lemmas lease_steps = steps writeStatus_moves finding_moves clock_moves releaseDevice_moves provision_moves

lemma evictFor_moves: "moves R (evictFor k le pool dc v)"
  unfolding evictFor_def by (auto intro!: lease_steps split: sum.split goError.split)

lemma makeRoom_moves: "moves R (makeRoom k le pool dc ds)"
  unfolding makeRoom_def Let_def by (auto intro!: lease_steps evictFor_moves split: option.split)

lemma ensureCapacity_moves: "moves R (ensureCapacity k le)"
  unfolding ensureCapacity_def Let_def by (auto intro!: lease_steps makeRoom_moves split: option.split sum.split goError.split)

lemma finishBinding_moves: "moves R (finishBinding k le d)"
  unfolding finishBinding_def Let_def by (auto intro!: lease_steps)

lemma reconcilePending_moves: "moves R (reconcilePending k le)"
  unfolding reconcilePending_def
  by (auto intro!: lease_steps ensureCapacity_moves finishBinding_moves split: option.split sum.split goError.split)

lemma refreshBound_moves: "moves R (refreshBound k le expires)"
  unfolding refreshBound_def Let_def by (auto intro!: lease_steps split: prod.split)

lemma reconcileBound_moves: "moves R (reconcileBound k le)"
  unfolding reconcileBound_def Let_def by (auto intro!: lease_steps refreshBound_moves)

lemma leaseReconcile_moves: "moves R (leaseReconcile k key)"
  unfolding leaseReconcile_def reconcileDeleted_def
  by (auto intro!: lease_steps reconcilePending_moves reconcileBound_moves split: sum.split goError.split LeasePhase.split)

subsection \<open>The DevicePool controller\<close>

lemma createDevice_moves: "moves R (createDevice k pool dc)"
  unfolding createDevice_def Let_def by (auto intro!: steps)

lemma warmLoop_moves: "moves R (warmLoop k pool dc m b n tot)"
proof (induction "nat (sint m - sint n)" arbitrary: n tot rule: less_induct)
  case less
  have "moves R (warmLoop k pool dc m b (n + 1) (tot + 1))" if "n <s m"
    using less that by (auto simp: sint32_incr word_sless_alt)
  then show ?case
    by (subst warmLoop.simps) (auto intro!: steps createDevice_moves)
qed

lemma warmClasses_moves: "moves R (warmClasses k pool active b pcs tot miss)"
  by (induction pcs arbitrary: tot miss) (auto intro!: steps warmLoop_moves split: sum.split goError.split)

lemma reserveLoop_moves: "moves R (reserveLoop k ns ds pcs reserved)"
  by (induction pcs arbitrary: reserved) (auto intro!: steps finding_moves simp: Let_def)

lemma status_moves: "moves R (activeDevicesByClass k pool)" "moves R (updatePoolStatus k pool miss)"
  unfolding activeDevicesByClass_def updatePoolStatus_def by (auto intro!: steps split: prod.split)

lemma poolReconcile_moves: "moves R (poolReconcile k key)"
  unfolding poolReconcile_def Let_def
  by (auto intro!: steps status_moves reserveLoop_moves warmClasses_moves split: sum.split goError.split prod.split)

end

end
