(* ===== verification/Cold_Start.thy ===== *)
theory Cold_Start
  imports Boot Frames
begin

text \<open>
  From a lease without a device to a bound one, across all the parts: the lease run provisions a device in
  the pool, the device run gives it a pod, the cluster boots the pod, the next device run reports the
  device Ready and the next lease run binds it. The interface \<open>farm\<close> adds to \<open>farm_server\<close> pools, classes and
  the creation of valid devices under generated names. Two servers provide it: the reference server, and
  (\<open>Validating\<close>) one that refuses every new Device, Pod, Service and Job that is not valid.
\<close>

subsection \<open>What a program leaves alone\<close>

abbreviation keeps :: "('w \<Rightarrow> 'f) \<Rightarrow> ('w, 'a) state \<Rightarrow> bool" where
  "keeps f \<equiv> moves (\<lambda>w w'. f w' = f w)"

subsection \<open>The interface\<close>

locale farm = farm_server k devs leases pods rest fit
  for k :: "'w kube" and devs :: "'w \<Rightarrow> Device list" and leases :: "'w \<Rightarrow> DeviceLease list"
    and pods :: "'w \<Rightarrow> pod list" and rest :: "'w \<Rightarrow> service list \<times> job list" and fit :: "podSpec \<Rightarrow> bool" +
  fixes classes :: "'w \<Rightarrow> DeviceClass list" and pools :: "'w \<Rightarrow> DevicePool list" and nameFor :: "'w \<Rightarrow> string \<Rightarrow> string"
  assumes class_read: "run_state (apiGetDeviceClass k n) w = (getObj dcMeta ([], n) (classes w), w)"
    and pool_read: "run_state (apiGetDevicePool k key) w = (getObj poolMeta key (pools w), w)"
    and list_pools: "run_state (apiListDevicePools k ns) w = (Inr (filter (\<lambda>p. mNamespace (poolMeta p) = ns) (pools w)), w)"
    and list_leases: "run_state (apiListDeviceLeases k ns) w = (Inr (filter (\<lambda>l. leaseNamespace l = ns) (leases w)), w)"
    and create_device: "mName (devMeta x) = [] \<Longrightarrow> newDeviceOk x \<Longrightarrow>
      (mNamespace (devMeta x), nameFor w (mGenerateName (devMeta x))) \<notin> set (keysOf (devs w)) \<Longrightarrow>
      \<exists>y w'. run_state (apiCreateDevice k x) w = (Inr y, w') \<and> leases w' = leases w \<and> pods w' = pods w \<and> devs w' = devs w @ [y] \<and>
        keyOf (devMeta y) = (mNamespace (devMeta x), nameFor w (mGenerateName (devMeta x))) \<and> mLabels (devMeta y) = mLabels (devMeta x) \<and>
        mAnnotations (devMeta y) = mAnnotations (devMeta x) \<and> \<not> devTerminating y \<and> devSpec y = devSpec x \<and> devStatus y = emptyDeviceStatus"
    and lease_kept: "getObj leaseMeta (keyOf (leaseMeta l)) (leases w) = Inr old_l \<Longrightarrow> run_state (apiUpdateDeviceLeaseStatus k l) w = (Inr z, w') \<Longrightarrow>
      leaseSpec z = leaseSpec old_l \<and> mFinalizers (leaseMeta z) = mFinalizers (leaseMeta old_l) \<and> leaseTerminating z = leaseTerminating old_l"
    and pods_kept: "keeps pods (apiUpdateDeviceLeaseStatus k l)"
    and classes_kept: "framed k (\<lambda>w w'. classes w' = classes w)"

sublocale farm \<subseteq> class_frame: framed k "\<lambda>w w'. classes w' = classes w"
  by (rule classes_kept)

definition waits :: "DeviceLease \<Rightarrow> bool" where
  "waits le \<longleftrightarrow> \<not> leaseTerminating le \<and> leaseFinalizer \<in> set (mFinalizers (leaseMeta le)) \<and> leasePhase le \<in> {LeasePhaseUnset, LeasePending}"

definition lacksDevice :: "Device list \<Rightarrow> DeviceLease \<Rightarrow> bool" where
  \<comment> \<open>no device carries the lease's name, none of its class is free and Ready\<close>
  "lacksDevice ds le \<longleftrightarrow> (\<forall>d \<in> set ds. devNamespace d = leaseNamespace le \<longrightarrow> devLeaseRef d \<noteq> leaseName le \<and>
     \<not> (mLabels (devMeta d) LabelClass = Some (lsClassRef (leaseSpec le)) \<and> freeAndReady d))"

definition poolOf :: "DevicePool list \<Rightarrow> DeviceLease \<Rightarrow> DevicePool option" where
  \<comment> \<open>the pool the lease names, else the first of its namespace that offers its class\<close>
  "poolOf ps le =
     (if lsPoolRef (leaseSpec le) \<noteq> []
      then (case getObj poolMeta (leaseNamespace le, lsPoolRef (leaseSpec le)) ps of Inl _ \<Rightarrow> None | Inr p \<Rightarrow> Some p)
      else find (offersClass (lsClassRef (leaseSpec le))) (filter (\<lambda>p. mNamespace (poolMeta p) = leaseNamespace le) ps))"

definition shortWithRoom :: "Device list \<Rightarrow> DeviceLease list \<Rightarrow> string \<Rightarrow> DevicePool \<Rightarrow> bool" where
  \<comment> \<open>fewer claimable devices than leases waiting for the class, and the pool below \<open>maxConcurrent\<close>\<close>
  "shortWithRoom ds ls cls pool \<longleftrightarrow>
     (let ns = mNamespace (poolMeta pool);
          members = filter (\<lambda>d. devNamespace d = ns \<and> mLabels (devMeta d) LabelPool = Some (mName (poolMeta pool))) ds;
          demand = length (filter (unsatisfied cls) (filter (\<lambda>l. leaseNamespace l = ns) ls))
      in length (filter (claimable cls) members) < demand \<and> demand < 2 ^ 31 \<and>
         int (length (activeDevices members)) < sint (dpsMaxConcurrent (poolSpec pool)))"

definition newIn :: "DevicePool \<Rightarrow> DeviceClass \<Rightarrow> string \<Rightarrow> Device \<Rightarrow> bool" where
  "newIn pool dc n d \<longleftrightarrow> keyOf (devMeta d) = (mNamespace (poolMeta pool), n) \<and> mLabels (devMeta d) = mLabels (devMeta (newPoolDevice pool dc)) \<and>
     devAnnotations d = Map.empty \<and> \<not> devTerminating d \<and> devSpec d = devSpec (newPoolDevice pool dc) \<and> devStatus d = emptyDeviceStatus"

subsection \<open>The lease run provisions\<close>

context farm
begin

lemma poolOf_namespace: "poolOf ps le = Some pool \<Longrightarrow> mNamespace (poolMeta pool) = leaseNamespace le"
  by (auto simp: poolOf_def keyOf_def split: if_splits sum.splits dest!: getObj_key find_SomeD)

lemma resolvePool_run: "poolOf (pools w) le = Some pool \<Longrightarrow> run_state (resolvePool k le) w = (Inr (Some pool), w)"
  by (auto simp: resolvePool_def poolOf_def pool_read list_pools split: if_splits sum.splits)

lemma provision_run:
  assumes valid: "dnsLabel (mName (poolMeta pool))" "dnsLabel (mName (dcMeta dc))" "classOk dc"
    and "(mNamespace (poolMeta pool), nameFor w (mName (poolMeta pool) @ ''-'' @ mName (dcMeta dc) @ ''-'')) \<notin> set (keysOf (devs w))"
  shows "\<exists>d w'. run_state (provision k pool dc) w = (Inr (), w') \<and> leases w' = leases w \<and> pods w' = pods w \<and> devs w' = devs w @ [d] \<and>
    classes w' = classes w \<and> newIn pool dc (nameFor w (mName (poolMeta pool) @ ''-'' @ mName (dcMeta dc) @ ''-'')) d"
proof -
  let ?g = "mName (poolMeta pool) @ ''-'' @ mName (dcMeta dc) @ ''-''" and ?x = "newPoolDevice pool dc"
  have x: "mOwnerReferences (devMeta ?x) = []" "mName (devMeta ?x) = []" "mGenerateName (devMeta ?x) = ?g"
    "mNamespace (devMeta ?x) = mNamespace (poolMeta pool)" "mAnnotations (devMeta ?x) = Map.empty"
    by (simp_all add: newPoolDevice_def emptyMeta_def)
  obtain m where m: "setControllerReference k ''DevicePool'' (poolMeta pool) (devMeta ?x) = Inr m" "keyOf m = keyOf (devMeta ?x)"
    "mLabels m = mLabels (devMeta ?x)" "mGenerateName m = ?g" "mAnnotations m = Map.empty"
    using own [OF x(1), of "poolMeta pool"] x(3,4,5) by metis
  have m': "mName m = []" "mNamespace m = mNamespace (poolMeta pool)" using m(2) x by (simp_all add: keyOf_def)
  have y: "devMeta (setDeviceMeta m ?x) = m" "devSpec (setDeviceMeta m ?x) = devSpec ?x" "devStatus (setDeviceMeta m ?x) = devStatus ?x"
    by (simp_all add: setDeviceMeta_def)
  have ok: "newDeviceOk (setDeviceMeta m ?x)"
    using newPoolDevice_ok [OF valid] y m(3,4) x(3) by (simp add: newDeviceOk_def deviceOk_def)
  obtain d w' where d: "run_state (apiCreateDevice k (setDeviceMeta m ?x)) w = (Inr d, w')" "leases w' = leases w" "pods w' = pods w"
    "devs w' = devs w @ [d]" "keyOf (devMeta d) = (mNamespace (poolMeta pool), nameFor w ?g)" "mLabels (devMeta d) = mLabels (devMeta ?x)"
    "mAnnotations (devMeta d) = Map.empty" "\<not> devTerminating d" "devSpec d = devSpec ?x" "devStatus d = emptyDeviceStatus"
    using create_device [of "setDeviceMeta m ?x" w] assms(4) ok m m' y by auto
  with m(1) movesD [OF class_frame.calls(12) d(1)] show ?thesis
    by (intro exI [of _ d] exI [of _ w']) (simp add: provision_def Let_def newIn_def)
qed

lemma pendingStatus_run:
  assumes "storedIn (leases w) le" and "waits le"
  shows "\<exists>le' w'. run_state (writeStatus k le LeasePending reason msg) w = (Inr (), w') \<and> devs w' = devs w \<and> pods w' = pods w \<and>
    classes w' = classes w \<and> getObj leaseMeta (keyOf (leaseMeta le)) (leases w') = Inr le' \<and> waits le' \<and> leaseSpec le' = leaseSpec le"
proof -
  let ?st = "(leaseStatus le)\<lparr>ltPhase := LeasePending\<rparr>"
  obtain b cs where c: "run_state (setStatusCondition k (ltConditions ?st) (boundCondition le LeasePending reason msg)) w = ((b, cs), w)"
    using conditions by blast
  let ?x = "le\<lparr>leaseStatus := ?st\<lparr>ltConditions := cs\<rparr>\<rparr>"
  have old: "getObj leaseMeta (keyOf (leaseMeta ?x)) (leases w) = Inr le" using assms by (simp add: storedIn_def)
  from write_lease [OF this] assms(2) obtain z w' where z: "run_state (apiUpdateDeviceLeaseStatus k ?x) w = (Inr z, w')" "devs w' = devs w"
    "getObj leaseMeta (keyOf (leaseMeta le)) (leases w') = Inr z" "leasePhase z = LeasePending" by (auto simp: waits_def)
  then have "run_state (writeStatus k le LeasePending reason msg) w = (Inr (), w')" using c by (simp add: writeStatus_def Let_def)
  with z lease_kept [OF old z(1)] movesD [OF pods_kept z(1)] movesD [OF class_frame.calls(20) z(1)] assms(2) show ?thesis
    by (intro exI [of _ z] exI [of _ w']) (simp add: waits_def)
qed

lemma provision_reconcile:
  assumes le: "getObj leaseMeta lkey (leases w) = Inr le" "waits le" and lacks: "lacksDevice (devs w) le"
    and pool: "poolOf (pools w) le = Some pool" "shortWithRoom (devs w) (leases w) (lsClassRef (leaseSpec le)) pool"
    and dc: "getObj dcMeta ([], lsClassRef (leaseSpec le)) (classes w) = Inr dc" "classOk dc" and named: "dnsLabel (mName (poolMeta pool))" "dnsLabel (lsClassRef (leaseSpec le))"
    and fresh: "(leaseNamespace le, nameFor w (mName (poolMeta pool) @ ''-'' @ lsClassRef (leaseSpec le) @ ''-'')) \<notin> set (keysOf (devs w))"
  shows "\<exists>res d le' w'. run_state (leaseReconcile k lkey) w = (Inr res, w') \<and> devs w' = devs w @ [d] \<and> pods w' = pods w \<and>
    classes w' = classes w \<and> newIn pool dc (nameFor w (mName (poolMeta pool) @ ''-'' @ lsClassRef (leaseSpec le) @ ''-'')) d \<and>
    getObj leaseMeta lkey (leases w') = Inr le' \<and> waits le' \<and> leaseSpec le' = leaseSpec le"
proof -
  let ?cls = "lsClassRef (leaseSpec le)" and ?ns = "leaseNamespace le"
  have st: "storedIn (leases w) le" "keyOf (leaseMeta le) = lkey" using stored_key [OF le(1)] by simp_all
  have ns: "mNamespace (poolMeta pool) = ?ns" by (rule poolOf_namespace [OF pool(1)])
  have name: "mName (dcMeta dc) = ?cls" using getObj_key [OF dc(1)] by (simp add: keyOf_def)
  define members where "members = filter (\<lambda>d. devNamespace d = ?ns \<and> mLabels (devMeta d) LabelPool = Some (mName (poolMeta pool))) (devs w)"
  define waiting where "waiting = filter (\<lambda>l. leaseNamespace l = ?ns) (leases w)"
  have short: "length (filter (claimable ?cls) members) < length (filter (unsatisfied ?cls) waiting)"
    "length (filter (unsatisfied ?cls) waiting) < 2 ^ 31" and room: "int (length (activeDevices members)) < sint (dpsMaxConcurrent (poolSpec pool))"
    using pool(2) by (simp_all add: shortWithRoom_def Let_def ns members_def waiting_def)
  have "\<not> demandOf ?cls waiting \<le>s unclaimedSupply members ?cls"
    using short by (simp add: demandOf_count unclaimedSupply_count word_sle_eq sint32_of_nat)
  moreover have "of_nat (length (activeDevices members)) <s dpsMaxConcurrent (poolSpec pool)"
    using room sint32_range [of "dpsMaxConcurrent (poolSpec pool)"] by (subst sless_of_nat) auto
  moreover have none: "find (\<lambda>d. devLeaseRef d = leaseName le) (filter (\<lambda>d. devNamespace d = ?ns) (devs w)) = None"
    "find freeAndReady (filter (\<lambda>d. devNamespace d = ?ns \<and> mLabels (devMeta d) LabelClass = Some ?cls) (devs w)) = None"
    using lacks by (auto simp: find_None_iff lacksDevice_def)
  moreover obtain d w1 where d: "run_state (provision k pool dc) w = (Inr (), w1)" "leases w1 = leases w" "pods w1 = pods w" "devs w1 = devs w @ [d]"
    "classes w1 = classes w" "newIn pool dc (nameFor w (mName (poolMeta pool) @ ''-'' @ ?cls @ ''-'')) d"
    using provision_run [OF named(1) _ dc(2), of w] fresh ns name named(2) by auto
  moreover have "storedIn (leases w1) le" using st(1) d(2) by simp
  from pendingStatus_run [OF this le(2)] obtain le' w' where le': "run_state (writeStatus k le LeasePending ''Provisioning'' (''provisioning a device of class '' @ ?cls)) w1 = (Inr (), w')"
    "devs w' = devs w1" "pods w' = pods w1" "classes w' = classes w1" "getObj leaseMeta (keyOf (leaseMeta le)) (leases w') = Inr le'" "waits le'" "leaseSpec le' = leaseSpec le"
    by blast
  moreover have "run_state (poolDevices k pool) w = (Inr members, w)"
    by (simp add: poolDevices_def list_devices ns members_def matchesLabels_def)
  moreover have "run_state (pendingLeaseDemand k ?ns ?cls) w = (Inr (demandOf ?cls waiting), w)"
    by (simp add: pendingLeaseDemand_def list_leases waiting_def)
  ultimately have "run_state (reconcilePending k le) w = (Inr (requeueAfter (2 * time_Second)), w')"
    by (simp add: reconcilePending_def run_deviceBoundTo run_freeReadyDevice ensureCapacity_def resolvePool_run [OF pool(1)] class_read dc(1) ns makeRoom_def Let_def)
  moreover have "run_state (leaseReconcile k lkey) w = run_state (reconcilePending k le) w"
    using run_leaseReconcile(2) [OF le(1)] le(2) by (auto simp: waits_def)
  ultimately show ?thesis using d le' st(2) by auto
qed

subsection \<open>The device run leaves the classes alone\<close>

subsection \<open>From nothing to Bound\<close>

lemma new_device_reconcile:
  assumes new: "newIn pool dc n d" "deviceName n" "dcsProviderType (dcSpec dc) \<noteq> ProviderPhysical" "getObj dcMeta ([], mName (dcMeta dc)) (classes w) = Inr dc"
    and d: "getObj devMeta key (devs w) = Inr d" "key = (mNamespace (poolMeta pool), n)"
    and p: "getObj podMeta (mNamespace (poolMeta pool), n @ ''-emulator'') (pods w) = Inl ErrNotFound"
    and fits: "fit (podSpec (buildPod d dc))"
  shows "\<exists>y q w'. run_state (deviceReconcile k key) w = (Inr emptyResult, w') \<and> leases w' = leases w \<and> classes w' = classes w \<and>
    getObj podMeta (mNamespace (poolMeta pool), n @ ''-emulator'') (pods w') = Inr q \<and> podSpec q = podSpec (buildPod d dc) \<and>
    devStep (devs w) d (devs w') y"
proof -
  have f: "devName d = n" "devNamespace d = mNamespace (poolMeta pool)" "\<not> devTerminating d" "devAnnotations d = Map.empty"
    "devClass d = mName (dcMeta dc)" "dsProviderType (devSpec d) = dcsProviderType (dcSpec dc)"
    using new(1) by (auto simp: newIn_def keyOf_def newPoolDevice_def)
  have dc: "run_state (apiGetDeviceClass k (devClass d)) w = (Inr dc, w)" using new(4) f(5) by (simp add: class_read)
  have "dsProviderType (devSpec d) \<noteq> ProviderPhysical" "deviceName (devName d)" "devAnnotations d annBooted \<noteq> Some ''true''"
    "getObj podMeta (devNamespace d, emulatorPodName d) (pods w) = Inl ErrNotFound"
    using new(2,3) f p by (simp_all add: emulatorPodName_def)
  from new_pod_reconcile [OF d(1) f(3) this(1,2) dc this(4,3) fits] obtain y q w' where
    "run_state (deviceReconcile k key) w = (Inr emptyResult, w')" "leases w' = leases w" "devStep (devs w) d (devs w') y"
    "getObj podMeta (devNamespace d, emulatorPodName d) (pods w') = Inr q" "podSpec q = podSpec (buildPod d dc)" by blast
  with f(1,2) movesD [OF class_frame.deviceReconcile_moves this(1)] show ?thesis
    by (intro exI [of _ y] exI [of _ q] exI [of _ w']) (simp add: emulatorPodName_def)
qed

lemma cold_start:
  assumes le: "getObj leaseMeta lkey (leases w) = Inr le" "waits le" and lacks: "lacksDevice (devs w) le"
    and pool: "poolOf (pools w) le = Some pool" "shortWithRoom (devs w) (leases w) (lsClassRef (leaseSpec le)) pool"
    and dc: "getObj dcMeta ([], lsClassRef (leaseSpec le)) (classes w) = Inr dc" "dcsProviderType (dcSpec dc) \<noteq> ProviderPhysical"
      "classOk dc" and named: "dnsLabel (mName (poolMeta pool))" "dnsLabel (lsClassRef (leaseSpec le))" and fits: "\<And>d. fit (podSpec (buildPod d dc))"
    and n: "n = nameFor w (mName (poolMeta pool) @ ''-'' @ lsClassRef (leaseSpec le) @ ''-'')" "(leaseNamespace le, n) \<notin> set (keysOf (devs w))" "deviceName n"
    and keys: "distinct (keysOf (devs w))" and nopod: "getObj podMeta (leaseNamespace le, n @ ''-emulator'') (pods w) = Inl ErrNotFound"
  obtains d q w2 where "snd (run_state (do { _ \<leftarrow> leaseReconcile k lkey; deviceReconcile k (leaseNamespace le, n) }) w) = w2"
    and "newIn pool dc n d" and "getObj podMeta (leaseNamespace le, n @ ''-emulator'') (pods w2) = Inr q" and "podSpec q = podSpec (buildPod d dc)"
    and "\<And>w3 p. devs w3 = devs w2 \<Longrightarrow> leases w3 = leases w2 \<Longrightarrow> classes w3 = classes w2 \<Longrightarrow>
      getObj podMeta (leaseNamespace le, n @ ''-emulator'') (pods w3) = Inr p \<Longrightarrow> podHealthy p \<Longrightarrow>
      \<exists>res le' y w4. run_state (do { _ \<leftarrow> deviceReconcile k (leaseNamespace le, n); leaseReconcile k lkey }) w3 = (Inr res, w4) \<and>
        getObj leaseMeta lkey (leases w4) = Inr le' \<and> leasePhase le' = LeaseBound \<and> ltDeviceRef (leaseStatus le') = n \<and> y \<in> set (devs w4) \<and>
        keyOf (devMeta y) = (leaseNamespace le, n) \<and> devLeaseRef y = leaseName le"
proof -
  let ?cls = "lsClassRef (leaseSpec le)" and ?ns = "leaseNamespace le"
  have ns: "mNamespace (poolMeta pool) = ?ns" by (rule poolOf_namespace [OF pool(1)])
  have cls: "mName (dcMeta dc) = ?cls" using getObj_key [OF dc(1)] by (simp add: keyOf_def)
  have key: "keyOf (leaseMeta le) = lkey" using stored_key [OF le(1)] by simp
  obtain res d le1 w1 where 1: "run_state (leaseReconcile k lkey) w = (Inr res, w1)" "devs w1 = devs w @ [d]" "pods w1 = pods w"
    "classes w1 = classes w" "newIn pool dc n d" "getObj leaseMeta lkey (leases w1) = Inr le1" "waits le1" "leaseSpec le1 = leaseSpec le"
    using provision_reconcile [OF le lacks pool dc(1,3) named] n by blast
  have dkey: "keyOf (devMeta d) = (?ns, n)" using 1(5) ns by (simp add: newIn_def)
  have keys1: "distinct (keysOf (devs w1))" using keys n(2) dkey by (simp add: 1(2) keysOf_def)
  have d1: "getObj devMeta (?ns, n) (devs w1) = Inr d"
    using getObj_distinct [of devMeta "devs w1" d] keys1 dkey by (simp add: 1(2) keysOf_def)
  from new_device_reconcile [OF 1(5) n(3) dc(2) _ d1 _ _ fits] obtain y q w2 where
    2: "run_state (deviceReconcile k (?ns, n)) w1 = (Inr emptyResult, w2)" "leases w2 = leases w1" "classes w2 = classes w"
      "getObj podMeta (?ns, n @ ''-emulator'') (pods w2) = Inr q" "podSpec q = podSpec (buildPod d dc)" "devStep (devs w1) d (devs w2) y"
    using nopod 1(3,4) dc(1) cls ns by auto
  have y: "getObj devMeta (?ns, n) (devs w2) = Inr y" "\<not> devTerminating y" "devSpec y = devSpec d" "mLabels (devMeta y) = mLabels (devMeta d)"
    "devLeaseRef y = []" "devName y = n" "devNamespace y = ?ns"
    using 2(6) dkey 1(5) by (auto simp: devStep_def hasDevice_def newIn_def emptyDeviceStatus_def keyOf_def)
  have spec: "devClass y = ?cls" "dsProviderType (devSpec y) \<noteq> ProviderPhysical" "mLabels (devMeta y) LabelClass = Some (lsClassRef (leaseSpec le1))"
    using 1(5,8) y(3,4) dc(2) cls by (auto simp: newIn_def newPoolDevice_def)
  have le1: "leaseName le1 = leaseName le" "leaseNamespace le1 = ?ns" using stored_key [OF 1(6)] key by (auto simp: keyOf_def)
  show thesis
  proof (rule that [OF _ 1(5) 2(4,5)])
    show "snd (run_state (do { _ \<leftarrow> leaseReconcile k lkey; deviceReconcile k (?ns, n) }) w) = w2" using 1(1) 2(1) by simp
    fix w3 p assume w3: "devs w3 = devs w2" "leases w3 = leases w2" "classes w3 = classes w2"
      and p: "getObj podMeta (?ns, n @ ''-emulator'') (pods w3) = Inr p" "podHealthy p"
    obtain res le' z d0 w4 where z: "run_state (do { _ \<leftarrow> deviceReconcile k (?ns, n); leaseReconcile k lkey }) w3 = (Inr res, w4)"
      "getObj leaseMeta lkey (leases w4) = Inr le'" "leasePhase le' = LeaseBound" "z \<in> set (devs w4)" "devNamespace z = ?ns"
      "ltDeviceRef (leaseStatus le') = devName z" "devLeaseRef z = leaseName le"
      and d0: "d0 \<in> set (devs w2)" "keyOf (devMeta d0) = keyOf (devMeta z)" "d0 = y \<or> keyOf (devMeta d0) \<noteq> (?ns, n) \<and> givenOrFree le1 d0"
      using handover [of "(?ns, n)" w3 y dc p lkey le1] y spec w3 p 1(6,7) 2(2,3,6) dc(1) le1 n(3) keys1
      by (auto simp: class_read emulatorPodName_def waits_def devStep_def keysOf_def)
    have "d0 = y"
    proof (rule ccontr)
      assume "d0 \<noteq> y"
      with d0(3) have other: "keyOf (devMeta d0) \<noteq> (?ns, n)" "givenOrFree le1 d0" by simp_all
      then have "d0 \<in> set (devs w1)" using devStep_others [OF 2(6) d0(1)] dkey by simp
      with other(1) dkey have "d0 \<in> set (devs w)" by (auto simp: 1(2))
      moreover have "devNamespace d0 = ?ns" using d0(2) z(5) by (simp add: keyOf_def)
      moreover have "givenOrFree le d0" using other(2) le1(1) 1(8) by (simp add: givenOrFree_def)
      ultimately show False using lacks by (auto simp: lacksDevice_def givenOrFree_def)
    qed
    then have "keyOf (devMeta z) = (?ns, n)" using d0(2) y(6,7) by (simp add: keyOf_def)
    then show "\<exists>res le' y w4. run_state (do { _ \<leftarrow> deviceReconcile k (?ns, n); leaseReconcile k lkey }) w3 = (Inr res, w4) \<and>
        getObj leaseMeta lkey (leases w4) = Inr le' \<and> leasePhase le' = LeaseBound \<and> ltDeviceRef (leaseStatus le') = n \<and> y \<in> set (devs w4) \<and>
        keyOf (devMeta y) = (?ns, n) \<and> devLeaseRef y = leaseName le"
      using z by (intro exI [of _ res] exI [of _ le'] exI [of _ z] exI [of _ w4]) (simp add: keyOf_def)
  qed
qed

end

subsection \<open>The reference server provides it\<close>

lemma writes_keep: "(\<And>c. f (snd (g c)) = f c) \<Longrightarrow> (\<And>c v. f (c\<lparr>clVersion := v\<rparr>) = f c) \<Longrightarrow> keeps f (writes g)"
  by (simp add: moves_def run_writes split: prod.split sum.split) (metis snd_conv)

interpretation mem_classes: framed mem "\<lambda>c c'. clClasses c' = clClasses c"
  by unfold_locales (auto simp: mem_def reads_def moves_def withTime_def onDevices_def onLeases_def onPools_def onPods_def onServices_def
      onJobs_def run_writes split: prod.split sum.split)

interpretation mem_all: farm mem clDevices clLeases clPods "\<lambda>c. (clServices c, clJobs c)" "\<lambda>_. True" clClasses clPools "\<lambda>c g. g @ itoa (int (clVersion c))"
proof
  fix x :: Device and c :: cluster
  assume x: "mName (devMeta x) = []" and "newDeviceOk x"
    and fresh: "(mNamespace (devMeta x), mGenerateName (devMeta x) @ itoa (int (clVersion c))) \<notin> set (keysOf (clDevices c))"
  let ?y = "mapDevMeta (createdMeta (clVersion c)) (freshDevice x)"
  have key: "(mNamespace (devMeta ?y), mName (devMeta ?y)) = (mNamespace (devMeta x), mGenerateName (devMeta x) @ itoa (int (clVersion c)))"
    using x by (simp add: mapDevMeta_def createdMeta_def freshDevice_def)
  have "find (\<lambda>z. hasKey (mNamespace (devMeta ?y), mName (devMeta ?y)) (devMeta z)) (clDevices c) = None"
    using fresh unfolding key by (auto simp: find_None_iff hasKey_keyOf keysOf_def intro: rev_image_eqI)
  then have "run_state (apiCreateDevice mem x) c = (Inr ?y, c\<lparr>clDevices := clDevices c @ [?y], clVersion := Suc (clVersion c)\<rparr>)"
    by (simp add: mem_def onDevices_def run_writes createObj_def Let_def)
  then show "\<exists>y c'. run_state (apiCreateDevice mem x) c = (Inr y, c') \<and> clLeases c' = clLeases c \<and> clPods c' = clPods c \<and>
        clDevices c' = clDevices c @ [y] \<and>
        keyOf (devMeta y) = (mNamespace (devMeta x), mGenerateName (devMeta x) @ itoa (int (clVersion c))) \<and> mLabels (devMeta y) = mLabels (devMeta x) \<and>
        mAnnotations (devMeta y) = mAnnotations (devMeta x) \<and> \<not> devTerminating y \<and> devSpec y = devSpec x \<and> devStatus y = emptyDeviceStatus"
    using key by (intro exI [of _ ?y]) (simp add: keyOf_def mapDevMeta_def createdMeta_def freshDevice_def)
next
  fix l old z :: DeviceLease and c c' :: cluster
  assume old: "getObj leaseMeta (keyOf (leaseMeta l)) (clLeases c) = Inr old" and w: "run_state (apiUpdateDeviceLeaseStatus mem l) c = (Inr z, c')"
  then have "z = mapLeaseMeta (\<lambda>m. m\<lparr>mResourceVersion := Suc (clVersion c)\<rparr>) (mergeLeaseStatus old l)"
    by (auto simp: mem_def onLeases_def run_writes writeObj_def keyOf_def Let_def split: if_splits)
  then show "leaseSpec z = leaseSpec old \<and> mFinalizers (leaseMeta z) = mFinalizers (leaseMeta old) \<and> leaseTerminating z = leaseTerminating old"
    by (simp add: mapLeaseMeta_def mergeLeaseStatus_def)
qed (auto intro: mem_classes.framed_axioms simp: mem_def reads_def moves_def withTime_def onDevices_def onLeases_def onPods_def onServices_def onJobs_def run_writes split: prod.split sum.split)

text \<open>C12: From a lease without a device to one bound to a new device. The class has fewer claimable devices than
  waiting leases and the pool has room: a run of the lease controller, then one of the device controller, leave a
  device of the pool with a name \<open>n\<close> that no device had, and its pod; once the cluster has booted that pod and
  nothing else changed, a run of the device controller and one of the lease controller leave the lease Bound to that
  very device, which carries the lease's name. The server accepts only valid new objects: the names of the pool and
  of the class are DNS labels, the server accepts what the class puts into the pod spec, and the name generated
  from the two has at most 54 characters, so that the device's Service, Job and Pod can be named after it.\<close>

theorem cold_start_serves_lease:
  assumes "farm k devs leases pods rest fit classes pools nameFor"
    and "getObj leaseMeta lkey (leases w) = Inr le" and "waits le" and "lacksDevice (devs w) le"
    and "poolOf (pools w) le = Some pool" and "shortWithRoom (devs w) (leases w) (lsClassRef (leaseSpec le)) pool"
    and "getObj dcMeta ([], lsClassRef (leaseSpec le)) (classes w) = Inr dc" and "dcsProviderType (dcSpec dc) \<noteq> ProviderPhysical"
    and "classOk dc" and "dnsLabel (mName (poolMeta pool))" and "dnsLabel (lsClassRef (leaseSpec le))" and "\<And>d. fit (podSpec (buildPod d dc))"
    and "n = nameFor w (mName (poolMeta pool) @ ''-'' @ lsClassRef (leaseSpec le) @ ''-'')" and "(leaseNamespace le, n) \<notin> set (keysOf (devs w))"
    and "deviceName n" and "distinct (keysOf (devs w))" and "getObj podMeta (leaseNamespace le, n @ ''-emulator'') (pods w) = Inl ErrNotFound"
  shows "\<exists>d q w2. snd (run_state (do { _ \<leftarrow> leaseReconcile k lkey; deviceReconcile k (leaseNamespace le, n) }) w) = w2 \<and>
    newIn pool dc n d \<and> getObj podMeta (leaseNamespace le, n @ ''-emulator'') (pods w2) = Inr q \<and> podSpec q = podSpec (buildPod d dc) \<and>
    (\<forall>w3 p. devs w3 = devs w2 \<and> leases w3 = leases w2 \<and> classes w3 = classes w2 \<and>
        getObj podMeta (leaseNamespace le, n @ ''-emulator'') (pods w3) = Inr p \<and> podHealthy p \<longrightarrow>
      (\<exists>res le' y w4. run_state (do { _ \<leftarrow> deviceReconcile k (leaseNamespace le, n); leaseReconcile k lkey }) w3 = (Inr res, w4) \<and>
        getObj leaseMeta lkey (leases w4) = Inr le' \<and> leasePhase le' = LeaseBound \<and> ltDeviceRef (leaseStatus le') = n \<and> y \<in> set (devs w4) \<and>
        keyOf (devMeta y) = (leaseNamespace le, n) \<and> devLeaseRef y = leaseName le))"
  by (rule farm.cold_start [OF assms]) blast

subsection \<open>A witness on the reference server\<close>

definition demoCold :: cluster where
  \<comment> \<open>a pool without devices, and a lease that waits for the pool's class\<close>
  "demoCold = demoCluster (demoPool 2 [(''pixel'', 0)]) [] [demoLease ''l1'' ''pixel'' LeasePending [] None]"

definition kubelet :: "objectKey \<Rightarrow> cluster \<Rightarrow> cluster" where
  \<comment> \<open>the cluster boots the pod\<close>
  "kubelet key c = c\<lparr>clPods := map (\<lambda>p. if hasKey key (podMeta p) then p\<lparr>podStatus := emptyPodStatus\<lparr>pstPhase := PodRunning,
     pstConditions := [\<lparr> pcdType = ''Ready'', pcdStatus = ConditionTrue \<rparr>]\<rparr>\<rparr> else p) (clPods c)\<rparr>"

lemma getObj_edit:
  "(\<And>x. mt (f x) = mt x) \<Longrightarrow> getObj mt key xs = Inr y \<Longrightarrow> getObj mt key (map (\<lambda>x. if hasKey key (mt x) then f x else x) xs) = Inr (f y)"
  by (induction xs) (auto simp: getObj_def split: if_splits option.splits)

lemma kubelet_boots: "getObj podMeta key (clPods c) = Inr q \<Longrightarrow> \<exists>p. getObj podMeta key (clPods (kubelet key c)) = Inr p \<and> podHealthy p"
  unfolding kubelet_def
  by (drule getObj_edit [rotated, where f = "\<lambda>p. p\<lparr>podStatus := emptyPodStatus\<lparr>pstPhase := PodRunning,
      pstConditions := [\<lparr> pcdType = ''Ready'', pcdStatus = ConditionTrue \<rparr>]\<rparr>\<rparr>"])
    (simp_all add: podHealthy_def podReady_def crashLoopReason_def emptyPodStatus_def)

lemma demoCold_lease:
  "getObj leaseMeta (''ns'', ''l1'') (clLeases demoCold) = Inr (demoLease ''l1'' ''pixel'' LeasePending [] None)"
  "waits (demoLease ''l1'' ''pixel'' LeasePending [] None)" "leaseNamespace (demoLease ''l1'' ''pixel'' LeasePending [] None) = ''ns''"
  by (simp_all add: getObj_def hasKey_def waits_def leaseFinalizer_def demoCold_def demo_defs)

lemma demoCold_pool:
  "lacksDevice (clDevices demoCold) (demoLease ''l1'' ''pixel'' LeasePending [] None)"
  "poolOf (clPools demoCold) (demoLease ''l1'' ''pixel'' LeasePending [] None) = Some (demoPool 2 [(''pixel'', 0)])"
  "shortWithRoom (clDevices demoCold) (clLeases demoCold) (lsClassRef (leaseSpec (demoLease ''l1'' ''pixel'' LeasePending [] None))) (demoPool 2 [(''pixel'', 0)])"
  by (simp_all add: lacksDevice_def poolOf_def shortWithRoom_def offersClass_def unsatisfied_def demoPool_def demoCold_def demo_defs)

lemma demoCold_class:
  "getObj dcMeta ([], lsClassRef (leaseSpec (demoLease ''l1'' ''pixel'' LeasePending [] None))) (clClasses demoCold) = Inr (demoClass ''pixel'')"
  "dcsProviderType (dcSpec (demoClass ''pixel'')) \<noteq> ProviderPhysical"
  by (simp_all add: getObj_def hasKey_def demoClass_def demoCold_def demo_defs)

lemma demoCold_valid:
  "classOk (demoClass ''pixel'')" "dnsLabel (mName (poolMeta (demoPool 2 [(''pixel'', 0)])))"
  "dnsLabel (lsClassRef (leaseSpec (demoLease ''l1'' ''pixel'' LeasePending [] None)))" "deviceName ''pool-pixel-0''"
  by (simp_all add: classOk_def deviceName_def dns1035Label_def dnsLabel_def dnsPart_def lowers_def digits_def demoClass_def demoPool_def demoLease_def emptyMeta_def)

lemma demoCold_name:
  "''pool-pixel-0'' = (mName (poolMeta (demoPool 2 [(''pixel'', 0)])) @ ''-'' @ lsClassRef (leaseSpec (demoLease ''l1'' ''pixel'' LeasePending [] None)) @ ''-'') @
     itoa (int (clVersion demoCold))"
  by code_simp

lemma demoCold_empty:
  "(leaseNamespace (demoLease ''l1'' ''pixel'' LeasePending [] None), ''pool-pixel-0'') \<notin> set (keysOf (clDevices demoCold))"
  "distinct (keysOf (clDevices demoCold))"
  "getObj podMeta (leaseNamespace (demoLease ''l1'' ''pixel'' LeasePending [] None), ''pool-pixel-0'' @ ''-emulator'') (clPods demoCold) = Inl ErrNotFound"
  by (simp_all add: keysOf_def getObj_def demoCold_def demo_defs emptyCluster_def)

lemma cold_start_serves_lease_witness:
  "\<exists>c2 res le' c4. snd (run_state (do { _ \<leftarrow> leaseReconcile mem (''ns'', ''l1''); deviceReconcile mem (''ns'', ''pool-pixel-0'') }) demoCold) = c2 \<and>
     run_state (do { _ \<leftarrow> deviceReconcile mem (''ns'', ''pool-pixel-0''); leaseReconcile mem (''ns'', ''l1'') }) (kubelet (''ns'', ''pool-pixel-0'' @ ''-emulator'') c2) = (Inr res, c4) \<and>
     getObj leaseMeta (''ns'', ''l1'') (clLeases c4) = Inr le' \<and> leasePhase le' = LeaseBound \<and> ltDeviceRef (leaseStatus le') = ''pool-pixel-0''"
proof -
  let ?le = "demoLease ''l1'' ''pixel'' LeasePending [] None"
  note cold = cold_start_serves_lease [where w = demoCold and n = "''pool-pixel-0''" and le = "demoLease ''l1'' ''pixel'' LeasePending [] None" and
      pool = "demoPool 2 [(''pixel'', 0)]" and nameFor = "\<lambda>c g. g @ itoa (int (clVersion c))",
    OF mem_all.farm_axioms demoCold_lease(1,2) demoCold_pool demoCold_class demoCold_valid(1-3) TrueI demoCold_name demoCold_empty(1) demoCold_valid(4)
      demoCold_empty(2,3), unfolded demoCold_lease(3)]
  obtain q c2 where
    c2: "snd (run_state (do { _ \<leftarrow> leaseReconcile mem (''ns'', ''l1''); deviceReconcile mem (''ns'', ''pool-pixel-0'') }) demoCold) = c2"
    "getObj podMeta (''ns'', ''pool-pixel-0'' @ ''-emulator'') (clPods c2) = Inr q"
    and next_runs: "\<forall>c3 p. clDevices c3 = clDevices c2 \<and> clLeases c3 = clLeases c2 \<and> clClasses c3 = clClasses c2 \<and>
        getObj podMeta (''ns'', ''pool-pixel-0'' @ ''-emulator'') (clPods c3) = Inr p \<and> podHealthy p \<longrightarrow>
      (\<exists>res le' y c4. run_state (do { _ \<leftarrow> deviceReconcile mem (''ns'', ''pool-pixel-0''); leaseReconcile mem (''ns'', ''l1'') }) c3 = (Inr res, c4) \<and>
        getObj leaseMeta (''ns'', ''l1'') (clLeases c4) = Inr le' \<and> leasePhase le' = LeaseBound \<and> ltDeviceRef (leaseStatus le') = ''pool-pixel-0'' \<and>
        y \<in> set (clDevices c4) \<and> keyOf (devMeta y) = (''ns'', ''pool-pixel-0'') \<and> devLeaseRef y = leaseName ?le)"
    using cold that by metis
  let ?c3 = "kubelet (''ns'', ''pool-pixel-0'' @ ''-emulator'') c2"
  obtain p where p: "getObj podMeta (''ns'', ''pool-pixel-0'' @ ''-emulator'') (clPods ?c3) = Inr p" "podHealthy p"
    using kubelet_boots [OF c2(2)] by blast
  have "clDevices ?c3 = clDevices c2" "clLeases ?c3 = clLeases c2" "clClasses ?c3 = clClasses c2" by (simp_all add: kubelet_def)
  with next_runs [rule_format, of ?c3 p] p c2(1) show ?thesis by fast
qed

end
