(* ===== verification/Schema_Safety.thy ===== *)
theory Schema_Safety
  imports Schema Frames Device_Properties Lease_Properties Pool_Properties
begin

text \<open>
  Type soundness of the controllers: if the server only answers with objects of the form it stores, then
  everything a run submits has the form the server accepts. \<open>typed T m\<close> is the judgment, a run of \<open>m\<close> that
  obeys \<open>schemaMay\<close> and ends with a result in \<open>T\<close>; its rules follow the syntax of the programs.
\<close>

declare traced_simps [simp del]

subsection \<open>The log only grows\<close>





subsection \<open>The judgment\<close>


















subsection \<open>The controllers are type sound\<close>











subsection \<open>A name that is too long\<close>

text \<open>The first exception occurs: a generated name can have 63 characters.\<close>

lemma adbService_name: "serviceOk s \<Longrightarrow> mName (svcMeta s) = adbServiceName d \<Longrightarrow> length (devName d) \<le> 59"
  by (simp add: serviceOk_def dns1035Label_def dnsLabel_def adbServiceName_def)

definition strictServices :: "'w kube \<Rightarrow> bool" where
  \<comment> \<open>the server holds only valid Services and refuses to create others\<close>
  "strictServices k \<longleftrightarrow> (\<forall>key s w w'. run_state (apiGetService k key) w = (Inr s, w') \<longrightarrow> serviceOk s \<and> mName (svcMeta s) = snd key) \<and>
     (\<forall>s s' w w'. run_state (apiCreateService k s) w = (Inr s', w') \<longrightarrow> serviceOk s)"

definition admitting :: "'w kube \<Rightarrow> 'w kube" where
  \<comment> \<open>a client behind which invalid Services are refused\<close>
  "admitting k = k\<lparr>
     apiGetService := \<lambda>key. do {
       r \<leftarrow> apiGetService k key;
       ret (case r of Inl e \<Rightarrow> Inl e
                    | Inr s \<Rightarrow> if serviceOk s \<and> mName (svcMeta s) = snd key then Inr s else Inl (ErrOther ''invalid''))
     },
     apiCreateService := \<lambda>s. if serviceOk s then apiCreateService k s else ret (Inl (ErrOther ''invalid'')) \<rparr>"

lemma admitting_strict: "strictServices (admitting k)"
proof -
  have "serviceOk s \<and> mName (svcMeta s) = snd key" if "run_state (apiGetService (admitting k) key) w = (Inr s, w')" for key s w w'
    using that by (cases "run_state (apiGetService k key) w") (auto simp: admitting_def split: sum.splits if_splits)
  moreover have "serviceOk s" if "run_state (apiCreateService (admitting k) s) w = (Inr s', w')" for s s' w w'
    using that by (auto simp: admitting_def split: if_splits)
  ultimately show ?thesis unfolding strictServices_def by blast
qed

lemma ensureService_fails:
  assumes "strictServices k" and "owner_references (setControllerReference k)" and "59 < length (devName d)"
  shows "\<exists>e w' l'. run_state (ensureService (traced k) d) (w, l) = (Inl e, (w', l')) \<and> (\<exists>t. l' = l @ t \<and> (\<forall>a \<in> set t. isRead a \<or> (\<exists>s r. a = ActCreateService s r)))"
proof -
  obtain r w1 where r: "run_state (apiGetService k (devNamespace d, adbServiceName d)) w = (r, w1)" by fastforce
  have name: "\<not> serviceOk s" if "mName (svcMeta s) = adbServiceName d" for s
    using adbService_name [OF _ that] assms(3) by auto
  show ?thesis
  proof (cases r)
    case (Inr s)
    then show ?thesis using assms(1) r name unfolding strictServices_def by fastforce
  next
    case (Inl e)
    show ?thesis
    proof (cases "e = ErrNotFound")
      case False
      then show ?thesis using r Inl by (cases e) (auto simp: ensureService_def traced_simps logged_def)
    next
      case True
      show ?thesis
      proof (cases "setControllerReference k ''Device'' (devMeta d) (svcMeta (adbService d))")
        case (Inl e')
        then show ?thesis using r \<open>r = Inl e\<close> True by (auto simp: ensureService_def traced_simps logged_def Let_def)
      next
        case (Inr m)
        then have "mName m = adbServiceName d"
          using owner_references.keeps_key [OF assms(2) Inr] by (simp add: adbService_def)
        then have bad: "\<not> serviceOk (setServiceMeta m (adbService d))" using name by (simp add: setServiceMeta_def)
        obtain r' w2 where r': "run_state (apiCreateService k (setServiceMeta m (adbService d))) w1 = (r', w2)" by fastforce
        with bad assms(1) obtain e' where "r' = Inl e'" unfolding strictServices_def by (cases r') blast+
        with r' show ?thesis using r \<open>r = Inl e\<close> True Inr by (auto simp: ensureService_def traced_simps logged_def Let_def)
      qed
    qed
  qed
qed

text \<open>C34: An emulator device whose name has 60 characters or more never boots: its Service would have a name longer than
  the server accepts, so every run that finds its class ends with an error, having created and reported nothing.
  Names of that length come from a pool and a class whose names have 53 characters together.\<close>

theorem overlong_device_never_boots:
  assumes "strictServices k" and "owner_references (setControllerReference k)"
    and "run_state (apiGetDevice k key) w = (Inr d, w1)" and "\<not> devTerminating d" and "dsProviderType (devSpec d) \<noteq> ProviderPhysical"
    and "run_state (apiGetDeviceClass k (devClass d)) w1 = (Inr dc, w2)" and "59 < length (devName d)"
  shows "(\<exists>e. resultOf (deviceReconcile (traced k) key) w = Inl e) \<and>
    (\<forall>a \<in> set (traceOf (deviceReconcile (traced k) key) w). isRead a \<or> (\<exists>s r. a = ActCreateService s r))"
  using ensureService_fails [OF assms(1,2,7), of w2 "[ActGetDevice key (Inr d), ActGetDeviceClass (devClass d) (Inr dc)]"] assms(3-6)
  by (auto simp: resultOf_def traceOf_def deviceReconcile_def traced_simps(3,4) logged_def) blast

definition demoLong :: cluster where
  \<comment> \<open>a device that the server named after pool and class, with 60 characters\<close>
  "demoLong = demoCluster (demoPool 2 [(''pixel'', 1)]) [demoDevice (replicate 60 CHR ''d'') ''pixel'' DeviceProvisioning []] []"

lemma overlong_device_never_boots_witness:
  "\<exists>e. resultOf (deviceReconcile (traced (admitting mem)) (''ns'', replicate 60 CHR ''d'')) demoLong = Inl e"
proof -
  let ?d = "demoDevice (replicate 60 CHR ''d'') ''pixel'' DeviceProvisioning []"
  have owner: "owner_references (setControllerReference (admitting mem))"
    using mem_owners.owner_references_axioms by (simp add: admitting_def)
  have "run_state (apiGetDevice (admitting mem) (''ns'', replicate 60 CHR ''d'')) demoLong = (Inr ?d, demoLong)"
    "run_state (apiGetDeviceClass (admitting mem) (devClass ?d)) demoLong = (Inr (demoClass ''pixel''), demoLong)"
    by (simp_all add: admitting_def mem_def reads_def getObj_def hasKey_def demoLong_def demoCluster_def demoDevice_def demoClass_def emptyMeta_def)
  from overlong_device_never_boots [OF admitting_strict owner this(1) _ _ this(2)] show ?thesis
    by (simp add: demoDevice_def emptyMeta_def)
qed

end
