(* ===== verification/Validating.thy ===== *)
theory Validating
  imports Cold_Start Schema_Safety
begin

text \<open>
  A server that holds to the rules of \<open>Schema\<close>: it serves only valid Services, and refuses to create a Device,
  a Pod, a Service or a Job that is not valid. It meets the interface \<open>farm\<close>, under which a waiting lease is served
  from nothing, and the contract \<open>strictServices\<close>, under which a device with an overlong name never boots.
\<close>

definition invalid :: "(cluster, goError + 'a) state" where
  "invalid = ret (Inl (ErrOther ''invalid''))"

definition validServices :: "cluster \<Rightarrow> service list" where
  "validServices c = filter serviceOk (clServices c)"

definition validating :: "cluster kube" where
  "validating = mem\<lparr>
     apiGetService := \<lambda>key. reads (\<lambda>c. getObj svcMeta key (validServices c)),
     apiCreateDevice := \<lambda>d. if newDeviceOk d then apiCreateDevice mem d else invalid,
     apiCreatePod := \<lambda>p. if podOk p then apiCreatePod mem p else invalid,
     apiCreateService := \<lambda>s. if serviceOk s then onServices (\<lambda>v xs. createObj svcMeta mapSvcMeta v s (filter serviceOk xs)) else invalid,
     apiUpdateService := \<lambda>s. if serviceOk s then onServices (\<lambda>v xs. writeObj svcMeta mapSvcMeta mergeService v s (filter serviceOk xs)) else invalid,
     apiCreateJob := \<lambda>j. if jobOk j then apiCreateJob mem j else invalid \<rparr>"

lemma validating_strict: "strictServices validating"
  unfolding strictServices_def
  by (auto simp: validating_def reads_def invalid_def validServices_def hasKey_def dest!: getObj_key split: if_splits) (simp add: keyOf_def)

text \<open>All other operations are the reference server's.\<close>

lemma as_mem:
  "clockNow validating = clockNow mem" "apiGetDevice validating = apiGetDevice mem" "apiGetDeviceClass validating = apiGetDeviceClass mem"
  "apiGetDevicePool validating = apiGetDevicePool mem" "apiGetDeviceLease validating = apiGetDeviceLease mem" "apiGetPod validating = apiGetPod mem"
  "apiGetJob validating = apiGetJob mem" "apiListDevices validating = apiListDevices mem" "apiListDeviceLeases validating = apiListDeviceLeases mem"
  "apiListDevicePools validating = apiListDevicePools mem" "apiUpdateDevice validating = apiUpdateDevice mem"
  "apiUpdateDeviceLease validating = apiUpdateDeviceLease mem" "apiUpdateDeviceStatus validating = apiUpdateDeviceStatus mem"
  "apiUpdateDeviceLeaseStatus validating = apiUpdateDeviceLeaseStatus mem" "apiUpdateDevicePoolStatus validating = apiUpdateDevicePoolStatus mem"
  "apiDeleteDevice validating = apiDeleteDevice mem" "apiDeletePod validating = apiDeletePod mem" "setStatusCondition validating = setStatusCondition mem"
  "containsFinalizer validating = containsFinalizer mem" "addFinalizer validating = addFinalizer mem" "removeFinalizer validating = removeFinalizer mem"
  "setControllerReference validating = setControllerReference mem"
  and creating:
  "newDeviceOk d \<Longrightarrow> apiCreateDevice validating d = apiCreateDevice mem d" "podOk p \<Longrightarrow> apiCreatePod validating p = apiCreatePod mem p"
  "jobOk j \<Longrightarrow> apiCreateJob validating j = apiCreateJob mem j"
  by (simp_all add: validating_def)

interpretation validating_classes: framed validating "\<lambda>c c'. clClasses c' = clClasses c"
proof
  note mem = mem_classes.calls
  show "moves (\<lambda>c c'. clClasses c' = clClasses c) (apiGetService validating x)" for x
    by (simp add: validating_def moves_def reads_def)
  show "moves (\<lambda>c c'. clClasses c' = clClasses c) (apiCreateService validating s)"
    "moves (\<lambda>c c'. clClasses c' = clClasses c) (apiUpdateService validating s)" for s
    by (auto simp: validating_def invalid_def moves_def onServices_def run_writes split: prod.split sum.split)
qed (use mem_classes.calls in \<open>auto simp: validating_def invalid_def moves_def\<close>)

interpretation validating_farm: farm validating clDevices clLeases clPods "\<lambda>c. (validServices c, clJobs c)" "\<lambda>_. True" clClasses clPools
    "\<lambda>c g. g @ itoa (int (clVersion c))"
proof
  fix s :: service and c :: cluster
  assume s: "getObj svcMeta (keyOf (svcMeta s)) (fst (validServices c, clJobs c)) = Inl ErrNotFound" and ok: "serviceOk s"
  show "\<exists>q c'. run_state (apiCreateService validating s) c = (Inr q, c') \<and> clDevices c' = clDevices c \<and> clLeases c' = clLeases c \<and> clPods c' = clPods c"
    using createObj_new [OF s [unfolded fst_conv] kinds_named(2) [OF ok], of mapSvcMeta "clVersion c"] ok
    by (simp add: validating_def validServices_def onServices_def run_writes)
next
  fix s old :: service and c :: cluster
  assume "getObj svcMeta (keyOf (svcMeta s)) (fst (validServices c, clJobs c)) = Inr old" "mResourceVersion (svcMeta s) = mResourceVersion (svcMeta old)"
    and "serviceOk old \<longrightarrow> serviceOk s"
  moreover from this(1) have "serviceOk old" by (auto simp: validServices_def dest!: getObj_key)
  ultimately show "\<exists>q c'. run_state (apiUpdateService validating s) c = (Inr q, c') \<and> clDevices c' = clDevices c \<and> clLeases c' = clLeases c \<and> clPods c' = clPods c"
    by (simp add: validating_def validServices_def onServices_def run_writes writeObj_accepted Let_def)
next
  show "run_state (apiGetService validating key) c = (getObj svcMeta key (fst (validServices c, clJobs c)), c)" for key c
    by (simp add: validating_def reads_def)
qed (unfold as_mem creating snd_conv, (rule mem_server.get_lease mem_server.list_devices mem_server.clock mem_server.conditions mem_server.write_device
    mem_server.write_lease mem_server.drop_lease mem_server.delete_pod mem_server.finalizer_list mem_farm.get_device mem_farm.get_pool mem_farm.get_pod
    mem_farm.get_job [unfolded snd_conv] mem_farm.own mem_farm.create_pod mem_farm.create_job [unfolded snd_conv] mem_farm.write_phase mem_farm.edit_device mem_all.class_read mem_all.pool_read
    mem_all.list_pools mem_all.list_leases mem_all.create_device mem_all.lease_kept mem_all.pods_kept validating_classes.framed_axioms; (assumption | rule TrueI)?)+)

text \<open>So the two contracts are compatible.\<close>

theorem farm_can_be_strict:
  "farm validating clDevices clLeases clPods (\<lambda>c. (validServices c, clJobs c)) (\<lambda>_. True) clClasses clPools (\<lambda>c g. g @ itoa (int (clVersion c))) \<and>
   strictServices validating"
  using validating_farm.farm_axioms validating_strict by blast

end
