(* ===== verification/Hoare.thy ===== *)
theory Hoare
  imports Prelude
begin

text \<open>
  Hoare triples for programs over a world, of which the predicates see a view: from every world whose view
  satisfies \<open>P\<close> the program ends with a result and a view of the world that satisfy \<open>Q\<close>. The rules follow the
  syntax of the programs.
\<close>

definition hoare :: "('w \<Rightarrow> 'v) \<Rightarrow> ('v \<Rightarrow> bool) \<Rightarrow> ('w, 'a) state \<Rightarrow> ('a \<Rightarrow> 'v \<Rightarrow> bool) \<Rightarrow> bool" where
  "hoare v P m Q \<longleftrightarrow> (\<forall>w. P (v w) \<longrightarrow> (case run_state m w of (x, w') \<Rightarrow> Q x (v w')))"

lemma hoareI: "(\<And>w x w'. P (v w) \<Longrightarrow> run_state m w = (x, w') \<Longrightarrow> Q x (v w')) \<Longrightarrow> hoare v P m Q"
  by (simp add: hoare_def split: prod.split)

lemma hoareD: "hoare v P m Q \<Longrightarrow> P (v w) \<Longrightarrow> run_state m w = (x, w') \<Longrightarrow> Q x (v w')"
  by (fastforce simp: hoare_def)

lemma hoare_run: "hoare v P m Q \<Longrightarrow> P (v w) \<Longrightarrow> Q (fst (run_state m w)) (v (snd (run_state m w)))"
  by (fastforce simp: hoare_def)

lemma hoare_ret: "(\<And>w. P w \<Longrightarrow> Q x w) \<Longrightarrow> hoare v P (ret x) Q"
  by (simp add: hoare_def)

lemma hoare_bind: "hoare v P m R \<Longrightarrow> (\<And>x. hoare v (R x) (f x) Q) \<Longrightarrow> hoare v P (State_Monad.bind m f) Q"
  by (fastforce simp: hoare_def split: prod.split)

lemma hoare_tryE:
  "hoare v P m R \<Longrightarrow> (\<And>e w. R (Inl e) w \<Longrightarrow> Q (Inl e) w) \<Longrightarrow> (\<And>x. hoare v (R (Inr x)) (f x) Q) \<Longrightarrow> hoare v P (tryE m f) Q"
  unfolding tryE_def by (rule hoare_bind) (auto intro: hoare_ret split: sum.split)

lemma hoare_conseq: "hoare v P' m Q' \<Longrightarrow> (\<And>w. P w \<Longrightarrow> P' w) \<Longrightarrow> (\<And>x w. Q' x w \<Longrightarrow> Q x w) \<Longrightarrow> hoare v P m Q"
  by (fastforce simp: hoare_def)

lemma hoare_pre: "hoare v P' m Q \<Longrightarrow> (\<And>w. P w \<Longrightarrow> P' w) \<Longrightarrow> hoare v P m Q"
  by (rule hoare_conseq)

lemma hoare_fact: "(A \<Longrightarrow> hoare v P m Q) \<Longrightarrow> hoare v (\<lambda>w. A \<and> P w) m Q"
  by (auto simp: hoare_def)

lemma hoare_cases:
  "(b \<Longrightarrow> hoare v P m Q) \<Longrightarrow> (\<not> b \<Longrightarrow> hoare v P m' Q) \<Longrightarrow> hoare v P (if b then m else m') Q"
  "(\<And>a b'. p = (a, b') \<Longrightarrow> hoare v P (f a b') Q) \<Longrightarrow> hoare v P (case p of (a, b') \<Rightarrow> f a b') Q"
  "(o' = None \<Longrightarrow> hoare v P m Q) \<Longrightarrow> (\<And>x. o' = Some x \<Longrightarrow> hoare v P (g x) Q) \<Longrightarrow> hoare v P (case o' of None \<Rightarrow> m | Some x \<Rightarrow> g x) Q"
  "(\<And>e. r = Inl e \<Longrightarrow> hoare v P (h e) Q) \<Longrightarrow> (\<And>x. r = Inr x \<Longrightarrow> hoare v P (g' x) Q) \<Longrightarrow> hoare v P (case r of Inl e \<Rightarrow> h e | Inr x \<Rightarrow> g' x) Q"
  by (auto split: prod.split option.split sum.split)

lemma hoare_error: "(e = ErrNotFound \<Longrightarrow> hoare v P m Q) \<Longrightarrow> (e = ErrConflict \<Longrightarrow> hoare v P m' Q) \<Longrightarrow> (\<And>s. e = ErrOther s \<Longrightarrow> hoare v P (f s) Q) \<Longrightarrow>
    (\<And>s. e = Panicked s \<Longrightarrow> hoare v P (g s) Q) \<Longrightarrow>
    hoare v P (case e of ErrNotFound \<Rightarrow> m | ErrConflict \<Rightarrow> m' | ErrOther s \<Rightarrow> f s | Panicked s \<Rightarrow> g s) Q"
  by (cases e) simp_all

text \<open>A world property that a program leaves alone, with a property of its result.\<close>

definition upholds :: "('w \<Rightarrow> 'v) \<Rightarrow> ('v \<Rightarrow> bool) \<Rightarrow> ('a \<Rightarrow> bool) \<Rightarrow> ('w, 'a) state \<Rightarrow> bool" where
  "upholds v I T m \<longleftrightarrow> hoare v I m (\<lambda>x w. I w \<and> T x)"

fun okThat :: "('a \<Rightarrow> bool) \<Rightarrow> 'e + 'a \<Rightarrow> bool" where
  "okThat T (Inl e) = True"
| "okThat T (Inr x) = T x"

lemma okThat_iff: "okThat T r \<longleftrightarrow> (\<forall>x. r = Inr x \<longrightarrow> T x)"
  by (cases r) simp_all

lemma upholdsI: "(\<And>w x w'. I (v w) \<Longrightarrow> run_state m w = (x, w') \<Longrightarrow> I (v w') \<and> T x) \<Longrightarrow> upholds v I T m"
  unfolding upholds_def by (rule hoareI)

lemma upholds_ret: "T x \<Longrightarrow> upholds v I T (ret x)"
  by (simp add: upholds_def hoare_ret)

lemma upholds_bind: "upholds v I S m \<Longrightarrow> (\<And>x. S x \<Longrightarrow> upholds v I T (f x)) \<Longrightarrow> upholds v I T (State_Monad.bind m f)"
  unfolding upholds_def by (erule hoare_bind, rule hoareI) (blast dest: hoareD)

lemma upholds_tryE: "upholds v I (okThat S) m \<Longrightarrow> (\<And>x. S x \<Longrightarrow> upholds v I (okThat T) (f x)) \<Longrightarrow> upholds v I (okThat T) (tryE m f)"
  unfolding tryE_def by (erule upholds_bind) (auto intro: upholds_ret split: sum.split)

lemma upholds_weaken: "upholds v I S m \<Longrightarrow> (\<And>x. S x \<Longrightarrow> T x) \<Longrightarrow> upholds v I T m"
  unfolding upholds_def by (erule hoare_conseq) auto

lemma upholds_try: "(\<And>x. r = Inr x \<Longrightarrow> upholds v I (okThat T) (f x)) \<Longrightarrow> upholds v I (okThat T) (tryE (ret r) f)"
  by (cases r) (simp_all add: tryE_def upholds_ret)

lemma upholds_cases:
  "(b \<Longrightarrow> upholds v I T m) \<Longrightarrow> (\<not> b \<Longrightarrow> upholds v I T m') \<Longrightarrow> upholds v I T (if b then m else m')"
  "(\<And>a b'. p = (a, b') \<Longrightarrow> upholds v I T (f a b')) \<Longrightarrow> upholds v I T (case p of (a, b') \<Rightarrow> f a b')"
  "(o' = None \<Longrightarrow> upholds v I T m) \<Longrightarrow> (\<And>x. o' = Some x \<Longrightarrow> upholds v I T (g x)) \<Longrightarrow> upholds v I T (case o' of None \<Rightarrow> m | Some x \<Rightarrow> g x)"
  "(\<And>e. r = Inl e \<Longrightarrow> upholds v I T (h e)) \<Longrightarrow> (\<And>x. r = Inr x \<Longrightarrow> upholds v I T (g' x)) \<Longrightarrow> upholds v I T (case r of Inl e \<Rightarrow> h e | Inr x \<Rightarrow> g' x)"
  unfolding upholds_def by (fact hoare_cases)+

lemma upholds_error: "upholds v I T m1 \<Longrightarrow> upholds v I T m2 \<Longrightarrow> (\<And>s. upholds v I T (f1 s)) \<Longrightarrow> (\<And>s. upholds v I T (f2 s)) \<Longrightarrow>
    upholds v I T (case e of ErrNotFound \<Rightarrow> m1 | ErrConflict \<Rightarrow> m2 | ErrOther s \<Rightarrow> f1 s | Panicked s \<Rightarrow> f2 s)"
  by (cases e) simp_all

lemma upholds_try_cases:
  "upholds v I (okThat (\<lambda>_. True)) (case o' of None \<Rightarrow> m | Some x \<Rightarrow> g x) \<Longrightarrow> (\<And>x. upholds v I (okThat T) (f x)) \<Longrightarrow>
    upholds v I (okThat T) (tryE (case o' of None \<Rightarrow> m | Some x \<Rightarrow> g x) f)"
  "upholds v I (okThat (\<lambda>_. True)) (case r of Inl e \<Rightarrow> h e | Inr x \<Rightarrow> g' x) \<Longrightarrow> (\<And>x. upholds v I (okThat T) (f x)) \<Longrightarrow>
    upholds v I (okThat T) (tryE (case r of Inl e \<Rightarrow> h e | Inr x \<Rightarrow> g' x) f)"
  "upholds v I (okThat (\<lambda>_. True)) (if b then n else n') \<Longrightarrow> (\<And>x. upholds v I (okThat T) (f x)) \<Longrightarrow> upholds v I (okThat T) (tryE (if b then n else n') f)"
  by (rule upholds_tryE; assumption)+

lemmas upholding = upholds_cases upholds_error upholds_ret upholds_try upholds_try_cases

end
