(* ===== verification/Unreliable.thy ===== *)
theory Unreliable
  imports Cluster Hoare
begin

text \<open>
  A server whose calls may fail at any time. \<open>unreliable k cl\<close>: the client \<open>k\<close> works on worlds through which the
  stored objects can be seen (\<open>cl\<close>), and every call either answers as the reference server does, or returns an
  error, of which it is not known whether the request was refused or carried out and its answer lost. Only that
  an object does not exist is never reported falsely. \<open>flaky\<close> is such a server: the reference server behind a list of
  faults.
\<close>

subsection \<open>The contract\<close>

definition answers :: "('w \<Rightarrow> 'v) \<Rightarrow> ('w, goError + 'a) state \<Rightarrow> ('v, goError + 'a) state \<Rightarrow> bool" where
  "answers v m m0 \<longleftrightarrow> (\<forall>w. let (r, w') = run_state m w; (r0, c) = run_state m0 (v w) in
     r = r0 \<and> v w' = c \<or> (\<exists>e. r = Inl e \<and> e \<noteq> ErrNotFound) \<and> (v w' = v w \<or> v w' = c))"

lemma answersD:
  assumes "answers v m m0" and "run_state m w = (r, w')"
  obtains "run_state m0 (v w) = (r, v w')"
  | e where "r = Inl e" and "e \<noteq> ErrNotFound" and "v w' = v w"
  | e r0 where "r = Inl e" and "e \<noteq> ErrNotFound" and "run_state m0 (v w) = (r0, v w')"
proof -
  obtain r0 c where 0: "run_state m0 (v w) = (r0, c)" by fastforce
  have "r = r0 \<and> v w' = c \<or> (\<exists>e. r = Inl e \<and> e \<noteq> ErrNotFound) \<and> (v w' = v w \<or> v w' = c)"
    using assms 0 unfolding answers_def by (auto dest!: spec [of _ w])
  then show thesis using 0 that by blast
qed

text \<open>A triple of the reference server carries over, if its postcondition also allows for an error at either point.\<close>

lemma hoare_answers:
  assumes "answers v m m0" and "hoare id P m0 Q" and "\<And>e c. e \<noteq> ErrNotFound \<Longrightarrow> P c \<Longrightarrow> Q (Inl e) c"
    and "\<And>e r c. e \<noteq> ErrNotFound \<Longrightarrow> Q r c \<Longrightarrow> Q (Inl e) c"
  shows "hoare v P m Q"
proof (rule hoareI)
  fix w r w' assume "P (v w)" and "run_state m w = (r, w')"
  from assms(1) this(2) show "Q r (v w')"
    by (rule answersD) (use assms(2-4) \<open>P (v w)\<close> hoareD [OF assms(2), of "v w"] in \<open>auto\<close>)
qed

lemma upholds_answers: "answers v m m0 \<Longrightarrow> upholds id I (okThat T) m0 \<Longrightarrow> upholds v I (okThat T) m"
  unfolding upholds_def by (erule hoare_answers) auto

locale unreliable =
  fixes k :: "'w kube" and cl :: "'w \<Rightarrow> cluster"
  assumes calls:
      "answers cl (apiGetDevice k x1) (apiGetDevice mem x1)"
      "answers cl (apiGetDeviceClass k x2) (apiGetDeviceClass mem x2)"
      "answers cl (apiGetDevicePool k x3) (apiGetDevicePool mem x3)"
      "answers cl (apiGetDeviceLease k x4) (apiGetDeviceLease mem x4)"
      "answers cl (apiGetPod k x5) (apiGetPod mem x5)"
      "answers cl (apiGetService k x6) (apiGetService mem x6)"
      "answers cl (apiGetJob k x7) (apiGetJob mem x7)"
      "answers cl (apiListDevices k x8 y8) (apiListDevices mem x8 y8)"
      "answers cl (apiListDeviceLeases k x9) (apiListDeviceLeases mem x9)"
      "answers cl (apiListDevicePools k x10) (apiListDevicePools mem x10)"
      "answers cl (apiCreateDevice k x11) (apiCreateDevice mem x11)"
      "answers cl (apiCreateDeviceLease k x12) (apiCreateDeviceLease mem x12)"
      "answers cl (apiCreatePod k x13) (apiCreatePod mem x13)"
      "answers cl (apiCreateService k x14) (apiCreateService mem x14)"
      "answers cl (apiCreateJob k x15) (apiCreateJob mem x15)"
      "answers cl (apiUpdateDevice k x16) (apiUpdateDevice mem x16)"
      "answers cl (apiUpdateDeviceLease k x17) (apiUpdateDeviceLease mem x17)"
      "answers cl (apiUpdateService k x18) (apiUpdateService mem x18)"
      "answers cl (apiUpdateDeviceStatus k x19) (apiUpdateDeviceStatus mem x19)"
      "answers cl (apiUpdateDeviceLeaseStatus k x20) (apiUpdateDeviceLeaseStatus mem x20)"
      "answers cl (apiUpdateDevicePoolStatus k x21) (apiUpdateDevicePoolStatus mem x21)"
      "answers cl (apiPatchDeviceLeaseStatus k x22 y22) (apiPatchDeviceLeaseStatus mem x22 y22)"
      "answers cl (apiDeleteDevice k x23) (apiDeleteDevice mem x23)"
      "answers cl (apiDeletePod k x24) (apiDeletePod mem x24)"
      "answers cl (apiDeleteDeviceLease k x25) (apiDeleteDeviceLease mem x25)"
    and clock_stays: "run_state (clockNow k) w = (t, w') \<Longrightarrow> cl w' = cl w"
    and conditions_stay: "run_state (setStatusCondition k cs cd) w = (p, w') \<Longrightarrow> cl w' = cl w"
    and finalizer_list: "containsFinalizer k = containsFinalizer mem" "addFinalizer k = addFinalizer mem" "removeFinalizer k = removeFinalizer mem"
    and owner_only: "setControllerReference k kind owner m = Inr m' \<Longrightarrow> \<exists>rs. m' = m\<lparr>mOwnerReferences := rs\<rparr>"
begin

lemma hoare_clock: "hoare cl P (clockNow k) (\<lambda>_. P)"
  by (rule hoareI) (auto dest: clock_stays)

lemma hoare_conditions: "hoare cl P (setStatusCondition k cs cd) (\<lambda>_. P)"
  by (rule hoareI) (auto dest: conditions_stay)

text \<open>A read leaves the objects alone.\<close>

lemma hoare_reads:
  "hoare cl P (apiGetDevice k key) (\<lambda>r c. P c \<and> (r = getObj devMeta key (clDevices c) \<or> (\<exists>e. r = Inl e \<and> e \<noteq> ErrNotFound)))"
  "hoare cl P (apiGetDeviceClass k n) (\<lambda>_. P)"
  "hoare cl P (apiGetDevicePool k key) (\<lambda>r c. P c \<and> (r = getObj poolMeta key (clPools c) \<or> (\<exists>e. r = Inl e \<and> e \<noteq> ErrNotFound)))"
  "hoare cl P (apiGetDeviceLease k key) (\<lambda>r c. P c \<and> (r = getObj leaseMeta key (clLeases c) \<or> (\<exists>e. r = Inl e \<and> e \<noteq> ErrNotFound)))"
  "hoare cl P (apiListDevices k ns sel) (\<lambda>r c. P c \<and>
     (r = Inr (filter (\<lambda>d. devNamespace d = ns \<and> matchesLabels sel (devMeta d)) (clDevices c)) \<or> (\<exists>e. r = Inl e)))"
  "hoare cl P (apiListDeviceLeases k ns) (\<lambda>r c. P c \<and> (r = Inr (filter (\<lambda>l. leaseNamespace l = ns) (clLeases c)) \<or> (\<exists>e. r = Inl e)))"
  "hoare cl P (apiListDevicePools k ns) (\<lambda>r c. P c \<and> (r = Inr (filter (\<lambda>p. mNamespace (poolMeta p) = ns) (clPools c)) \<or> (\<exists>e. r = Inl e)))"
  by (rule hoareI, erule calls(1,2,3,4,8,9,10) [THEN answersD]; auto simp: mem_def reads_def)+

end

subsection \<open>The reference server, and a flaky one\<close>

lemma answers_self: "answers id m m"
  by (simp add: answers_def split: prod.split)

interpretation mem_unreliable: unreliable mem id
proof
  fix kind owner m m' assume "setControllerReference mem kind owner m = Inr m'"
  then show "\<exists>rs. m' = m\<lparr>mOwnerReferences := rs\<rparr>"
    by (auto simp: mem_def ownedBy_def Let_def split: option.splits if_splits intro: exI [of _ "mOwnerReferences m"])
qed (simp_all add: answers_self, auto simp: mem_def reads_def)

datatype fault = Through | Refused string | Lost string

definition faulty :: "(cluster, goError + 'a) state \<Rightarrow> (cluster \<times> fault list, goError + 'a) state" where
  \<comment> \<open>the next fault of the list decides: the call goes through, is refused, or is carried out and its answer is lost\<close>
  "faulty m = State (\<lambda>(c, fs). case run_state m c of (r, c') \<Rightarrow>
     (case fs of
        [] \<Rightarrow> (r, (c', []))
      | Through # fs' \<Rightarrow> (r, (c', fs'))
      | Refused s # fs' \<Rightarrow> (Inl (ErrOther s), (c, fs'))
      | Lost s # fs' \<Rightarrow> (Inl (ErrOther s), (c', fs'))))"

definition atOnce :: "(cluster, 'a) state \<Rightarrow> (cluster \<times> fault list, 'a) state" where
  "atOnce m = State (\<lambda>(c, fs). case run_state m c of (r, c') \<Rightarrow> (r, (c', fs)))"

definition flaky :: "(cluster \<times> fault list) kube" where
  "flaky = \<lparr>
     clockNow = atOnce (clockNow mem),
     localOffset = localOffset mem,
     apiGetDevice = (\<lambda>x. faulty (apiGetDevice mem x)),
     apiGetDeviceClass = (\<lambda>x. faulty (apiGetDeviceClass mem x)),
     apiGetDevicePool = (\<lambda>x. faulty (apiGetDevicePool mem x)),
     apiGetDeviceLease = (\<lambda>x. faulty (apiGetDeviceLease mem x)),
     apiGetPod = (\<lambda>x. faulty (apiGetPod mem x)),
     apiGetService = (\<lambda>x. faulty (apiGetService mem x)),
     apiGetJob = (\<lambda>x. faulty (apiGetJob mem x)),
     apiListDevices = (\<lambda>x y. faulty (apiListDevices mem x y)),
     apiListDeviceLeases = (\<lambda>x. faulty (apiListDeviceLeases mem x)),
     apiListDevicePools = (\<lambda>x. faulty (apiListDevicePools mem x)),
     apiCreateDevice = (\<lambda>x. faulty (apiCreateDevice mem x)),
     apiCreateDeviceLease = (\<lambda>x. faulty (apiCreateDeviceLease mem x)),
     apiCreatePod = (\<lambda>x. faulty (apiCreatePod mem x)),
     apiCreateService = (\<lambda>x. faulty (apiCreateService mem x)),
     apiCreateJob = (\<lambda>x. faulty (apiCreateJob mem x)),
     apiUpdateDevice = (\<lambda>x. faulty (apiUpdateDevice mem x)),
     apiUpdateDeviceLease = (\<lambda>x. faulty (apiUpdateDeviceLease mem x)),
     apiUpdateService = (\<lambda>x. faulty (apiUpdateService mem x)),
     apiUpdateDeviceStatus = (\<lambda>x. faulty (apiUpdateDeviceStatus mem x)),
     apiUpdateDeviceLeaseStatus = (\<lambda>x. faulty (apiUpdateDeviceLeaseStatus mem x)),
     apiUpdateDevicePoolStatus = (\<lambda>x. faulty (apiUpdateDevicePoolStatus mem x)),
     apiPatchDeviceLeaseStatus = (\<lambda>x y. faulty (apiPatchDeviceLeaseStatus mem x y)),
     apiDeleteDevice = (\<lambda>x. faulty (apiDeleteDevice mem x)),
     apiDeletePod = (\<lambda>x. faulty (apiDeletePod mem x)),
     apiDeleteDeviceLease = (\<lambda>x. faulty (apiDeleteDeviceLease mem x)),
     setStatusCondition = (\<lambda>x y. atOnce (setStatusCondition mem x y)),
     containsFinalizer = containsFinalizer mem,
     addFinalizer = addFinalizer mem,
     removeFinalizer = removeFinalizer mem,
     setControllerReference = setControllerReference mem \<rparr>"

lemma answers_faulty: "answers fst (faulty m) m"
  by (auto simp: answers_def faulty_def split: prod.split list.split fault.split)

interpretation flaky_unreliable: unreliable flaky fst
proof
  fix kind owner m m' assume "setControllerReference flaky kind owner m = Inr m'"
  then show "\<exists>rs. m' = m\<lparr>mOwnerReferences := rs\<rparr>" by (intro mem_unreliable.owner_only) (simp add: flaky_def)
qed (auto simp: flaky_def answers_faulty atOnce_def mem_def reads_def)

end
