(* ===== verification/Farm_Invariant.thy ===== *)
theory Farm_Invariant
  imports Boot Unreliable
begin

text \<open>
  What holds of the farm between two runs: every Bound lease, but those of a set \<open>K\<close> for which a run ended with an
  error, has the device it names, carrying the lease's name, the lease a device carries is stored, and no pool has
  more active devices than \<open>maxConcurrent\<close>. The invariant reads a few fields of each object, so a run of the device
  controller, which writes none of them, keeps it, whichever of its calls fail.
\<close>

subsection \<open>The invariant\<close>

definition held :: "DeviceLease \<Rightarrow> bool" where
  "held l \<longleftrightarrow> leasePhase l = LeaseBound \<and> leaseFinalizer \<in> set (mFinalizers (leaseMeta l))"

definition hasItsDevice :: "Device list \<Rightarrow> DeviceLease \<Rightarrow> bool" where
  "hasItsDevice ds l \<longleftrightarrow> (\<exists>d \<in> set ds. keyOf (devMeta d) = (leaseNamespace l, ltDeviceRef (leaseStatus l)) \<and> devLeaseRef d = leaseName l)"

definition leaseFine :: "DeviceLease \<Rightarrow> bool" where
  "leaseFine l \<longleftrightarrow> leaseName l \<noteq> [] \<and> (leasePhase l = LeaseBound \<and> \<not> leaseTerminating l \<longrightarrow> leaseFinalizer \<in> set (mFinalizers (leaseMeta l)))"

definition leasesFine :: "objectKey set \<Rightarrow> Device list \<Rightarrow> DeviceLease list \<Rightarrow> bool" where
  \<comment> \<open>every held lease, but those of \<open>K\<close>, has its device\<close>
  "leasesFine K ds ls \<longleftrightarrow> distinct (map (\<lambda>l. keyOf (leaseMeta l)) ls) \<and> list_all leaseFine ls \<and>
     (\<forall>l \<in> set ls. held l \<and> keyOf (leaseMeta l) \<notin> K \<longrightarrow> hasItsDevice ds l)"

definition memberOf :: "DevicePool \<Rightarrow> Device \<Rightarrow> bool" where
  \<comment> \<open>an active device of the pool\<close>
  "memberOf p d \<longleftrightarrow> devNamespace d = mNamespace (poolMeta p) \<and> mLabels (devMeta d) LabelPool = Some (mName (poolMeta p)) \<and> \<not> devTerminating d"

definition sizeOf :: "Device list \<Rightarrow> DevicePool \<Rightarrow> int" where
  "sizeOf ds p = int (length (filter (memberOf p) ds))"

definition poolsFine :: "DevicePool list \<Rightarrow> Device list \<Rightarrow> bool" where
  "poolsFine ps ds \<longleftrightarrow> distinct (map (\<lambda>p. keyOf (poolMeta p)) ps) \<and> list_all (\<lambda>p. sizeOf ds p \<le> sint (dpsMaxConcurrent (poolSpec p))) ps"

definition refsOf :: "Device list \<Rightarrow> objectKey list" where
  \<comment> \<open>the leases the devices carry\<close>
  "refsOf ds = map (\<lambda>d. (devNamespace d, devLeaseRef d)) (filter (\<lambda>d. devLeaseRef d \<noteq> []) ds)"

definition finalized :: "DeviceLease list \<Rightarrow> objectKey list" where
  "finalized ls = map (\<lambda>l. keyOf (leaseMeta l)) (filter (\<lambda>l. leaseFinalizer \<in> set (mFinalizers (leaseMeta l))) ls)"

definition refsFine :: "Device list \<Rightarrow> DeviceLease list \<Rightarrow> bool" where
  \<comment> \<open>no two devices carry one lease, and the lease a device carries is stored, with its finalizer\<close>
  "refsFine ds ls \<longleftrightarrow> distinct (refsOf ds) \<and> set (refsOf ds) \<subseteq> set (finalized ls)"

definition farmFineBut :: "objectKey set \<Rightarrow> cluster \<Rightarrow> bool" where
  "farmFineBut K c \<longleftrightarrow> distinct (keysOf (clDevices c)) \<and> leasesFine K (clDevices c) (clLeases c) \<and> poolsFine (clPools c) (clDevices c) \<and>
     refsFine (clDevices c) (clLeases c)"

abbreviation farmFine :: "cluster \<Rightarrow> bool" where "farmFine \<equiv> farmFineBut {}"

subsection \<open>What the invariant reads of the objects\<close>

definition devView :: "Device \<Rightarrow> objectKey \<times> string \<times> (string \<rightharpoonup> string) \<times> bool" where
  "devView d = (keyOf (devMeta d), devLeaseRef d, mLabels (devMeta d), devTerminating d)"

definition poolView :: "DevicePool \<Rightarrow> objectKey \<times> int32" where
  "poolView p = (keyOf (poolMeta p), dpsMaxConcurrent (poolSpec p))"

definition leaseView :: "DeviceLease \<Rightarrow> objectKey \<times> bool \<times> bool \<times> LeasePhase \<times> string" where
  "leaseView l = (keyOf (leaseMeta l), leaseFinalizer \<in> set (mFinalizers (leaseMeta l)), leaseTerminating l, leasePhase l, ltDeviceRef (leaseStatus l))"

lemma keysOf_view: "map devView ds' = map devView ds \<Longrightarrow> keysOf ds' = keysOf ds"
proof -
  assume same: "map devView ds' = map devView ds"
  have views: "keysOf ds = map fst (map devView ds)" for ds by (simp add: keysOf_def devView_def)
  show ?thesis unfolding views same ..
qed

lemma hasItsDevice_view: "map devView ds' = map devView ds \<Longrightarrow> hasItsDevice ds' l = hasItsDevice ds l"
proof -
  assume same: "map devView ds' = map devView ds"
  have views: "hasItsDevice ds l \<longleftrightarrow> (\<exists>v \<in> set (map devView ds). fst v = (leaseNamespace l, ltDeviceRef (leaseStatus l)) \<and> fst (snd v) = leaseName l)" for ds
    by (auto simp: hasItsDevice_def devView_def)
  show ?thesis unfolding views same ..
qed

lemma sizeOf_view: "map devView ds' = map devView ds \<Longrightarrow> sizeOf ds' p = sizeOf ds p"
proof -
  assume same: "map devView ds' = map devView ds"
  have views: "sizeOf ds p = int (length (filter (\<lambda>(key, ref, labels, term). fst key = mNamespace (poolMeta p) \<and>
      labels LabelPool = Some (mName (poolMeta p)) \<and> \<not> term) (map devView ds)))" for ds
    by (simp add: sizeOf_def filter_map comp_def memberOf_def [abs_def] devView_def keyOf_def)
  show ?thesis unfolding views same ..
qed

lemma poolsFine_view: "map devView ds' = map devView ds \<Longrightarrow> map poolView ps' = map poolView ps \<Longrightarrow> poolsFine ps' ds' = poolsFine ps ds"
proof -
  assume d: "map devView ds' = map devView ds" and p: "map poolView ps' = map poolView ps"
  have "poolsFine ps ds \<longleftrightarrow> distinct (map fst (map poolView ps)) \<and>
      list_all (\<lambda>v. int (length (filter (\<lambda>d. devNamespace d = fst (fst v) \<and> mLabels (devMeta d) LabelPool = Some (snd (fst v)) \<and> \<not> devTerminating d) ds)) \<le> sint (snd v))
        (map poolView ps)" for ps ds
    by (simp add: poolsFine_def list_all_iff poolView_def sizeOf_def memberOf_def [abs_def] keyOf_def comp_def)
  from this [of ps' ds'] this [of ps ds'] have "poolsFine ps' ds' = poolsFine ps ds'" unfolding p by (rule trans [OF _ sym])
  also have "\<dots> = poolsFine ps ds" by (simp add: poolsFine_def sizeOf_view [OF d])
  finally show ?thesis .
qed

lemma leasesFine_view:
  assumes "map devView ds' = map devView ds" and ls: "map leaseView ls' = map leaseView ls"
  shows "leasesFine K ds' ls' = leasesFine K ds ls"
proof -
  have dev: "hasItsDevice ds' l = hasItsDevice ds l" for l by (rule hasItsDevice_view [OF assms(1)])
  let ?of = "\<lambda>key ref. \<exists>d \<in> set ds. keyOf (devMeta d) = (fst key, ref) \<and> devLeaseRef d = snd key"
  have views: "leasesFine K ds ls \<longleftrightarrow> distinct (map fst (map leaseView ls)) \<and>
      list_all (\<lambda>(key, fin, term, ph, ref). snd key \<noteq> [] \<and> (ph = LeaseBound \<and> \<not> term \<longrightarrow> fin)) (map leaseView ls) \<and>
      list_all (\<lambda>(key, fin, term, ph, ref). ph = LeaseBound \<and> fin \<and> key \<notin> K \<longrightarrow> ?of key ref) (map leaseView ls)" for ls
    by (simp add: leasesFine_def leaseView_def comp_def list.pred_map list_all_iff leaseFine_def held_def hasItsDevice_def keyOf_def)
  have "leasesFine K ds' ls' = leasesFine K ds ls'" by (simp add: leasesFine_def dev)
  then show ?thesis unfolding views ls .
qed

lemma refsFine_view:
  assumes ds: "map devView ds' = map devView ds" and ls: "map leaseView ls' = map leaseView ls"
  shows "refsFine ds' ls' = refsFine ds ls"
proof -
  have 1: "refsOf ds = map (\<lambda>v. (fst (fst v), fst (snd v))) (filter (\<lambda>v. fst (snd v) \<noteq> []) (map devView ds))" for ds
    by (simp add: refsOf_def filter_map comp_def devView_def keyOf_def)
  have 2: "finalized ls = map fst (filter (\<lambda>v. fst (snd v)) (map leaseView ls))" for ls
    by (simp add: finalized_def filter_map comp_def leaseView_def)
  show ?thesis unfolding refsFine_def 1 2 ds ls ..
qed

lemma farmFine_view:
  assumes "map devView (clDevices c') = map devView (clDevices c)" and "map poolView (clPools c') = map poolView (clPools c)"
    and "map leaseView (clLeases c') = map leaseView (clLeases c)"
  shows "farmFineBut K c' = farmFineBut K c"
  by (simp add: farmFineBut_def leasesFine_view [OF assms(1,3)] keysOf_view [OF assms(1)] poolsFine_view [OF assms(1,2)] refsFine_view [OF assms(1,3)])

subsection \<open>A run of the device controller\<close>

definition sameViews :: "cluster \<Rightarrow> cluster \<Rightarrow> bool" where
  "sameViews c0 c \<longleftrightarrow> map devView (clDevices c) = map devView (clDevices c0) \<and> map poolView (clPools c) = map poolView (clPools c0) \<and>
     clLeases c = clLeases c0 \<and> distinct (keysOf (clDevices c))"

definition viewed :: "cluster \<Rightarrow> Device \<Rightarrow> bool" where
  \<comment> \<open>as far as the invariant reads it, a device of the cluster, not deleted\<close>
  "viewed c d \<longleftrightarrow> devView d \<in> set (map devView (clDevices c)) \<and> \<not> devTerminating d"

lemma view_unique:
  assumes "distinct (keysOf ds)" and "old \<in> set ds" and "devView x \<in> set (map devView ds)" and "keyOf (devMeta old) = keyOf (devMeta x)"
  shows "devView old = devView x"
proof -
  obtain d where d: "d \<in> set ds" "devView d = devView x" using assms(3) by auto
  then have "keyOf (devMeta d) = keyOf (devMeta old)" using assms(4) by (simp add: devView_def)
  then have "d = old" using assms(1,2) d(1) by (auto simp: keysOf_def distinct_map inj_on_def)
  with d show ?thesis by simp
qed

lemma putObj_view:
  assumes "distinct (keysOf ds)" and "old \<in> set ds" and "devView y = devView old"
  shows "map devView (putObj devMeta y ds) = map devView ds"
proof -
  have "devView y = devView d" if "d \<in> set ds" "keyOf (devMeta d) = keyOf (devMeta y)" for d
    using view_unique [OF assms(1) that(1), of y] that(2) assms(2,3) by auto
  then show ?thesis by (auto simp: putObj_def hasKey_keyOf) (auto simp: keyOf_def)
qed

lemma writeDevice_views:
  assumes "viewed c0 x" and "sameViews c0 c"
    and m: "m = onDevices (\<lambda>v. writeObj devMeta mapDevMeta mrg v x)"
    and mrg: "\<And>old v. devView old = devView x \<Longrightarrow> devView (mapDevMeta (\<lambda>m. m\<lparr>mResourceVersion := v\<rparr>) (mrg old x)) = devView old"
    and run: "run_state m c = (r, c')"
  shows "sameViews c0 c' \<and> okThat (viewed c0) r"
proof (cases "getObj devMeta (keyOf (devMeta x)) (clDevices c)")
  case (Inl e)
  then show ?thesis using run assms(2) m by (auto simp: onDevices_def run_writes writeObj_def keyOf_def okThat_iff)
next
  case (Inr old)
  have old: "old \<in> set (clDevices c)" "keyOf (devMeta old) = keyOf (devMeta x)" using getObj_key [OF Inr] by auto
  have v: "map devView (clDevices c) = map devView (clDevices c0)" "distinct (keysOf (clDevices c))"
    using assms(2) by (simp_all add: sameViews_def)
  have same: "devView old = devView x"
    by (rule view_unique [OF v(2) old(1) _ old(2)], unfold v(1)) (use assms(1) in \<open>simp add: viewed_def\<close>)
  let ?y = "mapDevMeta (\<lambda>m. m\<lparr>mResourceVersion := Suc (clVersion c)\<rparr>) (mrg old x)"
  have y: "devView ?y = devView old" by (rule mrg [OF same])
  have live: "\<not> devTerminating ?y" "\<not> devTerminating old" using y same assms(1) by (auto simp: viewed_def devView_def)
  show ?thesis
  proof (cases "mResourceVersion (devMeta x) = mResourceVersion (devMeta old)")
    case True
    then have *: "r = Inr ?y" "clDevices c' = putObj devMeta ?y (clDevices c)" "clPools c' = clPools c" "clLeases c' = clLeases c"
      using run m writeObj_accepted [OF Inr True] live by (auto simp: onDevices_def run_writes Let_def)
    have "map devView (clDevices c') = map devView (clDevices c)"
      using putObj_view [OF _ old(1) y] assms(2) by (simp add: *(2) sameViews_def)
    with *(3,4) assms(2) keysOf_view [OF this] have "sameViews c0 c'" by (simp add: sameViews_def)
    moreover have "viewed c0 ?y" using y same live assms(1) by (simp add: viewed_def)
    ultimately show ?thesis using *(1) by simp
  next
    case False
    then show ?thesis using run assms(2) m Inr by (auto simp: onDevices_def run_writes writeObj_def keyOf_def okThat_iff)
  qed
qed

lemma upholds_deviceWrites:
  "viewed c0 x \<Longrightarrow> upholds id (sameViews c0) (okThat (viewed c0)) (apiUpdateDevice mem x)"
  "viewed c0 x \<Longrightarrow> upholds id (sameViews c0) (okThat (viewed c0)) (apiUpdateDeviceStatus mem x)"
proof -
  have 1: "apiUpdateDevice mem x = onDevices (\<lambda>v. writeObj devMeta mapDevMeta mergeDevice v x)"
    and 2: "apiUpdateDeviceStatus mem x = onDevices (\<lambda>v. writeObj devMeta mapDevMeta mergeDeviceStatus v x)" by (simp_all add: mem_def)
  show "viewed c0 x \<Longrightarrow> upholds id (sameViews c0) (okThat (viewed c0)) (apiUpdateDevice mem x)"
    by (rule upholdsI, simp only: id_apply, rule writeDevice_views [OF _ _ 1])
      (auto simp: devView_def mapDevMeta_def mergeDevice_def mergeMeta_def keyOf_def)
  show "viewed c0 x \<Longrightarrow> upholds id (sameViews c0) (okThat (viewed c0)) (apiUpdateDeviceStatus mem x)"
    by (rule upholdsI, simp only: id_apply, rule writeDevice_views [OF _ _ 2])
      (auto simp: devView_def mapDevMeta_def mergeDeviceStatus_def storedDevStatus_def keyOf_def)
qed

lemma viewed_stored: "sameViews c0 c \<Longrightarrow> d \<in> set (clDevices c) \<Longrightarrow> \<not> devTerminating d \<Longrightarrow> viewed c0 d"
proof -
  assume "sameViews c0 c" and d: "d \<in> set (clDevices c)" "\<not> devTerminating d"
  then have v: "map devView (clDevices c0) = map devView (clDevices c)" by (simp add: sameViews_def)
  show ?thesis unfolding viewed_def v using d by simp
qed

lemma upholds_getDevice: "upholds id (sameViews c0) (okThat (\<lambda>d. \<not> devTerminating d \<longrightarrow> viewed c0 d)) (apiGetDevice mem key)"
  by (rule upholdsI) (auto simp: mem_def reads_def okThat_iff intro: viewed_stored dest!: getObj_key)

lemma upholds_others:
  "upholds id (sameViews c0) (okThat (\<lambda>_. True)) (apiGetDeviceClass mem n)"
  "upholds id (sameViews c0) (okThat (\<lambda>_. True)) (apiGetDevicePool mem key)"
  "upholds id (sameViews c0) (okThat (\<lambda>_. True)) (apiGetPod mem key)"
  "upholds id (sameViews c0) (okThat (\<lambda>_. True)) (apiGetService mem key)"
  "upholds id (sameViews c0) (okThat (\<lambda>_. True)) (apiGetJob mem key)"
  "upholds id (sameViews c0) (okThat (\<lambda>_. True)) (apiCreatePod mem p)"
  "upholds id (sameViews c0) (okThat (\<lambda>_. True)) (apiCreateService mem s)"
  "upholds id (sameViews c0) (okThat (\<lambda>_. True)) (apiUpdateService mem s)"
  "upholds id (sameViews c0) (okThat (\<lambda>_. True)) (apiCreateJob mem j)"
  "upholds id (sameViews c0) (okThat (\<lambda>_. True)) (apiDeletePod mem key)"
  by (rule upholdsI, auto simp: mem_def reads_def withTime_def onPods_def onServices_def onJobs_def run_writes okThat_iff sameViews_def
      split: prod.splits sum.splits)+

lemma viewed_edit: "viewed c0 (setAnnotations a d) = viewed c0 d" "viewed c0 (phased d ph adb cs) = viewed c0 d"
  by (simp_all add: viewed_def devView_def setAnnotations_def phased_def keyOf_def)

context unreliable
begin

lemma upholds_client:
  "upholds cl (sameViews c0) (\<lambda>_. True) (clockNow k)"
  "upholds cl (sameViews c0) (\<lambda>_. True) (setStatusCondition k cs cond)"
  unfolding upholds_def by (simp_all add: hoare_clock hoare_conditions)

lemmas upholds_get = calls(1) [THEN upholds_answers, OF upholds_getDevice]

lemmas upholds_writes = calls(16) [THEN upholds_answers, OF upholds_deviceWrites(1)] calls(19) [THEN upholds_answers, OF upholds_deviceWrites(2)]

lemmas upholds_calls =
  calls(2) [THEN upholds_answers, OF upholds_others(1)] calls(3) [THEN upholds_answers, OF upholds_others(2)]
  calls(5) [THEN upholds_answers, OF upholds_others(3)] calls(6) [THEN upholds_answers, OF upholds_others(4)]
  calls(7) [THEN upholds_answers, OF upholds_others(5)] calls(13) [THEN upholds_answers, OF upholds_others(6)]
  calls(14) [THEN upholds_answers, OF upholds_others(7)] calls(18) [THEN upholds_answers, OF upholds_others(8)]
  calls(15) [THEN upholds_answers, OF upholds_others(9)] calls(24) [THEN upholds_answers, OF upholds_others(10)]

lemmas device_calls = upholds_client upholds_calls upholds_writes

lemmas device_rules = upholding device_calls [THEN upholds_bind] device_calls [THEN upholds_weaken]
  upholds_calls [THEN upholds_tryE] upholds_writes [THEN upholds_tryE]

lemma upholds_setPhase: "viewed c0 d \<Longrightarrow> upholds cl (sameViews c0) (okThat (\<lambda>_. True)) (setPhase k d ph adb reason msg)"
  unfolding setPhase_phased by (auto intro!: device_rules simp: viewed_edit)

lemma upholds_markHealthy: "viewed c0 d \<Longrightarrow> upholds cl (sameViews c0) (okThat (viewed c0)) (markHealthy k d)"
  unfolding markHealthy_def Let_def by (auto intro!: device_rules simp: viewed_edit)

lemma upholds_recoverFailed: "viewed c0 d \<Longrightarrow> upholds cl (sameViews c0) (okThat (\<lambda>r. viewed c0 (snd r))) (recoverFailed k d mp)"
  unfolding recoverFailed_def Let_def by (auto intro!: device_rules simp: viewed_edit)

lemma upholds_ensure:
  "upholds cl (sameViews c0) (okThat (\<lambda>_. True)) (ensureRegistration k d adb)"
  "upholds cl (sameViews c0) (okThat (\<lambda>_. True)) (ensureService k d)"
  "upholds cl (sameViews c0) (okThat (\<lambda>_. True)) (ensurePod k d dc)"
  unfolding ensureRegistration_def ensureService_def ensurePod_def Let_def by (auto intro!: device_rules)

lemmas device_parts = device_rules upholds_setPhase upholds_setPhase [THEN upholds_tryE] upholds_markHealthy [THEN upholds_tryE]
  upholds_recoverFailed [THEN upholds_tryE] upholds_ensure [THEN upholds_tryE]

lemma upholds_deviceReconcile: "upholds cl (sameViews c0) (okThat (\<lambda>_. True)) (deviceReconcile k key)"
  unfolding deviceReconcile_def reconcilePhysical_def reconcileEmulator_def Let_def
  by (auto intro!: device_parts upholds_get [THEN upholds_bind] split: DevicePhase.splits)

lemma device_run_fine: "farmFineBut K (cl w) \<Longrightarrow> farmFineBut K (cl (snd (run_state (deviceReconcile k key) w)))"
proof -
  let ?w = "snd (run_state (deviceReconcile k key) w)"
  assume fine: "farmFineBut K (cl w)"
  then have "sameViews (cl w) (cl w)" by (simp add: sameViews_def farmFineBut_def)
  with hoare_run [OF upholds_deviceReconcile [of "cl w" key, unfolded upholds_def]] have "sameViews (cl w) (cl ?w)" by blast
  with farmFine_view [of "cl ?w" "cl w" K] fine show ?thesis by (simp add: sameViews_def)
qed

end

subsection \<open>Replacing and dropping an object\<close>

lemma keys_put: "map (\<lambda>x. keyOf (mt x)) (putObj mt y xs) = map (\<lambda>x. keyOf (mt x)) xs"
  by (induction xs) (auto simp: putObj_def hasKey_def keyOf_def)

lemma distinct_drop: "distinct (map f xs) \<Longrightarrow> distinct (map f (dropObj mt key xs))"
  by (simp add: dropObj_def distinct_map_filter)

lemma in_put: "x \<in> set (putObj mt y xs) \<Longrightarrow> x = y \<or> x \<in> set xs \<and> keyOf (mt x) \<noteq> keyOf (mt y)"
  using set_putObj [of mt y xs] by auto

lemma other_in_put: "x \<in> set xs \<Longrightarrow> keyOf (mt x) \<noteq> keyOf (mt y) \<Longrightarrow> x \<in> set (putObj mt y xs)"
  by (auto simp: putObj_def hasKey_keyOf) (auto simp: keyOf_def)

lemma new_in_put: "old \<in> set xs \<Longrightarrow> keyOf (mt y) = keyOf (mt old) \<Longrightarrow> y \<in> set (putObj mt y xs)"
  by (auto simp: putObj_def hasKey_keyOf image_iff) (auto simp: keyOf_def)

lemma in_drop: "x \<in> set (dropObj mt key xs) \<longleftrightarrow> x \<in> set xs \<and> keyOf (mt x) \<noteq> key"
  by (simp add: dropObj_def hasKey_keyOf)

lemma same_key: "distinct (keysOf ds) \<Longrightarrow> d \<in> set ds \<Longrightarrow> d' \<in> set ds \<Longrightarrow> keyOf (devMeta d) = keyOf (devMeta d') \<Longrightarrow> d = d'"
  by (auto simp: keysOf_def distinct_map inj_on_def)

text \<open>Leases.\<close>

lemma leasesFine_put:
  assumes "leasesFine (insert (keyOf (leaseMeta l)) K) ds ls" and "l \<in> set ls" and "keyOf (leaseMeta z) = keyOf (leaseMeta l)"
    and "leaseFine z" and "held z \<Longrightarrow> keyOf (leaseMeta l) \<notin> K \<Longrightarrow> hasItsDevice ds z"
  shows "leasesFine K ds (putObj leaseMeta z ls)"
  using assms unfolding leasesFine_def keys_put by (auto simp: list_all_iff dest!: in_put)

lemma leasesFine_drop: "leasesFine (insert key K) ds ls \<Longrightarrow> leasesFine K ds (dropObj leaseMeta key ls)"
  by (auto simp: leasesFine_def distinct_drop list_all_iff in_drop)

lemma leasesFine_add:
  "leasesFine K ds ls \<Longrightarrow> keyOf (leaseMeta z) \<notin> (\<lambda>l. keyOf (leaseMeta l)) ` set ls \<Longrightarrow> leaseFine z \<Longrightarrow> \<not> held z \<Longrightarrow> leasesFine K ds (ls @ [z])"
  by (auto simp: leasesFine_def list_all_iff)

lemma leasesFine_devices:
  assumes "leasesFine K ds ls" and "\<And>l. l \<in> set ls \<Longrightarrow> leaseFine l \<Longrightarrow> keyOf (leaseMeta l) \<notin> K' \<Longrightarrow> hasItsDevice ds l \<Longrightarrow> hasItsDevice ds' l" and "K \<subseteq> K'"
  shows "leasesFine K' ds' ls"
  using assms by (auto simp: leasesFine_def list_all_iff)

text \<open>Devices: a lease loses its device only if it is this one.\<close>

lemma hasItsDevice_other:
  assumes "hasItsDevice ds l" and "distinct (keysOf ds)" and "old \<in> set ds" and "(devNamespace old, devLeaseRef old) \<noteq> keyOf (leaseMeta l)"
  shows "\<exists>d \<in> set ds. keyOf (devMeta d) \<noteq> keyOf (devMeta old) \<and> keyOf (devMeta d) = (leaseNamespace l, ltDeviceRef (leaseStatus l)) \<and> devLeaseRef d = leaseName l"
proof -
  obtain d where d: "d \<in> set ds" "keyOf (devMeta d) = (leaseNamespace l, ltDeviceRef (leaseStatus l))" "devLeaseRef d = leaseName l"
    using assms(1) by (auto simp: hasItsDevice_def)
  then have "keyOf (devMeta d) \<noteq> keyOf (devMeta old)" using same_key [OF assms(2) d(1) assms(3)] assms(4) by (auto simp: keyOf_def)
  with d show ?thesis by blast
qed

lemma hasItsDevice_put:
  "hasItsDevice ds l \<Longrightarrow> distinct (keysOf ds) \<Longrightarrow> old \<in> set ds \<Longrightarrow> (devNamespace old, devLeaseRef old) \<noteq> keyOf (leaseMeta l) \<Longrightarrow>
   keyOf (devMeta y) = keyOf (devMeta old) \<Longrightarrow> hasItsDevice (putObj devMeta y ds) l"
  by (drule (3) hasItsDevice_other) (metis hasItsDevice_def other_in_put)

lemma hasItsDevice_drop:
  "hasItsDevice ds l \<Longrightarrow> distinct (keysOf ds) \<Longrightarrow> old \<in> set ds \<Longrightarrow> (devNamespace old, devLeaseRef old) \<noteq> keyOf (leaseMeta l) \<Longrightarrow>
   hasItsDevice (dropObj devMeta (keyOf (devMeta old)) ds) l"
  by (drule (3) hasItsDevice_other) (auto simp: hasItsDevice_def in_drop)

lemma hasItsDevice_add: "hasItsDevice ds l \<Longrightarrow> hasItsDevice (ds @ [d]) l"
  by (auto simp: hasItsDevice_def)

text \<open>The size of a pool.\<close>

lemma put_split:
  assumes "distinct (keysOf ds)" and "old \<in> set ds" and "keyOf (devMeta y) = keyOf (devMeta old)"
  obtains a b where "ds = a @ old # b" and "putObj devMeta y ds = a @ y # b" and "dropObj devMeta (keyOf (devMeta old)) ds = a @ b"
proof -
  obtain a b where ds: "ds = a @ old # b" using assms(2) by (meson split_list)
  have other: "\<not> hasKey (keyOf (devMeta old)) (devMeta d)" if "d \<in> set a \<or> d \<in> set b" for d
    using that assms(1) by (auto simp: ds keysOf_def hasKey_keyOf) (metis imageI)+
  have key: "(devNamespace y, devName y) = keyOf (devMeta old)" using assms(3) by (simp add: keyOf_def)
  have "putObj devMeta y ds = a @ y # b"
    unfolding putObj_def key by (simp add: ds hasKey_keyOf) (use other in \<open>auto simp: hasKey_keyOf intro!: map_idI\<close>)
  moreover have "dropObj devMeta (keyOf (devMeta old)) ds = a @ b"
    unfolding dropObj_def by (simp add: ds hasKey_keyOf) (use other in \<open>auto simp: hasKey_keyOf filter_id_conv\<close>)
  ultimately show thesis using ds that by blast
qed

lemma sizeOf_put:
  assumes "distinct (keysOf ds)" and "old \<in> set ds" and "keyOf (devMeta y) = keyOf (devMeta old)"
  shows "sizeOf (putObj devMeta y ds) p = sizeOf ds p - of_bool (memberOf p old) + of_bool (memberOf p y)"
    and "sizeOf (dropObj devMeta (keyOf (devMeta old)) ds) p = sizeOf ds p - of_bool (memberOf p old)"
  by (rule put_split [OF assms]; simp add: sizeOf_def)+

lemma sizeOf_add: "sizeOf (ds @ [d]) p = sizeOf ds p + of_bool (memberOf p d)"
  by (simp add: sizeOf_def)

text \<open>The leases devices carry.\<close>

lemma refsOf_append [simp]: "refsOf (ds @ es) = refsOf ds @ refsOf es" "refsOf [] = []"
  "refsOf (d # ds) = (if devLeaseRef d = [] then refsOf ds else (devNamespace d, devLeaseRef d) # refsOf ds)"
  by (simp_all add: refsOf_def)

lemma refs_put:
  assumes "distinct (keysOf ds)" and "old \<in> set ds" and "keyOf (devMeta y) = keyOf (devMeta old)" and "refsFine ds ls"
    and "devLeaseRef y = [] \<or> devLeaseRef y = devLeaseRef old \<or> (devNamespace y, devLeaseRef y) \<in> set (finalized ls) - set (refsOf ds)"
  shows "refsFine (putObj devMeta y ds) ls"
  by (rule put_split [OF assms(1-3)]) (use assms(3-5) in \<open>auto simp: refsFine_def keyOf_def split: if_splits\<close>)

lemma refs_drop:
  assumes "distinct (keysOf ds)" and "old \<in> set ds" and "refsFine ds ls"
  shows "refsFine (dropObj devMeta (keyOf (devMeta old)) ds) ls"
  by (rule put_split [OF assms(1,2) refl]) (use assms(3) in \<open>auto simp: refsFine_def split: if_splits\<close>)

lemma refs_released:
  assumes "distinct (keysOf ds)" and "old \<in> set ds" and "keyOf (devMeta y) = keyOf (devMeta old)" and "refsFine ds ls"
    and "devLeaseRef old \<noteq> []" and "devLeaseRef y = []"
  shows "(devNamespace old, devLeaseRef old) \<notin> set (refsOf (putObj devMeta y ds))"
    and "(devNamespace old, devLeaseRef old) \<notin> set (refsOf (dropObj devMeta (keyOf (devMeta old)) ds))"
  by (rule put_split [OF assms(1-3)]; use assms(4-6) in \<open>auto simp: refsFine_def\<close>)+

lemma refs_add: "refsFine ds ls \<Longrightarrow> devLeaseRef d = [] \<Longrightarrow> refsFine (ds @ [d]) ls"
  by (simp add: refsFine_def)

lemma in_finalized: "key \<in> set (finalized ls) \<longleftrightarrow> (\<exists>l \<in> set ls. keyOf (leaseMeta l) = key \<and> leaseFinalizer \<in> set (mFinalizers (leaseMeta l)))"
  by (auto simp: finalized_def)

lemma finalized_put:
  assumes "l \<in> set ls" and "keyOf (leaseMeta z) = keyOf (leaseMeta l)" and "key \<in> set (finalized ls)"
    and "key \<noteq> keyOf (leaseMeta l) \<or> leaseFinalizer \<in> set (mFinalizers (leaseMeta z))"
  shows "key \<in> set (finalized (putObj leaseMeta z ls))"
  using assms new_in_put [of l ls leaseMeta z] other_in_put [of _ ls leaseMeta z] unfolding in_finalized by metis

lemma finalized_drop: "key \<in> set (finalized ls) \<Longrightarrow> key \<noteq> key' \<Longrightarrow> key \<in> set (finalized (dropObj leaseMeta key' ls))"
  by (auto simp: finalized_def in_drop)

lemma refs_leases:
  assumes "refsFine ds ls" and "l \<in> set ls" and "keyOf (leaseMeta z) = keyOf (leaseMeta l)"
  shows "leaseFinalizer \<in> set (mFinalizers (leaseMeta z)) \<or> keyOf (leaseMeta l) \<notin> set (refsOf ds) \<Longrightarrow> refsFine ds (putObj leaseMeta z ls)"
    and "keyOf (leaseMeta l) \<notin> set (refsOf ds) \<Longrightarrow> refsFine ds (dropObj leaseMeta (keyOf (leaseMeta l)) ls)"
proof -
  have refs: "distinct (refsOf ds)" "\<And>key. key \<in> set (refsOf ds) \<Longrightarrow> key \<in> set (finalized ls)" using assms(1) by (auto simp: refsFine_def)
  show "refsFine ds (putObj leaseMeta z ls)" if "leaseFinalizer \<in> set (mFinalizers (leaseMeta z)) \<or> keyOf (leaseMeta l) \<notin> set (refsOf ds)"
    unfolding refsFine_def using refs(1) finalized_put [OF assms(2,3) refs(2)] that by blast
  show "refsFine ds (dropObj leaseMeta (keyOf (leaseMeta l)) ls)" if out: "keyOf (leaseMeta l) \<notin> set (refsOf ds)"
  proof -
    have "key \<in> set (finalized (dropObj leaseMeta (keyOf (leaseMeta l)) ls))" if "key \<in> set (refsOf ds)" for key
      using finalized_drop [OF refs(2) [OF that]] that out by metis
    with refs(1) show ?thesis unfolding refsFine_def by blast
  qed
qed

lemma refs_lease_add: "refsFine ds ls \<Longrightarrow> refsFine ds (ls @ [z])"
  by (auto simp: refsFine_def finalized_def)

lemma unfinalized_unreferenced:
  assumes "refsFine ds ls" and "distinct (map (\<lambda>l. keyOf (leaseMeta l)) ls)" and "l \<in> set ls" and "leaseFinalizer \<notin> set (mFinalizers (leaseMeta l))"
  shows "keyOf (leaseMeta l) \<notin> set (refsOf ds)"
proof
  assume "keyOf (leaseMeta l) \<in> set (refsOf ds)"
  then obtain l' where "l' \<in> set ls" "keyOf (leaseMeta l') = keyOf (leaseMeta l)" "leaseFinalizer \<in> set (mFinalizers (leaseMeta l'))"
    using assms(1) by (auto simp: refsFine_def finalized_def)
  moreover from this(1,2) have "l' = l" using assms(2,3) by (auto simp: distinct_map inj_on_def)
  ultimately show False using assms(4) by simp
qed

end
