(* ===== verification/Farm_Leases.thy ===== *)
theory Farm_Leases
  imports Farm_Invariant
begin

text \<open>
  Runs of the lease controller keep the farm's invariant, whichever of their calls fail: every call that writes,
  on the reference server, then the handlers that make them, on any unreliable one, as triples over the stored
  lease. A run that ends with an error may leave its lease without its device, so its lease joins the set \<open>K\<close> of
  those the invariant makes an exception of.
\<close>

subsection \<open>The calls of a lease run\<close>

definition leaseState :: "objectKey set \<Rightarrow> DeviceLease \<Rightarrow> cluster \<Rightarrow> bool" where
  \<comment> \<open>the run's lease is the stored one\<close>
  "leaseState K l c \<longleftrightarrow> farmFineBut K c \<and> getObj leaseMeta (keyOf (leaseMeta l)) (clLeases c) = Inr l"

definition holdsIt :: "cluster \<Rightarrow> DeviceLease \<Rightarrow> Device \<Rightarrow> bool" where
  "holdsIt c l d \<longleftrightarrow> d \<in> set (clDevices c) \<and> devNamespace d = leaseNamespace l \<and> devLeaseRef d = leaseName l"

definition freeFor :: "cluster \<Rightarrow> DeviceLease \<Rightarrow> Device \<Rightarrow> bool" where
  "freeFor c l d \<longleftrightarrow> d \<in> set (clDevices c) \<and> devNamespace d = leaseNamespace l \<and> freeAndReady d"

definition unreferenced :: "DeviceLease \<Rightarrow> cluster \<Rightarrow> bool" where
  \<comment> \<open>no device carries the lease\<close>
  "unreferenced l c \<longleftrightarrow> keyOf (leaseMeta l) \<notin> set (refsOf (clDevices c))"

lemma leaseState_fine: "leaseState K l c \<Longrightarrow> leaseName l \<noteq> []"
  by (auto simp: leaseState_def farmFineBut_def leasesFine_def list_all_iff leaseFine_def dest!: getObj_key)

lemma run_deviceStatus:
  assumes "distinct (keysOf (clDevices c))" and "d \<in> set (clDevices c)" and "devMeta x = devMeta d"
  shows "\<exists>y. run_state (apiUpdateDeviceStatus mem x) c = (Inr y,
      c\<lparr>clDevices := (if devTerminating d \<and> mFinalizers (devMeta d) = [] then dropObj devMeta (keyOf (devMeta d)) (clDevices c)
         else putObj devMeta y (clDevices c)), clVersion := Suc (clVersion c)\<rparr>) \<and>
    keyOf (devMeta y) = keyOf (devMeta d) \<and> devLeaseRef y = devLeaseRef x \<and> mLabels (devMeta y) = mLabels (devMeta d) \<and>
    devTerminating y = devTerminating d"
proof -
  let ?y = "mapDevMeta (\<lambda>m. m\<lparr>mResourceVersion := Suc (clVersion c)\<rparr>) (mergeDeviceStatus d x)"
  have "getObj devMeta (keyOf (devMeta x)) (clDevices c) = Inr d"
    using getObj_distinct [of devMeta "clDevices c" d] assms by (simp add: keysOf_def)
  from writeObj_accepted [OF this] assms(3)
  have "run_state (apiUpdateDeviceStatus mem x) c = (Inr ?y,
      c\<lparr>clDevices := (if devTerminating d \<and> mFinalizers (devMeta d) = [] then dropObj devMeta (keyOf (devMeta d)) (clDevices c)
         else putObj devMeta ?y (clDevices c)), clVersion := Suc (clVersion c)\<rparr>)"
    by (simp add: mem_def onDevices_def run_writes Let_def mapDevMeta_def mergeDeviceStatus_def)
  then show ?thesis
    by (intro exI [of _ ?y]) (simp add: mapDevMeta_def mergeDeviceStatus_def storedDevStatus_def keyOf_def)
qed

lemma claim_mem:
  assumes fin: "leaseFinalizer \<in> set (mFinalizers (leaseMeta l))"
  shows "hoare id (\<lambda>c. leaseState K l c \<and> unreferenced l c \<and> freeFor c l d) (apiUpdateDeviceStatus mem (boundDevice l used d))
     (\<lambda>r c. leaseState K l c \<and> (\<forall>y. r = Inr y \<longrightarrow> holdsIt c l y))"
proof (rule hoareI, elim conjE, unfold id_apply)
  fix c r c' assume st: "leaseState K l c" and un: "unreferenced l c" and free: "freeFor c l d"
    and run: "run_state (apiUpdateDeviceStatus mem (boundDevice l used d)) c = (r, c')"
  have d: "d \<in> set (clDevices c)" "distinct (keysOf (clDevices c))" "\<not> devTerminating d" "devLeaseRef d = []" "devNamespace d = leaseNamespace l"
    using st free by (simp_all add: leaseState_def farmFineBut_def freeFor_def freeAndReady_def)
  obtain y where y: "r = Inr y" "c' = c\<lparr>clDevices := putObj devMeta y (clDevices c), clVersion := Suc (clVersion c)\<rparr>"
    "keyOf (devMeta y) = keyOf (devMeta d)" "devLeaseRef y = leaseName l" "mLabels (devMeta y) = mLabels (devMeta d)" "\<not> devTerminating y"
    using run_deviceStatus [OF d(2,1), of "boundDevice l used d"] run d(3) by (auto simp: boundDevice_def)
  have "leasesFine K (clDevices c') (clLeases c')"
    using st y(2) d by (auto simp: leaseState_def farmFineBut_def leaseFine_def keyOf_def
        intro!: leasesFine_devices [of K "clDevices c"] hasItsDevice_put [OF _ d(2,1) _ y(3)])
  moreover have "poolsFine (clPools c') (clDevices c')"
  proof -
    have "memberOf p y = memberOf p d" for p using y(3,5,6) d(3) by (simp add: memberOf_def keyOf_def)
    then show ?thesis using st y(2) by (simp add: leaseState_def farmFineBut_def poolsFine_def sizeOf_put [OF d(2,1) y(3)])
  qed
  moreover have "refsFine (putObj devMeta y (clDevices c)) (clLeases c)"
  proof (rule refs_put [OF d(2,1) y(3)])
    have key: "(devNamespace y, devLeaseRef y) = keyOf (leaseMeta l)" using y(3,4) d(5) by (simp add: keyOf_def)
    have "keyOf (leaseMeta l) \<in> set (finalized (clLeases c))" unfolding in_finalized
      using st fin getObj_key [of leaseMeta "keyOf (leaseMeta l)" "clLeases c" l] by (auto simp: leaseState_def)
    with un show "devLeaseRef y = [] \<or> devLeaseRef y = devLeaseRef d \<or> (devNamespace y, devLeaseRef y) \<in> set (finalized (clLeases c)) - set (refsOf (clDevices c))"
      unfolding key by (simp add: unreferenced_def)
  qed (use st in \<open>simp add: leaseState_def farmFineBut_def\<close>)
  moreover have "holdsIt c' l y" using y new_in_put [OF d(1) y(3)] d(5) by (simp add: holdsIt_def keyOf_def)
  ultimately show "leaseState K l c' \<and> (\<forall>y. r = Inr y \<longrightarrow> holdsIt c' l y)"
    using st y(1,2) by (simp add: leaseState_def farmFineBut_def keysOf_putObj)
qed

lemma release_mem:
  "hoare id (\<lambda>c. leaseState K l c \<and> holdsIt c l d) (apiUpdateDeviceStatus mem (releasedDevice now d))
     (\<lambda>r c. leaseState (insert (keyOf (leaseMeta l)) K) l c \<and> (\<forall>y. r = Inr y \<longrightarrow> unreferenced l c))"
proof (rule hoareI, elim conjE, unfold id_apply)
  fix c r c' assume st: "leaseState K l c" and own: "holdsIt c l d"
    and run: "run_state (apiUpdateDeviceStatus mem (releasedDevice now d)) c = (r, c')"
  have d: "d \<in> set (clDevices c)" "distinct (keysOf (clDevices c))" "(devNamespace d, devLeaseRef d) = keyOf (leaseMeta l)" "devLeaseRef d \<noteq> []"
    and refs: "refsFine (clDevices c) (clLeases c)"
    using st own leaseState_fine [OF st] by (simp_all add: leaseState_def farmFineBut_def holdsIt_def keyOf_def)
  obtain y where y: "r = Inr y" "c' = c\<lparr>clDevices := (if devTerminating d \<and> mFinalizers (devMeta d) = []
      then dropObj devMeta (keyOf (devMeta d)) (clDevices c) else putObj devMeta y (clDevices c)), clVersion := Suc (clVersion c)\<rparr>"
    "keyOf (devMeta y) = keyOf (devMeta d)" "mLabels (devMeta y) = mLabels (devMeta d)" "devTerminating y = devTerminating d" "devLeaseRef y = []"
    using run_deviceStatus [OF d(2,1), of "releasedDevice now d"] run by (auto simp: releasedDevice_def)
  have "leasesFine (insert (keyOf (leaseMeta l)) K) (clDevices c') (clLeases c')"
    using st y(2) by (auto simp: leaseState_def farmFineBut_def d(3)
        intro!: leasesFine_devices [of K "clDevices c"] hasItsDevice_put [OF _ d(2,1) _ y(3)] hasItsDevice_drop [OF _ d(2,1)])
  moreover have "poolsFine (clPools c') (clDevices c')"
  proof -
    have "memberOf p y = memberOf p d" for p using y(3-5) by (auto simp: memberOf_def keyOf_def)
    then show ?thesis using st y(2)
      by (auto simp: leaseState_def farmFineBut_def poolsFine_def list_all_iff sizeOf_put [OF d(2,1) y(3)] split: if_splits)
  qed
  moreover have "refsFine (clDevices c') (clLeases c')"
    using y(2,6) refs_put [OF d(2,1) y(3) refs] refs_drop [OF d(2,1) refs] by simp
  moreover have "unreferenced l c'"
    using y(2) refs_released [OF d(2,1) y(3) refs d(4) y(6)] by (simp add: unreferenced_def d(3))
  moreover have "distinct (keysOf (clDevices c'))"
    using d(2) y(2) by (simp add: keysOf_putObj) (simp add: keysOf_def distinct_drop)
  ultimately show "leaseState (insert (keyOf (leaseMeta l)) K) l c' \<and> (\<forall>y. r = Inr y \<longrightarrow> unreferenced l c')"
    using st y(1,2) by (simp add: leaseState_def farmFineBut_def)
qed

text \<open>Writing the lease.\<close>

lemma unfinalized: "leaseState K l c \<Longrightarrow> leaseFinalizer \<notin> set (mFinalizers (leaseMeta l)) \<Longrightarrow> unreferenced l c"
  using unfinalized_unreferenced [of "clDevices c" "clLeases c" l] getObj_key [of leaseMeta "keyOf (leaseMeta l)" "clLeases c" l]
  by (auto simp: leaseState_def farmFineBut_def leasesFine_def unreferenced_def)

lemma lease_write_fine:
  assumes st: "leaseState (insert (keyOf (leaseMeta l)) K) l c"
    and c': "c' = c\<lparr>clLeases := (if dropped then dropObj leaseMeta (keyOf (leaseMeta l)) (clLeases c)
      else putObj leaseMeta z (clLeases c)), clVersion := Suc (clVersion c)\<rparr>"
    and z: "keyOf (leaseMeta z) = keyOf (leaseMeta l)" "leaseFine z" "held z \<Longrightarrow> keyOf (leaseMeta l) \<notin> K \<Longrightarrow> hasItsDevice (clDevices c) z"
    and refs: "dropped \<or> leaseFinalizer \<notin> set (mFinalizers (leaseMeta z)) \<Longrightarrow> unreferenced l c"
  shows "farmFineBut K c'"
proof -
  have l: "l \<in> set (clLeases c)" using st getObj_key [of leaseMeta "keyOf (leaseMeta l)" "clLeases c" l] by (auto simp: leaseState_def)
  then have "refsFine (clDevices c) (clLeases c')"
    using st c' refs refs_leases [OF _ l z(1), of "clDevices c"] by (auto simp: leaseState_def farmFineBut_def unreferenced_def)
  then show ?thesis using st c' z l leasesFine_put [of l K "clDevices c" "clLeases c" z] leasesFine_drop [of "keyOf (leaseMeta l)" K "clDevices c" "clLeases c"]
    by (simp add: leaseState_def farmFineBut_def)
qed

lemma leaseState_farm: "leaseState K l c \<Longrightarrow> farmFineBut K c"
  by (simp add: leaseState_def)

lemma farmFineBut_mono: "farmFineBut K c \<Longrightarrow> K \<subseteq> K' \<Longrightarrow> farmFineBut K' c"
  by (auto simp: farmFineBut_def leasesFine_def)

lemma leaseState_mono: "leaseState K l c \<Longrightarrow> K \<subseteq> K' \<Longrightarrow> leaseState K' l c"
  by (auto simp: leaseState_def intro: farmFineBut_mono)

definition ends :: "objectKey set \<Rightarrow> DeviceLease \<Rightarrow> goError + 'a \<Rightarrow> cluster \<Rightarrow> bool" where
  \<comment> \<open>a run on the lease has ended: with an error, a Bound lease may have lost its device\<close>
  "ends K l r c \<longleftrightarrow> farmFineBut (case r of Inl _ \<Rightarrow> if leasePhase l = LeaseBound then insert (keyOf (leaseMeta l)) K else K | Inr _ \<Rightarrow> K) c"

lemma ends_result [simp]: "ends K l (Inr x) c = farmFineBut K c"
  by (simp add: ends_def)

lemma endsI: "farmFineBut K c \<Longrightarrow> ends K l r c"
  by (cases r) (auto simp: ends_def intro: farmFineBut_mono)

lemma ends_error: "ends K l r c \<Longrightarrow> ends K l (Inl e) c"
  by (cases r) (auto simp: ends_def intro: farmFineBut_mono)

lemma ends_raise: "ends K l (Inl e :: goError + 'a) c \<Longrightarrow> ends K l (Inl e' :: goError + 'b) c"
  by (simp add: ends_def)

lemma status_mem:
  assumes meta: "leaseMeta x = leaseMeta l" and bound: "leasePhase x = LeaseBound \<Longrightarrow> leaseFinalizer \<in> set (mFinalizers (leaseMeta l))"
  shows "hoare id (\<lambda>c. leaseState (insert (keyOf (leaseMeta l)) K) l c \<and> (leasePhase x = LeaseBound \<and> keyOf (leaseMeta l) \<notin> K \<longrightarrow> hasItsDevice (clDevices c) x))
    (apiUpdateDeviceLeaseStatus mem x) (ends K l)"
proof (rule hoareI, elim conjE, unfold id_apply)
  fix c r c' assume st: "leaseState (insert (keyOf (leaseMeta l)) K) l c"
    and dev: "leasePhase x = LeaseBound \<and> keyOf (leaseMeta l) \<notin> K \<longrightarrow> hasItsDevice (clDevices c) x"
    and run: "run_state (apiUpdateDeviceLeaseStatus mem x) c = (r, c')"
  let ?z = "mapLeaseMeta (\<lambda>m. m\<lparr>mResourceVersion := Suc (clVersion c)\<rparr>) (mergeLeaseStatus l x)"
  have "getObj leaseMeta (keyOf (leaseMeta x)) (clLeases c) = Inr l" using st meta by (simp add: leaseState_def)
  from writeObj_accepted [OF this] meta run
  have c': "c' = c\<lparr>clLeases := (if leaseTerminating ?z \<and> mFinalizers (leaseMeta ?z) = [] then dropObj leaseMeta (keyOf (leaseMeta l)) (clLeases c)
      else putObj leaseMeta ?z (clLeases c)), clVersion := Suc (clVersion c)\<rparr>"
    by (auto simp: mem_def onLeases_def run_writes Let_def)
  have z: "keyOf (leaseMeta ?z) = keyOf (leaseMeta l)" "leaseName ?z = leaseName l" "leaseNamespace ?z = leaseNamespace l"
    "mFinalizers (leaseMeta ?z) = mFinalizers (leaseMeta l)"
    "leasePhase ?z = leasePhase x" "ltDeviceRef (leaseStatus ?z) = ltDeviceRef (leaseStatus x)"
    by (simp_all add: mapLeaseMeta_def mergeLeaseStatus_def storedLeaseStatus_def keyOf_def)
  have ok: "leaseFine ?z" using z bound leaseState_fine [OF st] by (auto simp: leaseFine_def)
  have dv: "hasItsDevice (clDevices c) ?z" if "held ?z" "keyOf (leaseMeta l) \<notin> K"
    using that z dev meta by (auto simp: held_def hasItsDevice_def)
  have un: "unreferenced l c" if "(leaseTerminating ?z \<and> mFinalizers (leaseMeta ?z) = []) \<or> leaseFinalizer \<notin> set (mFinalizers (leaseMeta ?z))"
    using unfinalized [OF st] that z(4) by auto
  show "ends K l r c'" by (rule endsI, rule lease_write_fine [OF st c' z(1) ok dv un])
qed

lemma update_mem:
  assumes x: "x = setLeaseMeta m l" "mResourceVersion m = mResourceVersion (leaseMeta l)" "keyOf m = keyOf (leaseMeta l)"
    and ok: "leaseFinalizer \<in> set (mFinalizers m) \<and> leasePhase l \<noteq> LeaseBound \<or> leaseFinalizer \<notin> set (mFinalizers m) \<and> leaseTerminating l"
  shows "hoare id (\<lambda>c. leaseState (insert (keyOf (leaseMeta l)) K) l c \<and> (leaseFinalizer \<notin> set (mFinalizers m) \<longrightarrow> unreferenced l c))
    (apiUpdateDeviceLease mem x) (ends K l)"
proof (rule hoareI, elim conjE, unfold id_apply)
  fix c r c' assume st: "leaseState (insert (keyOf (leaseMeta l)) K) l c" and un: "leaseFinalizer \<notin> set (mFinalizers m) \<longrightarrow> unreferenced l c" and run: "run_state (apiUpdateDeviceLease mem x) c = (r, c')"
  let ?z = "mapLeaseMeta (\<lambda>m. m\<lparr>mResourceVersion := Suc (clVersion c)\<rparr>) (mergeLease l x)"
  have "getObj leaseMeta (keyOf (leaseMeta x)) (clLeases c) = Inr l" "mResourceVersion (leaseMeta x) = mResourceVersion (leaseMeta l)"
    using st x by (simp_all add: leaseState_def setLeaseMeta_def)
  moreover have "keyOf (leaseMeta x) = keyOf (leaseMeta l)" using x by (simp add: setLeaseMeta_def)
  moreover note writeObj_accepted [OF calculation(1,2)] run
  ultimately have c': "c' = c\<lparr>clLeases := (if leaseTerminating ?z \<and> mFinalizers (leaseMeta ?z) = [] then dropObj leaseMeta (keyOf (leaseMeta l)) (clLeases c)
      else putObj leaseMeta ?z (clLeases c)), clVersion := Suc (clVersion c)\<rparr>"
    by (auto simp: mem_def onLeases_def run_writes Let_def)
  have z: "keyOf (leaseMeta ?z) = keyOf (leaseMeta l)" "leaseName ?z = leaseName l" "mFinalizers (leaseMeta ?z) = mFinalizers m"
    "leasePhase ?z = leasePhase l" "leaseTerminating ?z = leaseTerminating l"
    using x by (simp_all add: mapLeaseMeta_def mergeLease_def mergeMeta_def setLeaseMeta_def keyOf_def)
  have fine: "leaseFine ?z" using z ok leaseState_fine [OF st] by (auto simp: leaseFine_def)
  have nh: "\<not> held ?z" using z ok by (auto simp: held_def)
  have away: "unreferenced l c" if "(leaseTerminating ?z \<and> mFinalizers (leaseMeta ?z) = []) \<or> leaseFinalizer \<notin> set (mFinalizers (leaseMeta ?z))"
    using un that z(3) by auto
  show "ends K l r c'" by (rule endsI, rule lease_write_fine [OF st c' z(1) fine _ away]) (use nh in blast)
qed

lemma deletePod_mem:
  "hoare id (\<lambda>c. leaseState K l c \<and> unreferenced l c) (apiDeletePod mem key) (\<lambda>_ c. leaseState K l c \<and> unreferenced l c)"
  by (rule hoareI) (auto simp: mem_def withTime_def onPods_def run_writes deleteObj_def getObj_def unreferenced_def leaseState_def farmFineBut_def
      split: option.splits prod.splits sum.splits if_splits)

subsection \<open>Binding, expiry, deletion\<close>

definition letGo :: "objectKey set \<Rightarrow> DeviceLease \<Rightarrow> cluster \<Rightarrow> bool" where
  \<comment> \<open>the run's lease no longer has a device\<close>
  "letGo K l c \<longleftrightarrow> leaseState (insert (keyOf (leaseMeta l)) K) l c \<and> unreferenced l c"

lemma leaseState_more: "leaseState K l c \<Longrightarrow> leaseState (insert key K) l c"
  by (erule leaseState_mono) blast

lemma leasesFine_unheld:
  assumes "leasesFine (insert key K) ds ls" and "\<And>l. l \<in> set ls \<Longrightarrow> keyOf (leaseMeta l) = key \<Longrightarrow> \<not> held l"
  shows "leasesFine K ds ls"
  using assms by (auto simp: leasesFine_def)

lemma leaseState_unheld:
  assumes st: "leaseState (insert (keyOf (leaseMeta l)) K) l c" and ph: "leasePhase l \<noteq> LeaseBound"
  shows "farmFineBut K c"
proof -
  have fine: "leasesFine (insert (keyOf (leaseMeta l)) K) (clDevices c) (clLeases c)" and get: "getObj leaseMeta (keyOf (leaseMeta l)) (clLeases c) = Inr l"
    using st by (simp_all add: leaseState_def farmFineBut_def)
  have dist: "distinct (map (\<lambda>l. keyOf (leaseMeta l)) (clLeases c))" using fine by (simp add: leasesFine_def)
  have "\<not> held l'" if l': "l' \<in> set (clLeases c)" "keyOf (leaseMeta l') = keyOf (leaseMeta l)" for l'
  proof -
    have "(Inr l' :: goError + _) = Inr l" using getObj_distinct [OF dist l'(1)] unfolding l'(2) get by (rule sym)
    then show ?thesis using ph by (simp add: held_def)
  qed
  from leasesFine_unheld [OF fine this] show ?thesis using st unfolding leaseState_def farmFineBut_def by blast
qed

lemma leaseState_ends: "leaseState K l c \<Longrightarrow> ends K l r c" "leaseState (insert (keyOf (leaseMeta l)) K) l c \<Longrightarrow> ends K l (Inl e) c"
  by (simp add: leaseState_def endsI) (use leaseState_unheld [of l K c] in \<open>auto simp: leaseState_def ends_def\<close>)

context unreliable
begin

lemmas clock_fine = hoare_clock

lemma claim_fine:
  assumes "leaseFinalizer \<in> set (mFinalizers (leaseMeta l))"
  shows "hoare cl (\<lambda>c. leaseState K l c \<and> unreferenced l c \<and> freeFor c l d) (apiUpdateDeviceStatus k (boundDevice l used d))
     (\<lambda>r c. leaseState K l c \<and> (\<forall>y. r = Inr y \<longrightarrow> holdsIt c l y))"
  by (rule hoare_answers [OF calls(19) claim_mem [OF assms]]) auto

lemma release_fine:
  "hoare cl (\<lambda>c. leaseState K l c \<and> holdsIt c l d) (apiUpdateDeviceStatus k (releasedDevice now d))
     (\<lambda>r c. leaseState (insert (keyOf (leaseMeta l)) K) l c \<and> (\<forall>y. r = Inr y \<longrightarrow> unreferenced l c))"
  by (rule hoare_answers [OF calls(19) release_mem]) (auto intro: leaseState_more)

lemma status_fine:
  assumes "leaseMeta x = leaseMeta l" and "leasePhase x = LeaseBound \<Longrightarrow> leaseFinalizer \<in> set (mFinalizers (leaseMeta l))"
  shows "hoare cl (\<lambda>c. leaseState (insert (keyOf (leaseMeta l)) K) l c \<and> (leasePhase x = LeaseBound \<and> keyOf (leaseMeta l) \<notin> K \<longrightarrow> hasItsDevice (clDevices c) x))
    (apiUpdateDeviceLeaseStatus k x) (ends K l)"
  by (rule hoare_answers [OF calls(20) status_mem [OF assms]]) (auto intro: leaseState_ends ends_error)

lemma writeStatus_fine:
  assumes "leaseMeta x = leaseMeta l" and "ph = LeaseBound \<Longrightarrow> leaseFinalizer \<in> set (mFinalizers (leaseMeta l))"
  shows "hoare cl (\<lambda>c. leaseState (insert (keyOf (leaseMeta l)) K) l c \<and> (ph = LeaseBound \<and> keyOf (leaseMeta l) \<notin> K \<longrightarrow> hasItsDevice (clDevices c) x))
    (writeStatus k x ph reason msg) (ends K l)"
proof -
  let ?P = "\<lambda>c. leaseState (insert (keyOf (leaseMeta l)) K) l c \<and> (ph = LeaseBound \<and> keyOf (leaseMeta l) \<notin> K \<longrightarrow> hasItsDevice (clDevices c) x)"
  have 2: "hoare cl ?P (apiUpdateDeviceLeaseStatus k (x\<lparr>leaseStatus := (leaseStatus x)\<lparr>ltPhase := ph, ltConditions := conds\<rparr>\<rparr>))
      (ends K l)" for conds
    by (rule hoare_pre [OF status_fine [where l = l]]) (use assms in \<open>auto simp: hasItsDevice_def\<close>)
  show ?thesis unfolding writeStatus_def Let_def
    by (rule hoare_bind [OF hoare_conditions]) (auto intro!: hoare_cases hoare_tryE [OF 2] hoare_ret intro: ends_raise)
qed

lemma update_fine:
  assumes "x = setLeaseMeta m l" "mResourceVersion m = mResourceVersion (leaseMeta l)" "keyOf m = keyOf (leaseMeta l)"
    and "leaseFinalizer \<in> set (mFinalizers m) \<and> leasePhase l \<noteq> LeaseBound \<or> leaseFinalizer \<notin> set (mFinalizers m) \<and> leaseTerminating l"
  shows "hoare cl (\<lambda>c. leaseState (insert (keyOf (leaseMeta l)) K) l c \<and> (leaseFinalizer \<notin> set (mFinalizers m) \<longrightarrow> unreferenced l c))
    (apiUpdateDeviceLease k x) (ends K l)"
  by (rule hoare_answers [OF calls(17) update_mem [OF assms]]) (auto intro: leaseState_ends ends_error)

lemma boundTo_fine:
  "hoare cl (leaseState K l) (deviceBoundTo k l) (\<lambda>r c. leaseState K l c \<and>
     (\<forall>o'. r = Inr o' \<longrightarrow> (case o' of None \<Rightarrow> unreferenced l c | Some d \<Rightarrow> holdsIt c l d)))"
proof -
  have "case find (\<lambda>d. devLeaseRef d = leaseName l) (filter (\<lambda>d. devNamespace d = leaseNamespace l) (clDevices c)) of
      None \<Rightarrow> unreferenced l c | Some d \<Rightarrow> holdsIt c l d" for c
    by (auto simp: unreferenced_def refsOf_def keyOf_def holdsIt_def find_None_iff split: option.split dest!: find_SomeD)
  then show ?thesis unfolding deviceBoundTo_def
    by (intro hoare_tryE [OF hoare_reads(5)] hoare_ret) (auto simp: matchesLabels_def)
qed

lemma freeReady_fine:
  "hoare cl P (freeReadyDevice k l) (\<lambda>r c. P c \<and> (\<forall>o'. r = Inr o' \<longrightarrow> (\<forall>d. o' = Some d \<longrightarrow> freeFor c l d)))"
  unfolding freeReadyDevice_def
  by (intro hoare_tryE [OF hoare_reads(5)] hoare_ret) (auto simp: freeFor_def dest!: find_SomeD)

lemma deletePod_fine: "hoare cl (letGo K l) (apiDeletePod k key) (\<lambda>_. letGo K l)"
  unfolding letGo_def by (rule hoare_answers [OF calls(24) deletePod_mem])

lemma releaseDevice_fine:
  "hoare cl (leaseState K l) (releaseDevice k l) (\<lambda>r c. leaseState (insert (keyOf (leaseMeta l)) K) l c \<and> (\<forall>x. r = Inr x \<longrightarrow> letGo K l c))"
  unfolding releaseDevice_def
proof (rule hoare_tryE [OF boundTo_fine])
  fix o' :: "Device option"
  let ?Q = "\<lambda>r c. leaseState (insert (keyOf (leaseMeta l)) K) l c \<and> (\<forall>x. r = Inr x \<longrightarrow> letGo K l c)"
  show "hoare cl (\<lambda>c. leaseState K l c \<and> (\<forall>o''. Inr o' = (Inr o'' :: goError + _) \<longrightarrow> (case o'' of None \<Rightarrow> unreferenced l c | Some d \<Rightarrow> holdsIt c l d)))
    (case o' of None \<Rightarrow> ret (Inr ())
     | Some d \<Rightarrow> do {
         now \<leftarrow> clockNow k;
         tryE (apiUpdateDeviceStatus k (releasedDevice now d)) (\<lambda>d'. do {
           r \<leftarrow> apiDeletePod k (devNamespace d', emulatorPodName d');
           (case r of
              Inl ErrNotFound \<Rightarrow> ret (Inr ())
            | Inl e \<Rightarrow> ret (Inl e)
            | Inr _ \<Rightarrow> ret (Inr ()))
         })
       }) ?Q"
  proof (cases o')
    case None
    then show ?thesis by (auto intro!: hoare_ret leaseState_more simp: letGo_def)
  next
    case (Some d)
    have pod: "hoare cl (letGo K l) (case r of Inl ErrNotFound \<Rightarrow> ret (Inr ()) | Inl e \<Rightarrow> ret (Inl e) | Inr _ \<Rightarrow> ret (Inr ())) ?Q" for r :: "goError + unit"
      by (cases r) (auto intro!: hoare_error hoare_ret simp: letGo_def)
    show ?thesis unfolding Some option.case
      by (rule hoare_bind [OF clock_fine], rule hoare_tryE [OF hoare_pre [OF release_fine]], simp, simp,
          rule hoare_bind [OF hoare_pre [OF deletePod_fine]], simp add: letGo_def, rule pod)
  qed
qed (auto intro: leaseState_more)

lemma finalizers_keep:
  "mResourceVersion (removeFinalizer k m f) = mResourceVersion m" "keyOf (removeFinalizer k m f) = keyOf m" "f \<notin> set (mFinalizers (removeFinalizer k m f))"
  "mResourceVersion (addFinalizer k m f) = mResourceVersion m" "keyOf (addFinalizer k m f) = keyOf m" "f \<in> set (mFinalizers (addFinalizer k m f))"
  by (simp_all add: finalizer_list) (simp_all add: mem_def removeFinalizerFrom_def addFinalizerTo_def keyOf_def)

lemma containsFinalizer_set: "containsFinalizer k m f \<longleftrightarrow> f \<in> set (mFinalizers m)"
  by (simp add: finalizer_list) (simp add: mem_def)

lemma reconcileDeleted_fine:
  assumes "leaseTerminating l"
  shows "hoare cl (leaseState K l) (reconcileDeleted k l) (ends K l)"
proof -
  let ?m = "removeFinalizer k (leaseMeta l) leaseFinalizer"
  have drop: "hoare cl (letGo K l) (apiUpdateDeviceLease k (setLeaseMeta ?m l)) (ends K l)"
    by (rule hoare_pre [OF update_fine [OF refl finalizers_keep(1,2)]]) (use finalizers_keep(3) assms in \<open>auto simp: letGo_def\<close>)
  show ?thesis unfolding reconcileDeleted_def
    by (rule hoare_cases, rule hoare_tryE [OF releaseDevice_fine], simp add: leaseState_ends,
        rule hoare_tryE [OF hoare_pre [OF drop]]) (auto intro!: hoare_ret intro: leaseState_ends ends_raise)
qed

lemma writePending_fine:
  "leaseMeta x = leaseMeta l \<Longrightarrow> ph \<noteq> LeaseBound \<Longrightarrow> hoare cl (leaseState (insert (keyOf (leaseMeta l)) K) l) (writeStatus k x ph reason msg) (ends K l)"
  using hoare_pre [OF writeStatus_fine [of x l ph K reason msg]] by simp

lemma finishBinding_fine:
  assumes "leaseFinalizer \<in> set (mFinalizers (leaseMeta l))"
  shows "hoare cl (\<lambda>c. leaseState K l c \<and> holdsIt c l d) (finishBinding k l d) (ends K l)"
  unfolding finishBinding_def Let_def
proof (rule hoare_bind [OF clock_fine], rule hoare_tryE [OF hoare_pre [OF writeStatus_fine [where l = l and K = K]]])
  fix now
  show "leaseMeta (boundLease l now d) = leaseMeta l" by (simp add: boundLease_def Let_def)
  show "leaseFinalizer \<in> set (mFinalizers (leaseMeta l))" by fact
  fix c assume "leaseState K l c \<and> holdsIt c l d"
  then show "leaseState (insert (keyOf (leaseMeta l)) K) l c \<and> (LeaseBound = LeaseBound \<and> keyOf (leaseMeta l) \<notin> K \<longrightarrow> hasItsDevice (clDevices c) (boundLease l now d))"
    by (auto simp: hasItsDevice_def holdsIt_def boundLease_def Let_def keyOf_def intro: leaseState_more)
qed (auto intro!: hoare_bind [OF clock_fine] hoare_ret intro: ends_raise)

end


subsection \<open>Capacity\<close>

lemma memberOf_unique: "poolsFine ps ds \<Longrightarrow> p \<in> set ps \<Longrightarrow> p' \<in> set ps \<Longrightarrow> memberOf p d \<Longrightarrow> memberOf p' d \<Longrightarrow> p' = p"
  by (auto simp: poolsFine_def memberOf_def keyOf_def distinct_map inj_on_def)

definition roomIn :: "DevicePool \<Rightarrow> cluster \<Rightarrow> bool" where
  "roomIn p c \<longleftrightarrow> p \<in> set (clPools c) \<and> sizeOf (clDevices c) p < sint (dpsMaxConcurrent (poolSpec p))"

definition roomFor :: "objectKey set \<Rightarrow> DeviceLease list \<Rightarrow> DevicePool list \<Rightarrow> DevicePool \<Rightarrow> int \<Rightarrow> cluster \<Rightarrow> bool" where
  \<comment> \<open>as \<open>roomIn\<close>, with what creating a device for the pool leaves alone\<close>
  "roomFor K ls ps p n c \<longleftrightarrow> farmFineBut K c \<and> roomIn p c \<and> clLeases c = ls \<and> clPools c = ps \<and> sizeOf (clDevices c) p = n"

definition provisioned :: "objectKey set \<Rightarrow> DeviceLease list \<Rightarrow> DevicePool list \<Rightarrow> DevicePool \<Rightarrow> int \<Rightarrow> goError + 'a \<Rightarrow> cluster \<Rightarrow> bool" where
  "provisioned K ls ps p n r c \<longleftrightarrow> farmFineBut K c \<and> clLeases c = ls \<and> clPools c = ps \<and> (\<forall>y. r = Inr y \<longrightarrow> sizeOf (clDevices c) p = n + 1)"

lemma create_mem:
  assumes m: "mNamespace m = mNamespace (poolMeta p)" "mLabels m LabelPool = Some (mName (poolMeta p))"
  shows "hoare id (roomFor K ls ps p n) (apiCreateDevice mem (setDeviceMeta m (newPoolDevice p dc))) (provisioned K ls ps p n)"
proof (rule hoareI, unfold id_apply)
  fix c r c' assume "roomFor K ls ps p n c" and run: "run_state (apiCreateDevice mem (setDeviceMeta m (newPoolDevice p dc))) c = (r, c')"
  then have fine: "farmFineBut K c" and room: "roomIn p c" and rest: "clLeases c = ls" "clPools c = ps" "sizeOf (clDevices c) p = n"
    by (simp_all add: roomFor_def)
  let ?y = "mapDevMeta (createdMeta (clVersion c)) (freshDevice (setDeviceMeta m (newPoolDevice p dc)))"
  show "provisioned K ls ps p n r c'"
  proof (cases "find (\<lambda>z. hasKey (devNamespace ?y, devName ?y) (devMeta z)) (clDevices c) = None")
    case False
    then show ?thesis using run fine rest by (auto simp: mem_def onDevices_def run_writes createObj_def Let_def provisioned_def)
  next
    case True
    then have c': "c' = c\<lparr>clDevices := clDevices c @ [?y], clVersion := Suc (clVersion c)\<rparr>"
      using run by (auto simp: mem_def onDevices_def run_writes createObj_def Let_def)
    have fresh: "keyOf (devMeta ?y) \<notin> set (keysOf (clDevices c))"
      using True by (auto simp: find_None_iff hasKey_keyOf keysOf_def) (auto simp: keyOf_def)
    have y: "memberOf p ?y" using m
      by (simp add: memberOf_def mapDevMeta_def createdMeta_def freshDevice_def setDeviceMeta_def)
    have "sizeOf (clDevices c @ [?y]) q \<le> sint (dpsMaxConcurrent (poolSpec q))" if q: "q \<in> set (clPools c)" for q
    proof (cases "memberOf q ?y")
      case True
      then have "q = p" using memberOf_unique [of "clPools c" "clDevices c" p q ?y] fine room q y by (simp add: farmFineBut_def roomIn_def)
      with room True show ?thesis by (simp add: sizeOf_add roomIn_def)
    next
      case False
      with fine q show ?thesis by (simp add: farmFineBut_def poolsFine_def list_all_iff sizeOf_add)
    qed
    then have "poolsFine (clPools c) (clDevices c @ [?y])" using fine by (simp add: farmFineBut_def poolsFine_def list_all_iff)
    moreover have "leasesFine K (clDevices c @ [?y]) (clLeases c)"
      using fine by (auto simp: farmFineBut_def intro: leasesFine_devices hasItsDevice_add)
    moreover have "refsFine (clDevices c @ [?y]) (clLeases c)"
      using fine by (auto simp: farmFineBut_def mapDevMeta_def freshDevice_def emptyDeviceStatus_def intro: refs_add)
    ultimately show ?thesis using c' fresh fine y rest by (simp add: provisioned_def farmFineBut_def sizeOf_add) (simp add: keysOf_def)
  qed
qed

lemma delete_mem:
  "hoare id (\<lambda>c. leaseState K l c \<and> p \<in> set (clPools c) \<and> v \<in> set (clDevices c) \<and> memberOf p v \<and> devLeaseRef v = [])
     (apiDeleteDevice mem (devNamespace v, devName v)) (\<lambda>r c. r = Inr () \<and> leaseState K l c \<and> roomIn p c)"
proof (rule hoareI, elim conjE, unfold id_apply)
  fix c r c' assume st: "leaseState K l c" and p: "p \<in> set (clPools c)" and v: "v \<in> set (clDevices c)" "memberOf p v" "devLeaseRef v = []"
    and run: "run_state (apiDeleteDevice mem (devNamespace v, devName v)) c = (r, c')"
  have keys: "distinct (keysOf (clDevices c))" using st by (simp add: leaseState_def farmFineBut_def)
  have key: "(devNamespace v, devName v) = keyOf (devMeta v)" by (simp add: keyOf_def)
  have get: "getObj devMeta (keyOf (devMeta v)) (clDevices c) = Inr v"
    using getObj_distinct [of devMeta "clDevices c" v] keys v(1) by (simp add: keysOf_def)
  let ?y = "mapDevMeta (\<lambda>m. m\<lparr>mDeletionTimestamp := Some (truncSecond (clNow c)), mResourceVersion := Suc (clVersion c)\<rparr>) v"
  have y: "keyOf (devMeta ?y) = keyOf (devMeta v)" "\<not> memberOf q ?y" for q by (simp_all add: mapDevMeta_def keyOf_def memberOf_def)
  have live: "mDeletionTimestamp (devMeta v) = None" using v(2) by (simp add: memberOf_def)
  obtain ds where c': "r = Inr ()" "c' = c\<lparr>clDevices := ds, clVersion := Suc (clVersion c)\<rparr>"
    and ds: "ds = dropObj devMeta (keyOf (devMeta v)) (clDevices c) \<or> ds = putObj devMeta ?y (clDevices c)"
    using run get live unfolding key by (auto simp: mem_def withTime_def onDevices_def run_writes deleteObj_def split: if_splits)
  have size: "sizeOf ds q = sizeOf (clDevices c) q - of_bool (memberOf q v)" for q
    using ds sizeOf_put [OF keys v(1) y(1)] y(2) by auto
  have "leasesFine K ds (clLeases c)"
  proof (rule leasesFine_devices)
    show "leasesFine K (clDevices c) (clLeases c)" using st by (simp add: leaseState_def farmFineBut_def)
    fix l' assume "leaseFine l'" "hasItsDevice (clDevices c) l'"
    moreover from this(1) have "(devNamespace v, devLeaseRef v) \<noteq> keyOf (leaseMeta l')" using v(3) by (auto simp: leaseFine_def keyOf_def)
    ultimately show "hasItsDevice ds l'" using ds hasItsDevice_put [OF _ keys v(1) _ y(1)] hasItsDevice_drop [OF _ keys v(1)] by blast
  qed simp
  moreover have "poolsFine (clPools c) ds"
    using st by (auto simp: leaseState_def farmFineBut_def poolsFine_def list_all_iff size of_bool_def)
  moreover have "refsFine ds (clLeases c)"
    using st ds refs_put [OF keys v(1) y(1)] refs_drop [OF keys v(1)] by (auto simp: leaseState_def farmFineBut_def mapDevMeta_def)
  moreover have "distinct (keysOf ds)" using ds keys by (auto simp: keysOf_putObj) (simp add: keysOf_def distinct_drop)
  moreover have "sizeOf ds p < sint (dpsMaxConcurrent (poolSpec p))"
    using st p v(2) by (auto simp: leaseState_def farmFineBut_def poolsFine_def list_all_iff size)
  ultimately show "r = Inr () \<and> leaseState K l c' \<and> roomIn p c'"
    using st p c' by (simp add: leaseState_def farmFineBut_def roomIn_def)
qed

definition membersOf :: "DevicePool \<Rightarrow> cluster \<Rightarrow> Device list" where
  "membersOf p c = filter (\<lambda>d. devNamespace d = mNamespace (poolMeta p) \<and> matchesLabels [(LabelPool, mName (poolMeta p))] (devMeta d)) (clDevices c)"

lemma membersOf_member: "v \<in> set (membersOf p c) \<Longrightarrow> \<not> devTerminating v \<Longrightarrow> v \<in> set (clDevices c) \<and> memberOf p v"
  by (simp add: membersOf_def memberOf_def matchesLabels_def)

lemma membersOf_active: "int (length (activeDevices (membersOf p c))) = sizeOf (clDevices c) p"
  by (simp add: activeDevices_filter membersOf_def sizeOf_def memberOf_def [abs_def] matchesLabels_def conj_ac)

lemma belowMax_room:
  assumes "farmFineBut K c" and "p \<in> set (clPools c)" and "of_nat (length (activeDevices (membersOf p c))) <s dpsMaxConcurrent (poolSpec p)"
  shows "roomIn p c"
proof -
  have "sizeOf (clDevices c) p \<le> sint (dpsMaxConcurrent (poolSpec p))"
    using assms(1,2) by (simp add: farmFineBut_def poolsFine_def list_all_iff)
  then have "length (activeDevices (membersOf p c)) < 2 ^ 31"
    using membersOf_active [of p c] sint32_range [of "dpsMaxConcurrent (poolSpec p)"] by simp
  from sless_of_nat [OF this] show ?thesis using assms(2,3) by (simp add: roomIn_def membersOf_active)
qed

context unreliable
begin

lemma pool_owned:
  assumes "setControllerReference k kind owner (devMeta (newPoolDevice p dc)) = Inr m"
  shows "mNamespace m = mNamespace (poolMeta p)" "mLabels m LabelPool = Some (mName (poolMeta p))"
  using owner_only [OF assms] by (auto simp: newPoolDevice_def emptyMeta_def LabelPool_def LabelClass_def)

lemma provision_room: "hoare cl (roomFor K ls ps p n) (provision k p dc) (provisioned K ls ps p n)"
proof (cases "setControllerReference k ''DevicePool'' (poolMeta p) (devMeta (newPoolDevice p dc))")
  case (Inl e)
  then show ?thesis by (auto simp: provision_def Let_def tryE_def [of "ret _"] provisioned_def roomFor_def intro!: hoare_ret)
next
  case (Inr m)
  have "hoare cl (roomFor K ls ps p n) (apiCreateDevice k (setDeviceMeta m (newPoolDevice p dc))) (provisioned K ls ps p n)"
    by (rule hoare_answers [OF calls(11) create_mem [OF pool_owned [OF Inr]]]) (auto simp: roomFor_def provisioned_def)
  then have "hoare cl (roomFor K ls ps p n) (tryE (apiCreateDevice k (setDeviceMeta m (newPoolDevice p dc))) (\<lambda>_. ret (Inr ()))) (provisioned K ls ps p n)"
    by (rule hoare_tryE) (auto simp: provisioned_def intro!: hoare_ret)
  then show ?thesis by (simp add: provision_def Let_def Inr tryE_def [of "ret _"])
qed

lemma provision_fine: "hoare cl (\<lambda>c. leaseState K l c \<and> roomIn p c) (provision k p dc) (\<lambda>_. leaseState K l)"
proof (rule hoareI, elim conjE)
  fix w r w' assume st: "leaseState K l (cl w)" and room: "roomIn p (cl w)" and run: "run_state (provision k p dc) w = (r, w')"
  have "roomFor K (clLeases (cl w)) (clPools (cl w)) p (sizeOf (clDevices (cl w)) p) (cl w)"
    using st room by (simp add: roomFor_def leaseState_def)
  from hoareD [OF provision_room this run] st show "leaseState K l (cl w')" by (simp add: provisioned_def leaseState_def)
qed

lemma delete_fine:
  "hoare cl (\<lambda>c. leaseState K l c \<and> p \<in> set (clPools c) \<and> v \<in> set (clDevices c) \<and> memberOf p v \<and> devLeaseRef v = [])
     (apiDeleteDevice k (devNamespace v, devName v)) (\<lambda>r c. leaseState K l c \<and> (r = Inr () \<longrightarrow> roomIn p c) \<and> r \<noteq> Inl ErrNotFound)"
  by (rule hoare_answers [OF calls(23) hoare_conseq [OF delete_mem]]) auto

lemma pending_fine: "(\<And>c. P c \<Longrightarrow> leaseState K l c) \<Longrightarrow> hoare cl P (writeStatus k l LeasePending reason msg) (ends K l)"
  by (rule hoare_pre [OF writePending_fine]) (auto intro: leaseState_more)

lemma evictFor_fine:
  "hoare cl (\<lambda>c. leaseState K l c \<and> p \<in> set (clPools c) \<and> v \<in> set (clDevices c) \<and> memberOf p v \<and> devLeaseRef v = [])
     (evictFor k l p dc v) (ends K l)"
  unfolding evictFor_def
proof (rule hoare_bind [OF delete_fine])
  fix r :: "goError + unit"
  have "hoare cl (\<lambda>c. leaseState K l c \<and> roomIn p c)
      (tryE (provision k p dc) (\<lambda>_. writeStatus k l LeasePending reason msg)) (ends K l)" for reason msg
    by (rule hoare_tryE [OF provision_fine]) (simp_all add: leaseState_ends pending_fine)
  then show "hoare cl (\<lambda>c. leaseState K l c \<and> (r = Inr () \<longrightarrow> roomIn p c) \<and> r \<noteq> Inl ErrNotFound)
      (tryE (case r of Inl ErrNotFound \<Rightarrow> ret (Inr ()) | Inl e \<Rightarrow> ret (Inl e) | Inr _ \<Rightarrow> ret (Inr ())) (\<lambda>_.
         tryE (provision k p dc) (\<lambda>_. writeStatus k l LeasePending ''Evicted''
           (''evicted idle '' @ devClass v @ '' device; provisioning '' @ lsClassRef (leaseSpec l))))) (ends K l)"
  proof (cases r)
    case (Inl e)
    then show ?thesis by (cases e) (auto simp: tryE_def [of "ret _"] hoare_def leaseState_ends)
  qed (simp add: tryE_def [of "ret _"])
qed

lemma makeRoom_fine:
  "hoare cl (\<lambda>c. leaseState K l c \<and> p \<in> set (clPools c) \<and> ds = membersOf p c) (makeRoom k l p dc ds) (ends K l)"
proof -
  let ?P = "\<lambda>c. leaseState K l c \<and> p \<in> set (clPools c) \<and> ds = membersOf p c"
  have status: "hoare cl ?P (writeStatus k l LeasePending reason msg) (ends K l)" for reason msg
    by (rule pending_fine) simp
  have room: "hoare cl ?P (tryE (provision k p dc) (\<lambda>_. writeStatus k l LeasePending reason msg)) (ends K l)"
    if "of_nat (length (activeDevices ds)) <s dpsMaxConcurrent (poolSpec p)" for reason msg
    by (rule hoare_tryE [OF hoare_pre [OF provision_fine [of K l p]]]) (use that in \<open>auto simp: leaseState_ends leaseState_def intro: belowMax_room intro!: pending_fine\<close>)
  have evict: "hoare cl ?P (evictFor k l p dc v) (ends K l)" if "lruIdleOtherClass ds cls = Some v" for v cls
    by (rule hoare_pre [OF evictFor_fine]) (use lruIdleOtherClass_Some(1,2) [OF that] membersOf_member [of v p] in \<open>auto simp: evictable_def\<close>)
  show ?thesis unfolding makeRoom_def Let_def by (intro hoare_cases room status evict)
qed

lemma resolvePool_fine: "hoare cl (leaseState K l) (resolvePool k l) (\<lambda>r c. leaseState K l c \<and> (\<forall>p. r = Inr (Some p) \<longrightarrow> p \<in> set (clPools c)))"
  unfolding resolvePool_def
proof (rule hoare_cases(1))
  show "hoare cl (leaseState K l) (do { r \<leftarrow> apiGetDevicePool k (leaseNamespace l, lsPoolRef (leaseSpec l));
      ret (case r of Inl ErrNotFound \<Rightarrow> Inr None | Inl e \<Rightarrow> Inl e | Inr p \<Rightarrow> Inr (Some p)) })
    (\<lambda>r c. leaseState K l c \<and> (\<forall>p. r = Inr (Some p) \<longrightarrow> p \<in> set (clPools c)))"
    by (rule hoare_bind [OF hoare_reads(3)], rule hoare_ret) (auto dest!: getObj_key split: sum.splits goError.splits dest: sym)
  show "hoare cl (leaseState K l) (tryE (apiListDevicePools k (leaseNamespace l)) (\<lambda>ps. ret (Inr (find (offersClass (lsClassRef (leaseSpec l))) ps))))
    (\<lambda>r c. leaseState K l c \<and> (\<forall>p. r = Inr (Some p) \<longrightarrow> p \<in> set (clPools c)))"
    by (rule hoare_tryE [OF hoare_reads(7)]) (auto intro!: hoare_ret dest!: find_SomeD)
qed

lemma capacity_reads:
  "hoare cl P (poolDevices k p) (\<lambda>r c. P c \<and> (\<forall>ds. r = Inr ds \<longrightarrow> ds = membersOf p c))"
  "hoare cl P (pendingLeaseDemand k ns cls) (\<lambda>_. P)"
  unfolding poolDevices_def pendingLeaseDemand_def
  by (rule hoare_conseq [OF hoare_reads(5)]; auto simp: membersOf_def) (rule hoare_tryE [OF hoare_reads(6)]; auto intro!: hoare_ret)

lemma ensureCapacity_fine: "hoare cl (leaseState K l) (ensureCapacity k l) (ends K l)"
proof -
  let ?P = "\<lambda>p c. leaseState K l c \<and> p \<in> set (clPools c)"
  let ?demand = "\<lambda>p dc ds r. if r \<le>s unclaimedSupply ds (lsClassRef (leaseSpec l))
      then writeStatus k l LeasePending ''WaitingForDevice'' (''waiting for a provisioning device of class '' @ lsClassRef (leaseSpec l) @ '' to become Ready'')
      else makeRoom k l p dc ds"
  have room: "hoare cl (\<lambda>c. ?P p c \<and> ds = membersOf p c) (?demand p dc ds r) (ends K l)" for p dc ds r
    by (intro hoare_cases pending_fine hoare_pre [OF makeRoom_fine]) auto
  have lists: "hoare cl (?P p) (tryE (poolDevices k p) (\<lambda>ds. tryE (pendingLeaseDemand k ns cls) (?demand p dc ds))) (ends K l)" for p dc ns cls
    by (rule hoare_tryE [OF capacity_reads(1)], simp add: leaseState_ends, rule hoare_tryE [OF capacity_reads(2)], simp add: leaseState_ends,
        rule hoare_pre [OF room], simp)
  show ?thesis unfolding ensureCapacity_def Let_def
    by (rule hoare_tryE [OF resolvePool_fine], simp add: leaseState_ends, intro hoare_cases hoare_bind [OF hoare_reads(2)] hoare_error)
      (auto intro!: pending_fine hoare_ret hoare_pre [OF lists] simp: leaseState_ends)
qed

end

subsection \<open>A run of the lease controller\<close>

lemma held_hasItsDevice: "leaseState K l c \<Longrightarrow> held l \<Longrightarrow> keyOf (leaseMeta l) \<notin> K \<Longrightarrow> hasItsDevice (clDevices c) l"
  using getObj_key [of leaseMeta "keyOf (leaseMeta l)" "clLeases c" l] by (auto simp: leaseState_def farmFineBut_def leasesFine_def)

lemma hasItsDevice_same: "leaseMeta x = leaseMeta l \<Longrightarrow> ltDeviceRef (leaseStatus x) = ltDeviceRef (leaseStatus l) \<Longrightarrow> hasItsDevice ds x = hasItsDevice ds l"
  by (simp add: hasItsDevice_def)

lemma releaseDevice_heartbeat: "releaseDevice k (withHeartbeat t l) = releaseDevice k l"
  by (simp add: releaseDevice_def deviceBoundTo_def withHeartbeat_def)

definition exempted :: "objectKey \<Rightarrow> cluster \<Rightarrow> goError + 'a \<Rightarrow> objectKey set \<Rightarrow> objectKey set" where
  \<comment> \<open>an error in a run for a lease that was Bound before it makes that lease an exception\<close>
  "exempted key c0 r K = (case r of
     Inl _ \<Rightarrow> if \<exists>l \<in> set (clLeases c0). keyOf (leaseMeta l) = key \<and> leasePhase l = LeaseBound then insert key K else K
   | Inr _ \<Rightarrow> K)"

context unreliable
begin

lemma lastUsed_fine: "hoare cl P (lastUsedOrNow k d) (\<lambda>_. P)"
  unfolding lastUsedOrNow_def by (intro hoare_cases clock_fine hoare_ret)

lemma reconcilePending_fine:
  assumes fin: "leaseFinalizer \<in> set (mFinalizers (leaseMeta l))"
  shows "hoare cl (leaseState K l) (reconcilePending k l) (ends K l)"
proof -
  have finish: "hoare cl P (finishBinding k l d) (ends K l)" if "\<And>c. P c \<Longrightarrow> leaseState K l c \<and> holdsIt c l d" for P d
    by (rule hoare_pre [OF finishBinding_fine [OF fin]]) (use that in blast)
  have capacity: "hoare cl P (tryE (ensureCapacity k l) (\<lambda>_. ret (Inr x))) (ends K l)" if "\<And>c. P c \<Longrightarrow> leaseState K l c" for P x
    by (rule hoare_tryE [OF hoare_pre [OF ensureCapacity_fine that]]) (auto intro: hoare_ret ends_raise)
  have claim: "hoare cl (\<lambda>c. leaseState K l c \<and> unreferenced l c \<and> freeFor c l d) (do {
       used \<leftarrow> lastUsedOrNow k d;
       r \<leftarrow> apiUpdateDeviceStatus k (boundDevice l used d);
       (case r of
          Inl ErrConflict \<Rightarrow> ret (Inr \<lparr> Requeue = True, RequeueAfter = 0 \<rparr>)
        | Inl e \<Rightarrow> ret (Inl e)
        | Inr d' \<Rightarrow> finishBinding k l d') }) (ends K l)" for d
    by (rule hoare_bind [OF lastUsed_fine], rule hoare_bind [OF claim_fine [OF fin]])
      (intro hoare_cases hoare_error hoare_ret finish; auto simp: leaseState_ends dest: leaseState_farm)
  have unbound: "hoare cl (\<lambda>c. leaseState K l c \<and> unreferenced l c) (tryE (freeReadyDevice k l) (\<lambda>free.
      case free of
        None \<Rightarrow> tryE (ensureCapacity k l) (\<lambda>_. ret (Inr (requeueAfter (2 * time_Second))))
      | Some d \<Rightarrow> do {
          used \<leftarrow> lastUsedOrNow k d;
          r \<leftarrow> apiUpdateDeviceStatus k (boundDevice l used d);
          (case r of
             Inl ErrConflict \<Rightarrow> ret (Inr \<lparr> Requeue = True, RequeueAfter = 0 \<rparr>)
           | Inl e \<Rightarrow> ret (Inl e)
           | Inr d' \<Rightarrow> finishBinding k l d')
        })) (ends K l)"
    by (rule hoare_tryE [OF freeReady_fine], simp add: leaseState_ends, intro hoare_cases capacity hoare_pre [OF claim]) auto
  show ?thesis unfolding reconcilePending_def
    by (rule hoare_tryE [OF boundTo_fine], simp add: leaseState_ends, intro hoare_cases finish hoare_pre [OF unbound]) auto
qed

lemma refreshBound_fine:
  assumes "held l" and x: "leaseMeta x = leaseMeta l" "ltDeviceRef (leaseStatus x) = ltDeviceRef (leaseStatus l)"
  shows "hoare cl (leaseState K l) (refreshBound k x expires) (ends K l)"
proof -
  have health: "hoare cl (leaseState K l) (deviceHealth k x) (\<lambda>_. leaseState K l)"
    unfolding deviceHealth_def Let_def
    by (intro hoare_cases hoare_ret hoare_bind [OF hoare_reads(1)]) simp_all
  have status: "hoare cl (leaseState K l) (writeStatus k y LeaseBound reason msg) (ends K l)"
    if "leaseMeta y = leaseMeta l" "ltDeviceRef (leaseStatus y) = ltDeviceRef (leaseStatus l)" for y reason msg
  proof (rule hoare_pre)
    show "hoare cl (\<lambda>c. leaseState (insert (keyOf (leaseMeta l)) K) l c \<and> (LeaseBound = LeaseBound \<and> keyOf (leaseMeta l) \<notin> K \<longrightarrow> hasItsDevice (clDevices c) y))
        (writeStatus k y LeaseBound reason msg) (ends K l)"
      by (rule writeStatus_fine) (use that(1) assms(1) in \<open>simp_all add: held_def\<close>)
  qed (simp add: hasItsDevice_same [OF that] held_hasItsDevice assms(1) leaseState_more)
  show ?thesis unfolding refreshBound_def Let_def
    by (rule hoare_bind [OF health], rule hoare_bind [OF hoare_conditions], intro hoare_cases, rule hoare_tryE [where R = "ends K l"])
      (auto intro!: hoare_cases status hoare_ret hoare_bind [OF clock_fine] intro: ends_raise dest: leaseState_farm simp: x leaseState_ends)
qed

lemma reconcileBound_fine:
  assumes "held l"
  shows "hoare cl (leaseState K l) (reconcileBound k l) (ends K l)"
proof -
  have heartbeat: "hoare cl (leaseState K l) (heartbeatOrNow k l) (\<lambda>_. leaseState K l)"
    unfolding heartbeatOrNow_def by (intro hoare_cases clock_fine hoare_ret)
  have status: "hoare cl (letGo K l) (writeStatus k (withHeartbeat t l) LeaseExpired reason msg) (ends K l)" for t reason msg
    by (rule hoare_pre [OF writePending_fine]) (simp_all add: withHeartbeat_def letGo_def)
  have expired: "hoare cl (leaseState K l) (tryE (releaseDevice k (withHeartbeat t l)) (\<lambda>_.
      tryE (writeStatus k (withHeartbeat t l) LeaseExpired reason msg) (\<lambda>_. ret (Inr emptyResult)))) (ends K l)" for t reason msg
    unfolding releaseDevice_heartbeat
    by (rule hoare_tryE [OF releaseDevice_fine], simp add: leaseState_ends, rule hoare_tryE [OF hoare_pre [OF status]])
      (auto intro!: hoare_ret intro: ends_raise)
  have refresh: "hoare cl (leaseState K l) (refreshBound k (withHeartbeat t l) e) (ends K l)" for t e
    by (rule refreshBound_fine [OF assms]) (simp_all add: withHeartbeat_def)
  show ?thesis unfolding reconcileBound_def Let_def
    by (rule hoare_bind [OF heartbeat], rule hoare_bind [OF clock_fine], intro hoare_cases expired refresh)
qed

lemma addFinalizer_fine:
  assumes "\<not> leaseTerminating l" and "leaseFinalizer \<notin> set (mFinalizers (leaseMeta l))"
  shows "hoare cl (leaseState K l) (apiUpdateDeviceLease k (setLeaseMeta (addFinalizer k (leaseMeta l) leaseFinalizer) l)) (ends K l)"
proof (cases "leasePhase l = LeaseBound")
  case True
  then have "\<not> leaseState K l c" for c
    using assms getObj_key [of leaseMeta "keyOf (leaseMeta l)" "clLeases c" l]
    by (auto simp: leaseState_def farmFineBut_def leasesFine_def list_all_iff leaseFine_def)
  then show ?thesis by (simp add: hoare_def)
next
  case False
  show ?thesis
    by (rule hoare_pre [OF update_fine [OF refl finalizers_keep(4,5)]]) (use finalizers_keep(6) False in \<open>auto intro: leaseState_more\<close>)
qed

lemma leaseHandled_fine:
  "hoare cl (leaseState K l)
      (if leaseTerminating l then reconcileDeleted k l
       else if \<not> containsFinalizer k (leaseMeta l) leaseFinalizer
       then tryE (apiUpdateDeviceLease k (setLeaseMeta (addFinalizer k (leaseMeta l) leaseFinalizer) l)) (\<lambda>_. ret (Inr emptyResult))
       else (case leasePhase l of
               LeaseReleased \<Rightarrow> ret (Inr emptyResult)
             | LeaseFailed \<Rightarrow> ret (Inr emptyResult)
             | LeaseExpired \<Rightarrow> ret (Inr emptyResult)
             | LeaseBound \<Rightarrow> reconcileBound k l
             | _ \<Rightarrow> reconcilePending k l)) (ends K l)"
  by (intro hoare_cases reconcileDeleted_fine hoare_tryE [OF addFinalizer_fine])
    (auto intro!: hoare_ret reconcilePending_fine reconcileBound_fine intro: ends_raise
      simp: leaseState_ends held_def containsFinalizer_set dest: leaseState_farm split: LeasePhase.splits)

lemma lease_run_fine:
  assumes fine: "farmFineBut K (cl w)" and run: "run_state (leaseReconcile k key) w = (r, w')"
  shows "farmFineBut (exempted key (cl w) r K) (cl w')"
proof -
  let ?P = "\<lambda>c. c = cl w"
  have "hoare cl ?P (leaseReconcile k key) (\<lambda>r c. farmFineBut (exempted key (cl w) r K) c)"
    unfolding leaseReconcile_def
  proof (rule hoare_bind [OF hoare_reads(4)])
    fix r :: "goError + DeviceLease"
    let ?R = "\<lambda>c. c = cl w \<and> (r = getObj leaseMeta key (clLeases c) \<or> (\<exists>e. r = Inl e \<and> e \<noteq> ErrNotFound))"
    show "hoare cl ?R (case r of
        Inl ErrNotFound \<Rightarrow> ret (Inr emptyResult)
      | Inl e \<Rightarrow> ret (Inl e)
      | Inr lease \<Rightarrow>
          if leaseTerminating lease then reconcileDeleted k lease
          else if \<not> containsFinalizer k (leaseMeta lease) leaseFinalizer
          then tryE (apiUpdateDeviceLease k (setLeaseMeta (addFinalizer k (leaseMeta lease) leaseFinalizer) lease)) (\<lambda>_. ret (Inr emptyResult))
          else (case leasePhase lease of
                  LeaseReleased \<Rightarrow> ret (Inr emptyResult)
                | LeaseFailed \<Rightarrow> ret (Inr emptyResult)
                | LeaseExpired \<Rightarrow> ret (Inr emptyResult)
                | LeaseBound \<Rightarrow> reconcileBound k lease
                | _ \<Rightarrow> reconcilePending k lease)) (\<lambda>r c. farmFineBut (exempted key (cl w) r K) c)"
    proof (cases r)
      case (Inl e)
      then show ?thesis using fine by (cases e) (auto intro!: hoare_ret simp: exempted_def intro: farmFineBut_mono)
    next
      case (Inr l)
      show ?thesis
      proof (cases "getObj leaseMeta key (clLeases (cl w)) = Inr l")
        case True
        have "ends K l r' c \<Longrightarrow> farmFineBut (exempted key (cl w) r' K) c" for r' :: "goError + ctrlResult" and c
          using getObj_key [OF True] by (cases r') (auto simp: ends_def exempted_def split: if_splits intro: farmFineBut_mono)
        moreover have "leaseState K l (cl w)" using getObj_key [OF True] True fine by (simp add: leaseState_def)
        ultimately show ?thesis unfolding Inr sum.case by (intro hoare_conseq [OF leaseHandled_fine [of K l]]) auto
      qed (auto simp: Inr hoare_def)
    qed
  qed
  from hoareD [OF this refl run] show ?thesis .
qed

end

end
