(* ===== verification/Farm_Pools.thy ===== *)
theory Farm_Pools
  imports Farm_Leases Pool_Properties
begin

text \<open>
  Runs of the pool controller keep the farm's invariant, whichever of their calls fail. The running total of the
  warm loop is the size of the pool at every turn, and the budget it stays below is at most \<open>maxConcurrent\<close>.
\<close>

definition withinScale :: "cluster \<Rightarrow> bool" where
  \<comment> \<open>the leases waiting for the classes of any one pool can be counted in 32 bits\<close>
  "withinScale c \<longleftrightarrow> list_all (\<lambda>p. validPoolSpec (poolSpec p) \<and> int (length (dpsClasses (poolSpec p))) * int (length (clLeases c)) < 2 ^ 31) (clPools c)"

subsection \<open>The budget\<close>

definition shortageIn :: "cluster \<Rightarrow> string \<Rightarrow> Device list \<Rightarrow> PoolClass \<Rightarrow> nat" where
  "shortageIn c ns ds pc = shortage ds (pcName pc) (filter (\<lambda>l. leaseNamespace l = ns) (clLeases c))"

lemma shortages_bounded: "sum_list (map (shortageIn c ns ds) pcs) \<le> length pcs * length (clLeases c)"
proof (induction pcs)
  case (Cons pc pcs)
  have "shortageIn c ns ds pc \<le> length (filter (\<lambda>l. leaseNamespace l = ns) (clLeases c))"
    unfolding shortageIn_def shortage_def
    using length_filter_le [of "unsatisfied (pcName pc)" "filter (\<lambda>l. leaseNamespace l = ns) (clLeases c)"] by linarith
  also have "\<dots> \<le> length (clLeases c)" by (rule length_filter_le)
  finally show ?case using Cons by simp
qed simp

lemma budget_below:
  assumes "n < 2 ^ 31" and "1 \<le> sint (m :: int32)"
  shows "sint (m - of_nat n) \<le> sint m"
  using assms sint32_range [of m] sint32_of_nat [OF assms(1)] by (subst sint32_diff) auto

lemma reserved_step:
  assumes "length ds < 2 ^ 31" and "length (clLeases c) < 2 ^ 31"
  shows "(if unclaimedSupply ds (pcName pc) <s demandOf (pcName pc) (filter (\<lambda>l. leaseNamespace l = ns) (clLeases c))
      then res + (demandOf (pcName pc) (filter (\<lambda>l. leaseNamespace l = ns) (clLeases c)) - unclaimedSupply ds (pcName pc)) else res)
    = res + of_nat (shortageIn c ns ds pc)"
proof -
  let ?ls = "filter (\<lambda>l. leaseNamespace l = ns) (clLeases c)" and ?cls = "pcName pc"
  have "length ?ls < 2 ^ 31" using assms(2) length_filter_le le_less_trans by blast
  from shortfall_shortage [OF assms(1) this, of ?cls]
  have "(if unclaimedSupply ds ?cls <s demandOf ?cls ?ls then demandOf ?cls ?ls - unclaimedSupply ds ?cls else 0) = of_nat (shortageIn c ns ds pc)"
    by (simp add: shortfall_def shortageIn_def)
  then show ?thesis by (auto split: if_splits)
qed

subsection \<open>The warm loop\<close>

definition counted :: "objectKey set \<Rightarrow> DevicePool \<Rightarrow> int32 \<Rightarrow> cluster \<Rightarrow> bool" where
  \<comment> \<open>the running total is the size of the pool\<close>
  "counted K p tot c \<longleftrightarrow> farmFineBut K c \<and> p \<in> set (clPools c) \<and> sizeOf (clDevices c) p = sint tot"

definition someCount :: "objectKey set \<Rightarrow> DevicePool \<Rightarrow> cluster \<Rightarrow> bool" where
  "someCount K p c \<longleftrightarrow> farmFineBut K c \<and> p \<in> set (clPools c)"

lemma counted_some: "counted K p tot c \<Longrightarrow> someCount K p c"
  by (simp add: counted_def someCount_def)

lemma createDevice_provision: "createDevice k p dc = provision k p dc"
  by (simp add: createDevice_def provision_def)

lemma pool_status_mem: "hoare id (someCount K p) (apiUpdateDevicePoolStatus mem (p\<lparr>poolStatus := st\<rparr>)) (\<lambda>_. farmFineBut K)"
proof (rule hoareI, unfold id_apply)
  fix c r c' assume st: "someCount K p c" and run: "run_state (apiUpdateDevicePoolStatus mem (p\<lparr>poolStatus := st\<rparr>)) c = (r, c')"
  let ?ps = "clPools c" and ?y = "mapPoolMeta (\<lambda>m. m\<lparr>mResourceVersion := Suc (clVersion c)\<rparr>) (mergePoolStatus p (p\<lparr>poolStatus := st\<rparr>))"
  have fine: "farmFineBut K c" "p \<in> set ?ps" using st by (simp_all add: someCount_def)
  have get: "getObj poolMeta (mNamespace (poolMeta p), mName (poolMeta p)) ?ps = Inr p"
    using getObj_distinct [of poolMeta ?ps p] fine by (simp add: farmFineBut_def poolsFine_def keyOf_def)
  have y: "keyOf (poolMeta ?y) = keyOf (poolMeta p)" "sizeOf (clDevices c) ?y = sizeOf (clDevices c) p" "dpsMaxConcurrent (poolSpec ?y) = dpsMaxConcurrent (poolSpec p)"
    by (simp_all add: mapPoolMeta_def mergePoolStatus_def keyOf_def sizeOf_def memberOf_def [abs_def])
  have "poolsFine (putObj poolMeta ?y ?ps) (clDevices c)" "poolsFine (dropObj poolMeta key ?ps) (clDevices c)" for key
    using fine y by (auto simp: farmFineBut_def poolsFine_def keys_put distinct_drop list_all_iff in_drop dest!: in_put)
  moreover obtain ps where "c' = c\<lparr>clPools := ps, clVersion := Suc (clVersion c)\<rparr>"
    and "ps = putObj poolMeta ?y ?ps \<or> ps = dropObj poolMeta (mNamespace (poolMeta p), mName (poolMeta p)) ?ps"
    using run get by (auto simp: mem_def onPools_def run_writes writeObj_def Let_def split: if_splits)
  ultimately show "farmFineBut K c'" using fine(1) by (auto simp: farmFineBut_def)
qed

definition filled :: "'w kube \<Rightarrow> DevicePool \<Rightarrow> Device list \<Rightarrow> int32 \<Rightarrow> ('w, goError + ctrlResult) state" where
  \<comment> \<open>a pool run once the pool, its devices and the reserved capacity are read\<close>
  "filled k p ds reserved = tryE (warmClasses k p (groupByClass ds) (dpsMaxConcurrent (poolSpec p) - reserved) (dpsClasses (poolSpec p))
      (of_nat (length (activeDevices ds))) False) (\<lambda>missing. tryE (updatePoolStatus k p missing) (\<lambda>_. ret (Inr emptyResult)))"

context unreliable
begin

lemma createDevice_fine:
  assumes "tot <s b" and "sint b \<le> sint (dpsMaxConcurrent (poolSpec p))"
  shows "hoare cl (counted K p tot) (createDevice k p dc) (\<lambda>r c. case r of Inl _ \<Rightarrow> someCount K p c | Inr _ \<Rightarrow> counted K p (tot + 1) c)"
proof (rule hoareI)
  fix w r w' assume st: "counted K p tot (cl w)" and run: "run_state (createDevice k p dc) w = (r, w')"
  have "roomFor K (clLeases (cl w)) (clPools (cl w)) p (sint tot) (cl w)"
    using st assms by (simp add: counted_def roomFor_def roomIn_def word_sless_alt)
  from hoareD [OF provision_room this run [unfolded createDevice_provision]] st sint32_incr [OF assms(1)]
  show "case r of Inl _ \<Rightarrow> someCount K p (cl w') | Inr _ \<Rightarrow> counted K p (tot + 1) (cl w')"
    by (auto simp: provisioned_def counted_def someCount_def split: sum.split)
qed

lemma warmLoop_fine:
  assumes b: "sint b \<le> sint (dpsMaxConcurrent (poolSpec p))"
  shows "hoare cl (counted K p tot) (warmLoop k p dc mw b n tot) (\<lambda>r c. case r of Inl _ \<Rightarrow> someCount K p c | Inr tot' \<Rightarrow> counted K p tot' c)"
proof (induction "nat (sint mw - sint n)" arbitrary: n tot rule: less_induct)
  case less
  let ?Q = "\<lambda>r c. case r of Inl _ \<Rightarrow> someCount K p c | Inr tot' \<Rightarrow> counted K p tot' c"
  show ?case
  proof (cases "n <s mw \<and> tot <s b")
    case True
    then have dec: "nat (sint mw - sint (n + 1)) < nat (sint mw - sint n)"
      using sint32_incr [of n mw] by (simp add: word_sless_alt)
    have "hoare cl (counted K p tot) (tryE (createDevice k p dc) (\<lambda>_. warmLoop k p dc mw b (n + 1) (tot + 1))) ?Q"
      by (rule hoare_tryE [OF createDevice_fine [OF conjunct2 [OF True] b]]) (simp_all add: less [OF dec])
    then show ?thesis using True by (subst warmLoop.simps) simp
  next
    case False
    then show ?thesis by (subst warmLoop.simps) (auto intro!: hoare_ret)
  qed
qed

lemma warmClasses_fine:
  assumes b: "sint b \<le> sint (dpsMaxConcurrent (poolSpec p))"
  shows "hoare cl (counted K p tot) (warmClasses k p active b pcs tot missing) (\<lambda>_. someCount K p)"
proof (induction pcs arbitrary: tot missing)
  case Nil
  show ?case by (simp add: hoare_ret counted_some)
next
  case (Cons pc pcs)
  have warm: "hoare cl (counted K p tot) (tryE (warmLoop k p dc mw b n tot) (\<lambda>tot'. warmClasses k p active b pcs tot' missing)) (\<lambda>_. someCount K p)" for dc mw n
    by (rule hoare_tryE [OF warmLoop_fine [OF b]]) (simp_all add: Cons)
  show ?case
    by (simp only: warmClasses.simps, rule hoare_bind [OF hoare_reads(2)], intro hoare_cases hoare_error Cons warm)
      (auto intro!: hoare_ret counted_some)
qed

lemma updatePoolStatus_fine: "hoare cl (someCount K p) (updatePoolStatus k p missing) (\<lambda>_. farmFineBut K)"
proof -
  have status: "hoare cl (someCount K p) (apiUpdateDevicePoolStatus k (p\<lparr>poolStatus := st\<rparr>)) (\<lambda>_. farmFineBut K)" for st
    by (rule hoare_answers [OF calls(21) pool_status_mem]) (auto simp: someCount_def)
  have list: "hoare cl (someCount K p) (apiListDevices k ns sel) (\<lambda>_. someCount K p)" for ns sel
    by (rule hoare_conseq [OF hoare_reads(5) [where P = "someCount K p"]]) simp_all
  show ?thesis unfolding updatePoolStatus_def
    by (rule hoare_tryE [OF list], simp add: someCount_def, rule hoare_bind [OF hoare_conditions], intro hoare_cases hoare_tryE [OF status])
      (simp_all add: hoare_ret)
qed

lemma filled_fine:
  assumes "n < 2 ^ 31" and "1 \<le> sint (dpsMaxConcurrent (poolSpec p))"
  shows "hoare cl (\<lambda>c. someCount K p c \<and> ds = membersOf p c) (filled k p ds (of_nat n)) (\<lambda>_. farmFineBut K)"
proof -
  have start: "counted K p (of_nat (length (activeDevices (membersOf p c)))) c" if "someCount K p c" for c
  proof -
    have "sizeOf (clDevices c) p \<le> sint (dpsMaxConcurrent (poolSpec p))"
      using that by (simp add: someCount_def farmFineBut_def poolsFine_def list_all_iff)
    then have "length (activeDevices (membersOf p c)) < 2 ^ 31"
      using membersOf_active [of p c] sint32_range [of "dpsMaxConcurrent (poolSpec p)"] by simp
    from sint32_of_nat [OF this] show ?thesis using that by (simp add: counted_def someCount_def membersOf_active)
  qed
  show ?thesis unfolding filled_def
    by (rule hoare_tryE [OF hoare_pre [OF warmClasses_fine [OF budget_below [OF assms]]]])
      (use start in \<open>auto intro!: hoare_tryE [OF updatePoolStatus_fine] hoare_ret simp: someCount_def\<close>)
qed

subsection \<open>The run\<close>

lemma reserveLoop_fine:
  assumes "length ds < 2 ^ 31" and "length (clLeases c0) < 2 ^ 31"
  shows "hoare cl (\<lambda>c. c = c0) (reserveLoop k ns ds pcs res)
    (\<lambda>r c. c = c0 \<and> (\<forall>x. r = Inr x \<longrightarrow> x = res + of_nat (sum_list (map (shortageIn c0 ns ds) pcs))))"
proof (induction pcs arbitrary: res)
  case Nil
  show ?case by (simp add: hoare_ret)
next
  case (Cons pc pcs)
  let ?ls = "filter (\<lambda>l. leaseNamespace l = ns) (clLeases c0)"
  have demand: "hoare cl (\<lambda>c. c = c0) (pendingLeaseDemand k ns (pcName pc)) (\<lambda>r c. c = c0 \<and> (\<forall>x. r = Inr x \<longrightarrow> x = demandOf (pcName pc) ?ls))"
    unfolding pendingLeaseDemand_def by (rule hoare_tryE [OF hoare_reads(6)]; auto intro!: hoare_ret)
  have later: "hoare cl (\<lambda>c. c = c0) (reserveLoop k ns ds pcs (res + of_nat (shortageIn c0 ns ds pc)))
    (\<lambda>r c. c = c0 \<and> (\<forall>x. r = Inr x \<longrightarrow> x = res + of_nat (sum_list (map (shortageIn c0 ns ds) (pc # pcs)))))"
    using Cons [of "res + of_nat (shortageIn c0 ns ds pc)"] by (simp add: add.assoc)
  have turn: "(let supply = unclaimedSupply ds (pcName pc) in if supply <s x then reserveLoop k ns ds pcs (res + (x - supply)) else reserveLoop k ns ds pcs res)
      = reserveLoop k ns ds pcs (res + of_nat (shortageIn c0 ns ds pc))" if "x = demandOf (pcName pc) ?ls" for x
    using reserved_step [OF assms, of pc ns res] that by (auto simp: Let_def split: if_splits)
  show ?case unfolding reserveLoop.simps
  proof (rule hoare_tryE [OF demand])
    fix x
    show "hoare cl (\<lambda>c. c = c0 \<and> (\<forall>y. Inr x = (Inr y :: goError + _) \<longrightarrow> y = demandOf (pcName pc) ?ls))
      (let supply = unclaimedSupply ds (pcName pc) in if supply <s x then reserveLoop k ns ds pcs (res + (x - supply)) else reserveLoop k ns ds pcs res)
      (\<lambda>r c. c = c0 \<and> (\<forall>x. r = Inr x \<longrightarrow> x = res + of_nat (sum_list (map (shortageIn c0 ns ds) (pc # pcs)))))"
      using later turn [of x] by (cases "x = demandOf (pcName pc) ?ls") (auto simp: hoare_def)
  qed simp
qed

lemma pool_run_fine:
  assumes fine: "farmFineBut K (cl w)" and scale: "withinScale (cl w)"
  shows "farmFineBut K (cl (snd (run_state (poolReconcile k key) w)))"
proof -
  define c0 where "c0 = cl w"
  note fine = fine [folded c0_def] and scale = scale [folded c0_def]
  have reserved: "hoare cl (\<lambda>c. c = c0) (tryE (reserveLoop k (mNamespace (poolMeta p)) (concat (map snd (groupByClass (membersOf p c0)))) (dpsClasses (poolSpec p)) 0)
      (filled k p (membersOf p c0))) (\<lambda>_. farmFineBut K)" if p: "p \<in> set (clPools c0)" for p
  proof -
    let ?ds = "membersOf p c0" and ?pcs = "dpsClasses (poolSpec p)" and ?ns = "mNamespace (poolMeta p)"
    let ?all = "concat (map snd (groupByClass ?ds))" and ?n = "\<lambda>ds. sum_list (map (shortageIn c0 ?ns ds) ?pcs)"
    have "int (length ?pcs * length (clLeases c0)) < 2 ^ 31" using scale p by (simp add: withinScale_def list_all_iff)
    then have valid: "?pcs \<noteq> []" "length ?pcs * length (clLeases c0) < 2 ^ 31" "sizeOf (clDevices c0) p \<le> sint (dpsMaxConcurrent (poolSpec p))"
      "1 \<le> sint (dpsMaxConcurrent (poolSpec p))"
      using scale fine p by (simp_all del: of_nat_mult add: withinScale_def list_all_iff validPoolSpec_def farmFineBut_def poolsFine_def)
    have leases: "length (clLeases c0) < 2 ^ 31" using valid(1,2) by (cases ?pcs) auto
    have "length ?all = length (activeDevices ?ds)"
      using mset_eq_length [of ?all "activeDevices ?ds"] mset_group_fold [of "[]" ?ds] by (simp add: groupByClass_def activeDevices_filter)
    then have devs: "length ?all < 2 ^ 31"
      using membersOf_active [of p c0] valid(3) sint32_range [of "dpsMaxConcurrent (poolSpec p)"] by simp
    have n: "?n ?all < 2 ^ 31" using shortages_bounded [of c0 ?ns ?all ?pcs] valid(2) by linarith
    have fill: "hoare cl (\<lambda>c. c = c0 \<and> x = of_nat (?n ?all)) (filled k p ?ds x) (\<lambda>_. farmFineBut K)" for x
    proof (cases "x = of_nat (?n ?all)")
      case True
      show ?thesis unfolding True
        by (rule hoare_pre [OF filled_fine [OF n valid(4)]]) (use fine p in \<open>simp add: someCount_def\<close>)
    qed (simp add: hoare_def)
    show ?thesis
      by (rule hoare_tryE [OF reserveLoop_fine [OF devs leases]], simp add: fine, rule hoare_pre [OF fill]) simp
  qed
  have active: "hoare cl (\<lambda>c. c = c0) (activeDevicesByClass k p) (\<lambda>r c. c = c0 \<and> (\<forall>x. r = Inr x \<longrightarrow> x = groupByClass (membersOf p c0)))" for p
    unfolding activeDevicesByClass_def by (rule hoare_tryE [OF hoare_reads(5)]; auto intro!: hoare_ret simp: membersOf_def)
  have fill: "hoare cl (\<lambda>c. c = c0 \<and> p \<in> set (clPools c0) \<and> active = groupByClass (membersOf p c0))
      (let (tot, all) = totalDevices active; classes = dpsClasses (poolSpec p)
       in tryE (reserveLoop k (mNamespace (poolMeta p)) all classes 0) (\<lambda>reserved.
         let warmBudget = dpsMaxConcurrent (poolSpec p) - reserved
         in tryE (warmClasses k p active warmBudget classes tot False) (\<lambda>classMissing.
            tryE (updatePoolStatus k p classMissing) (\<lambda>_. ret (Inr emptyResult))))) (\<lambda>_. farmFineBut K)" for p active
  proof (cases "p \<in> set (clPools c0) \<and> active = groupByClass (membersOf p c0)")
    case True
    with reserved [of p] show ?thesis by (simp add: totalDevices_group filled_def [abs_def] Let_def)
  qed (auto simp: hoare_def)
  have "hoare cl (\<lambda>c. c = c0) (poolReconcile k key) (\<lambda>_. farmFineBut K)"
    unfolding poolReconcile_def
  proof (rule hoare_bind [OF hoare_reads(3)])
    fix r :: "goError + DevicePool"
    show "hoare cl (\<lambda>c. c = c0 \<and> (r = getObj poolMeta key (clPools c) \<or> (\<exists>e. r = Inl e \<and> e \<noteq> ErrNotFound))) (case r of
        Inl ErrNotFound \<Rightarrow> ret (Inr emptyResult)
      | Inl e \<Rightarrow> ret (Inl e)
      | Inr pool \<Rightarrow>
          tryE (activeDevicesByClass k pool) (\<lambda>active.
            let (tot, all) = totalDevices active;
                classes = dpsClasses (poolSpec pool)
            in tryE (reserveLoop k (mNamespace (poolMeta pool)) all classes 0) (\<lambda>reserved.
               let warmBudget = dpsMaxConcurrent (poolSpec pool) - reserved
               in tryE (warmClasses k pool active warmBudget classes tot False) (\<lambda>classMissing.
                  tryE (updatePoolStatus k pool classMissing) (\<lambda>_. ret (Inr emptyResult)))))) (\<lambda>_. farmFineBut K)"
    proof (cases r)
      case (Inl e)
      then show ?thesis using fine by (cases e) (auto intro!: hoare_ret)
    next
      case (Inr p)
      show ?thesis
      proof (cases "getObj poolMeta key (clPools c0) = Inr p")
        case True
        then have p: "p \<in> set (clPools c0)" using getObj_key [OF True] by simp
        show ?thesis unfolding Inr sum.case
          by (rule hoare_tryE [OF hoare_pre [OF active [of p]]], simp, use fine in simp, rule hoare_pre [OF fill]) (use p in simp)
      qed (auto simp: Inr hoare_def)
    qed
  qed
  from hoare_run [OF this, of w] show ?thesis by (simp add: c0_def)
qed

end

end
