(* ===== verification/Farmctl.thy ===== *)
theory Farmctl
  imports Kube
begin

text \<open>
  The lease client, \<^verbatim>\<open>client/main.go\<close>: \<open>acquire\<close>, \<open>heartbeat\<close> and \<open>release\<close> with the
  dispatch of \<open>main\<close>. The flags arrive parsed; a command ends with the lines it printed and
  either normally or by \<open>os.Exit\<close>. The polling loop of apimachinery
  (\<open>wait.PollUntilContextTimeout\<close>) is a parameter, as is the client.
\<close>

record farmFlags =
  flNamespace :: string
  flName :: string
  flClass :: string
  flRequester :: string
  flTTL :: int64
  flWait :: bool
  flTimeout :: duration

datatype outcome =
    Returned "string list"
  | Usage                      \<comment> \<open>\<open>usage()\<close>: the help text, exit status 2\<close>
  | Fatal "string list" string "goError option"
      \<comment> \<open>\<open>fatal\<close>, exit status 1: the lines printed before, the message and the error it formats\<close>

definition exitStatus :: "outcome \<Rightarrow> nat" where
  "exitStatus r = (case r of Returned _ \<Rightarrow> 0 | Usage \<Rightarrow> 2 | Fatal _ _ _ \<Rightarrow> 1)"

definition defaultRequester :: "(string \<Rightarrow> string) \<Rightarrow> string \<Rightarrow> string" where
  \<comment> \<open>given the environment variables and the host name\<close>
  "defaultRequester getenv hostname =
     (if getenv ''FARM_REQUESTER'' \<noteq> [] then getenv ''FARM_REQUESTER'' else hostname)"

definition int32OfInt :: "int64 \<Rightarrow> int32" where "int32OfInt n = ucast n"

definition newLease :: "string \<Rightarrow> string \<Rightarrow> string \<Rightarrow> string \<Rightarrow> int32 \<Rightarrow> DeviceLease" where
  "newLease ns name cls requester ttl =
     (let m = emptyMeta\<lparr>mNamespace := ns\<rparr>
      in \<lparr> leaseMeta = (if name \<noteq> [] then m\<lparr>mName := name\<rparr> else m\<lparr>mGenerateName := ''lease-''\<rparr>),
           leaseSpec = \<lparr> lsClassRef = cls, lsPoolRef = [], lsRequester = requester, lsTTLSeconds = ttl \<rparr>,
           leaseStatus = emptyLeaseStatus \<rparr>)"

type_synonym 'w condFunc = "DeviceLease \<Rightarrow> ('w, (goError + bool) \<times> DeviceLease) state"

type_synonym 'w pollFunc =
  "duration \<Rightarrow> duration \<Rightarrow> bool \<Rightarrow> 'w condFunc \<Rightarrow> DeviceLease \<Rightarrow> ('w, goError option \<times> DeviceLease) state"

definition acquireCondition :: "'w kube \<Rightarrow> objectKey \<Rightarrow> 'w condFunc" where
  \<comment> \<open>the closure polled by \<open>acquire\<close>; \<open>Get\<close> refreshes the captured lease\<close>
  "acquireCondition k key lease = do {
     r \<leftarrow> apiGetDeviceLease k key;
     (case r of
        Inl e \<Rightarrow> ret (Inl e, lease)
      | Inr l \<Rightarrow>
          (case leasePhase l of
             LeaseBound \<Rightarrow> ret (Inr True, l)
           | LeaseFailed \<Rightarrow> ret (Inl (ErrOther ''lease failed''), l)
           | _ \<Rightarrow> ret (Inr False, l)))
   }"

definition acquire ::
    "'w kube \<Rightarrow> 'w pollFunc \<Rightarrow> string \<Rightarrow> string \<Rightarrow> string \<Rightarrow> string \<Rightarrow> int32 \<Rightarrow> bool \<Rightarrow> duration
       \<Rightarrow> ('w, outcome) state" where
  "acquire k poll ns name cls requester ttl waitBound timeout = do {
     r \<leftarrow> apiCreateDeviceLease k (newLease ns name cls requester ttl);
     (case r of
        Inl e \<Rightarrow> ret (Fatal [] ''create lease'' (Some e))
      | Inr lease \<Rightarrow>
          (let created = ''created lease '' @ leaseNamespace lease @ ''/'' @ leaseName lease in
           if \<not> waitBound then ret (Returned [created])
           else do {
             (err, lease') \<leftarrow> poll time_Second timeout True
                (acquireCondition k (leaseNamespace lease, leaseName lease)) lease;
             (case err of
                Some e \<Rightarrow> ret (Fatal [created] ''waiting for bind'' (Some e))
              | None \<Rightarrow> ret (Returned [created,
                  ''bound: device='' @ ltDeviceRef (leaseStatus lease') @ '' adb=''
                    @ ltADBEndpoint (leaseStatus lease')]))
           }))
   }"

definition heartbeat :: "'w kube \<Rightarrow> string \<Rightarrow> string \<Rightarrow> ('w, outcome) state" where
  "heartbeat k ns name = do {
     r \<leftarrow> apiGetDeviceLease k (ns, name);
     (case r of
        Inl e \<Rightarrow> ret (Fatal [] ''get lease'' (Some e))
      | Inr lease \<Rightarrow> do {
          now \<leftarrow> clockNow k;
          let patched = lease\<lparr>leaseStatus := (leaseStatus lease)\<lparr>ltLastHeartbeat := Some now\<rparr>\<rparr>;
          rp \<leftarrow> apiPatchDeviceLeaseStatus k lease patched;
          (case rp of
             Inl e \<Rightarrow> ret (Fatal [] ''heartbeat'' (Some e))
           | Inr _ \<Rightarrow> ret (Returned [''heartbeat '' @ ns @ ''/'' @ name @ '' at ''
               @ formatRFC3339 (localOffset k) now]))
        })
   }"

definition release :: "'w kube \<Rightarrow> string \<Rightarrow> string \<Rightarrow> ('w, outcome) state" where
  "release k ns name = do {
     r \<leftarrow> apiDeleteDeviceLease k (ns, name);
     (case r of
        Inl ErrNotFound \<Rightarrow> ret (Returned [''released '' @ ns @ ''/'' @ name])
      | Inl e \<Rightarrow> ret (Fatal [] ''release'' (Some e))
      | Inr _ \<Rightarrow> ret (Returned [''released '' @ ns @ ''/'' @ name]))
   }"

definition mustClass :: "string \<Rightarrow> ('w, outcome) state \<Rightarrow> ('w, outcome) state" where
  "mustClass cls rest = (if cls = [] then ret (Fatal [] ''--class is required'' None) else rest)"

definition mustName :: "string \<Rightarrow> ('w, outcome) state \<Rightarrow> ('w, outcome) state" where
  "mustName name rest = (if name = [] then ret (Fatal [] ''--name is required'' None) else rest)"

definition farmctl :: "'w kube \<Rightarrow> 'w pollFunc \<Rightarrow> string list \<Rightarrow> farmFlags \<Rightarrow> ('w, outcome) state" where
  \<comment> \<open>\<open>main\<close>, given the arguments after the program name and the flags parsed from them\<close>
  "farmctl k poll args fl =
     (case args of
        [] \<Rightarrow> ret Usage
      | cmd # _ \<Rightarrow>
          if cmd = ''acquire''
          then mustClass (flClass fl) (acquire k poll (flNamespace fl) (flName fl) (flClass fl) (flRequester fl)
                 (int32OfInt (flTTL fl)) (flWait fl) (flTimeout fl))
          else if cmd = ''heartbeat'' then mustName (flName fl) (heartbeat k (flNamespace fl) (flName fl))
          else if cmd = ''release'' then mustName (flName fl) (release k (flNamespace fl) (flName fl))
          else ret Usage)"

end
