(* ===== verification/Farmctl_Properties.thy ===== *)
theory Farmctl_Properties
  imports Farmctl Policy Demo
begin

text \<open>
  What the lease client promises. \<open>polling\<close> is the contract of the polling loop of apimachinery: it
  ends without an error only when the polled condition has just held, with an error that the
  condition gave or that the time is up. \<open>memPoll\<close>, a loop against the reference server with the
  clock moved on between two polls, provides it.
\<close>

subsection \<open>The polling contract\<close>

definition deadlineExceeded :: goError where
  "deadlineExceeded = ErrOther ''context deadline exceeded''"

locale polling =
  fixes poll :: "'w pollFunc"
  assumes poll_done: "run_state (poll i t im cond l) w = ((None, l'), w') \<Longrightarrow>
      \<exists>v l0. run_state (cond l0) v = ((Inr True, l'), w')"
    and poll_failed: "run_state (poll i t im cond l) w = ((Some e, l'), w') \<Longrightarrow>
      e = deadlineExceeded \<or> (\<exists>v l0. run_state (cond l0) v = ((Inl e, l'), w'))"
begin

lemma acquire_bound:
  assumes "run_state (acquire k poll ns name cls requester ttl True timeout) w = (Returned out, w')"
  shows "\<exists>lease w1 v l. run_state (apiCreateDeviceLease k (newLease ns name cls requester ttl)) w = (Inr lease, w1) \<and>
    run_state (apiGetDeviceLease k (leaseNamespace lease, leaseName lease)) v = (Inr l, w') \<and>
    leasePhase l = LeaseBound \<and>
    out = [''created lease '' @ leaseNamespace lease @ ''/'' @ leaseName lease,
      ''bound: device='' @ ltDeviceRef (leaseStatus l) @ '' adb='' @ ltADBEndpoint (leaseStatus l)]"
proof -
  obtain r w1 where r: "run_state (apiCreateDeviceLease k (newLease ns name cls requester ttl)) w = (r, w1)" by force
  with assms obtain lease where lease: "r = Inr lease" by (cases r) (auto simp: acquire_def)
  let ?cond = "acquireCondition k (leaseNamespace lease, leaseName lease)"
  obtain err l w2 where p: "run_state (poll time_Second timeout True ?cond lease) w1 = ((err, l), w2)" by (metis surj_pair)
  from assms r lease p have out: "err = None" "w' = w2" "out = [''created lease '' @ leaseNamespace lease @ ''/'' @ leaseName lease,
      ''bound: device='' @ ltDeviceRef (leaseStatus l) @ '' adb='' @ ltADBEndpoint (leaseStatus l)]"
    by (auto simp: acquire_def Let_def split: option.splits)
  obtain v l0 where c: "run_state (?cond l0) v = ((Inr True, l), w')" using poll_done p out by blast
  obtain g w3 where g: "run_state (apiGetDeviceLease k (leaseNamespace lease, leaseName lease)) v = (g, w3)" by force
  from c g have "g = Inr l \<and> w3 = w' \<and> leasePhase l = LeaseBound"
    by (auto simp: acquireCondition_def split: sum.splits LeasePhase.splits)
  with g r lease out(3) show ?thesis by blast
qed

end

subsection \<open>Polling the reference server\<close>

fun pollLoop :: "nat \<Rightarrow> duration \<Rightarrow> cluster condFunc \<Rightarrow> DeviceLease \<Rightarrow> (cluster, goError option \<times> DeviceLease) state" where
  "pollLoop 0 i cond l = ret (Some deadlineExceeded, l)"
| "pollLoop (Suc n) i cond l = do {
     (r, l') \<leftarrow> cond l;
     (case r of
        Inl e \<Rightarrow> ret (Some e, l')
      | Inr True \<Rightarrow> ret (None, l')
      | Inr False \<Rightarrow> do {
          _ \<leftarrow> State (\<lambda>c. ((), c\<lparr>clNow := timeAdd (clNow c) i\<rparr>));
          pollLoop n i cond l'
        })
   }"

definition memPoll :: "cluster pollFunc" where
  \<comment> \<open>an immediate first poll, then one per interval until the time is up\<close>
  "memPoll i t im cond l = pollLoop (nat (sint t div sint i) + 1) i cond l"

lemma pollLoop_done: "run_state (pollLoop n i cond l) w = ((None, l'), w') \<Longrightarrow> \<exists>v l0. run_state (cond l0) v = ((Inr True, l'), w')"
proof (induction n arbitrary: l w)
  case (Suc n)
  obtain r l1 w1 where c: "run_state (cond l) w = ((r, l1), w1)" by (metis surj_pair)
  show ?case
  proof (cases "r = Inr False")
    case True
    with Suc.prems c have "run_state (pollLoop n i cond l1) (w1\<lparr>clNow := timeAdd (clNow w1) i\<rparr>) = ((None, l'), w')" by simp
    then show ?thesis by (rule Suc.IH)
  next
    case False
    with Suc.prems c have "r = Inr True" "l1 = l'" "w1 = w'" by (auto split: sum.splits bool.splits)
    with c show ?thesis by blast
  qed
qed simp

lemma pollLoop_failed: "run_state (pollLoop n i cond l) w = ((Some e, l'), w') \<Longrightarrow>
    e = deadlineExceeded \<or> (\<exists>v l0. run_state (cond l0) v = ((Inl e, l'), w'))"
proof (induction n arbitrary: l w)
  case (Suc n)
  obtain r l1 w1 where c: "run_state (cond l) w = ((r, l1), w1)" by (metis surj_pair)
  show ?case
  proof (cases "r = Inr False")
    case True
    with Suc.prems c have "run_state (pollLoop n i cond l1) (w1\<lparr>clNow := timeAdd (clNow w1) i\<rparr>) = ((Some e, l'), w')" by simp
    then show ?thesis by (rule Suc.IH)
  next
    case False
    with Suc.prems c have "r = Inl e" "l1 = l'" "w1 = w'" by (auto split: sum.splits bool.splits)
    with c show ?thesis by blast
  qed
qed simp

interpretation mem_poll: polling memPoll
  by (unfold_locales, unfold memPoll_def) (fact pollLoop_done pollLoop_failed)+

subsection \<open>The three commands\<close>

text \<open>C33: When \<open>farmctl acquire\<close> ends normally it has created the lease of its flags. With \<open>--wait\<close> the
  lease it created was last read Bound, and the device and the endpoint it prints are those of exactly that
  reading; without, it ends right after the creation and prints no device.\<close>

theorem acquire_reports_its_lease:
  assumes "polling poll"
    and "run_state (farmctl k poll (''acquire'' # rest) fl) w = (Returned out, w')"
  shows "\<exists>lease w1. run_state (apiCreateDeviceLease k
      (newLease (flNamespace fl) (flName fl) (flClass fl) (flRequester fl) (int32OfInt (flTTL fl)))) w = (Inr lease, w1) \<and>
    (if flWait fl
     then \<exists>v l. run_state (apiGetDeviceLease k (leaseNamespace lease, leaseName lease)) v = (Inr l, w') \<and>
       leasePhase l = LeaseBound \<and>
       out = [''created lease '' @ leaseNamespace lease @ ''/'' @ leaseName lease,
         ''bound: device='' @ ltDeviceRef (leaseStatus l) @ '' adb='' @ ltADBEndpoint (leaseStatus l)]
     else w' = w1 \<and> out = [''created lease '' @ leaseNamespace lease @ ''/'' @ leaseName lease])"
proof -
  have run: "run_state (acquire k poll (flNamespace fl) (flName fl) (flClass fl) (flRequester fl)
      (int32OfInt (flTTL fl)) (flWait fl) (flTimeout fl)) w = (Returned out, w')"
    using assms(2) by (auto simp: farmctl_def mustClass_def mustName_def split: if_splits)
  show ?thesis
  proof (cases "flWait fl")
    case True
    with run polling.acquire_bound [OF assms(1)] show ?thesis by simp
  next
    case False
    with run show ?thesis by (auto simp: acquire_def Let_def split: prod.splits sum.splits)
  qed
qed

definition demoFlags :: farmFlags where
  "demoFlags = \<lparr> flNamespace = ''ns'', flName = ''l1'', flClass = ''pixel'', flRequester = ''ci'', flTTL = 300, flWait = True,
     flTimeout = 300000000000 \<rparr>"

definition bindsAtOnce :: "cluster kube" where
  \<comment> \<open>the server together with an operator that has bound a lease by the time it is read\<close>
  "bindsAtOnce = mem\<lparr>apiGetDeviceLease := (\<lambda>key. reads (\<lambda>c. map_sum id
     (\<lambda>l. l\<lparr>leaseStatus := (leaseStatus l)\<lparr>ltPhase := LeaseBound, ltDeviceRef := ''d1''\<rparr>\<rparr>) (getObj leaseMeta key (clLeases c))))\<rparr>"

lemma acquire_reports_its_lease_witness:
  "\<exists>out c' lease v l. run_state (farmctl bindsAtOnce memPoll [''acquire''] demoFlags) emptyCluster = (Returned out, c') \<and>
     run_state (apiGetDeviceLease bindsAtOnce (leaseNamespace lease, leaseName (lease :: DeviceLease))) v = (Inr l, c') \<and> leasePhase l = LeaseBound"
proof -
  have "(case run_state (farmctl bindsAtOnce memPoll [''acquire''] demoFlags) emptyCluster of (Returned _, _) \<Rightarrow> True | _ \<Rightarrow> False)"
    by code_simp
  then obtain out c' where run: "run_state (farmctl bindsAtOnce memPoll [''acquire''] demoFlags) emptyCluster = (Returned out, c')"
    by (auto split: prod.splits outcome.splits)
  have "flWait demoFlags" by (simp add: demoFlags_def)
  with acquire_reports_its_lease [OF mem_poll.polling_axioms run] run show ?thesis by auto
qed

definition demoBeat :: cluster where
  "demoBeat = demoCluster (demoPool 2 []) [demoDevice ''d1'' ''pixel'' DeviceLeased ''l1'']
     [demoLease ''l1'' ''pixel'' LeaseBound ''d1'' (Some 900000000000)]"

definition neverPolled :: "'w pollFunc" where
  \<comment> \<open>for the commands that do not poll\<close>
  "neverPolled i t im cond l = ret (Some deadlineExceeded, l)"

text \<open>C39: A heartbeat patches the status of the lease it has just read, as its only write, and changes
  nothing but the heartbeat time, to the clock reading it prints.\<close>

theorem heartbeat_patches_only_the_heartbeat:
  assumes "traceOf (farmctl (traced k) poll (''heartbeat'' # rest) fl) w = h @ ActPatchDeviceLeaseStatus b n r # t"
  shows "\<exists>now. h = [ActGetDeviceLease (flNamespace fl, flName fl) (Inr b), ActClockNow now] \<and> t = [] \<and>
    n = b\<lparr>leaseStatus := (leaseStatus b)\<lparr>ltLastHeartbeat := Some now\<rparr>\<rparr> \<and>
    (case r of Inl e \<Rightarrow> resultOf (farmctl (traced k) poll (''heartbeat'' # rest) fl) w = Fatal [] ''heartbeat'' (Some e)
     | Inr _ \<Rightarrow> resultOf (farmctl (traced k) poll (''heartbeat'' # rest) fl) w =
         Returned [''heartbeat '' @ flNamespace fl @ ''/'' @ flName fl @ '' at '' @ formatRFC3339 (localOffset k) now])"
proof -
  let ?Q = "\<lambda>out l. l = h @ ActPatchDeviceLeaseStatus b n r # t \<longrightarrow>
    (\<exists>now. h = [ActGetDeviceLease (flNamespace fl, flName fl) (Inr b), ActClockNow now] \<and> t = [] \<and>
      n = b\<lparr>leaseStatus := (leaseStatus b)\<lparr>ltLastHeartbeat := Some now\<rparr>\<rparr> \<and>
      (case r of Inl e \<Rightarrow> out = Fatal [] ''heartbeat'' (Some e)
       | Inr _ \<Rightarrow> out = Returned [''heartbeat '' @ flNamespace fl @ ''/'' @ flName fl @ '' at '' @ formatRFC3339 (localOffset k) now]))"
  have "lwp (farmctl (traced k) poll (''heartbeat'' # rest) fl) ?Q []"
    unfolding farmctl_def mustClass_def mustName_def heartbeat_def
    by (auto intro!: lwp_intro simp: Let_def Cons_eq_append_conv split: sum.splits)
  from lwp_trace [OF this] assms show ?thesis by blast
qed

fun leasePatch :: "action \<Rightarrow> DeviceLease option" where
  "leasePatch (ActPatchDeviceLeaseStatus b n r) = Some n"
| "leasePatch _ = None"

lemma heartbeat_patches_only_the_heartbeat_witness:
  "\<exists>h b n r. traceOf (farmctl (traced mem) neverPolled [''heartbeat''] demoFlags) demoBeat = h @ [ActPatchDeviceLeaseStatus b n r] \<and>
     leaseMeta n = leaseMeta b \<and> leasePhase n = leasePhase b"
proof -
  let ?t = "traceOf (farmctl (traced mem) neverPolled [''heartbeat''] demoFlags) demoBeat"
  have "someCall leasePatch (\<lambda>_. True) ?t" by code_simp
  from someCall_split [OF this] obtain h a x t where t: "?t = h @ a # t" "leasePatch a = Some x" by blast
  then obtain b n r where "a = ActPatchDeviceLeaseStatus b n r" by (cases a) auto
  with t have "?t = h @ ActPatchDeviceLeaseStatus b n r # t" by simp
  from heartbeat_patches_only_the_heartbeat [OF this] this show ?thesis by auto
qed

text \<open>Without a command, with an unknown one, or without the class or the name a command needs, the
  client makes no API call and exits with a non-zero status: 2 with the help text, or 1 naming the
  missing flag.\<close>

theorem farmctl_rejects_bad_usage:
  assumes "args = [] \<or> hd args \<notin> {''acquire'', ''heartbeat'', ''release''} \<or> hd args = ''acquire'' \<and> flClass fl = [] \<or>
     hd args \<noteq> ''acquire'' \<and> flName fl = []"
  shows "traceOf (farmctl (traced k) poll args fl) w = [] \<and> exitStatus (resultOf (farmctl (traced k) poll args fl) w) =
     (if args \<noteq> [] \<and> hd args \<in> {''acquire'', ''heartbeat'', ''release''} then 1 else 2)"
  using assms by (cases args) (auto simp: farmctl_def mustClass_def mustName_def traceOf_def resultOf_def exitStatus_def)

lemma farmctl_rejects_bad_usage_witness:
  "traceOf (farmctl (traced mem) neverPolled [''acquire''] (demoFlags\<lparr>flClass := []\<rparr>)) emptyCluster = [] \<and>
   exitStatus (resultOf (farmctl (traced mem) neverPolled [''acquire''] (demoFlags\<lparr>flClass := []\<rparr>)) emptyCluster) = 1"
  using farmctl_rejects_bad_usage [of "[''acquire'']" "demoFlags\<lparr>flClass := []\<rparr>" mem neverPolled emptyCluster] by simp

text \<open>Releasing is one deletion, and it succeeds exactly when the deletion did or the lease was already
  gone, so repeating it is harmless.\<close>

theorem release_deletes_once:
  "\<exists>r. traceOf (release (traced k) ns name) w = [ActDeleteDeviceLease (ns, name) r] \<and>
     resultOf (release (traced k) ns name) w =
       (case r of Inl e \<Rightarrow> if e = ErrNotFound then Returned [''released '' @ ns @ ''/'' @ name] else Fatal [] ''release'' (Some e)
        | Inr _ \<Rightarrow> Returned [''released '' @ ns @ ''/'' @ name])"
proof -
  have "lwp (release (traced k) ns name) (\<lambda>out l. \<exists>r. l = [ActDeleteDeviceLease (ns, name) r] \<and> out =
      (case r of Inl e \<Rightarrow> if e = ErrNotFound then Returned [''released '' @ ns @ ''/'' @ name] else Fatal [] ''release'' (Some e)
        | Inr _ \<Rightarrow> Returned [''released '' @ ns @ ''/'' @ name])) []"
    unfolding release_def traced_simps
  proof (rule lwp_bind, rule lwp_logged)
    fix r :: "goError + unit"
    show "lwp (case r of Inl ErrNotFound \<Rightarrow> ret (Returned [''released '' @ ns @ ''/'' @ name])
          | Inl e \<Rightarrow> ret (Fatal [] ''release'' (Some e)) | Inr _ \<Rightarrow> ret (Returned [''released '' @ ns @ ''/'' @ name]))
       (\<lambda>out l. \<exists>r. l = [ActDeleteDeviceLease (ns, name) r] \<and> out =
      (case r of Inl e \<Rightarrow> if e = ErrNotFound then Returned [''released '' @ ns @ ''/'' @ name] else Fatal [] ''release'' (Some e)
        | Inr _ \<Rightarrow> Returned [''released '' @ ns @ ''/'' @ name])) ([] @ [ActDeleteDeviceLease (ns, name) r])"
      by (auto simp: lwp_def split: sum.splits goError.splits)
  qed
  then show ?thesis by (rule lwp_trace)
qed

text \<open>The \<open>--ttl\<close> flag is a 64-bit integer cut to 32 bits: the lease asks for the value of the flag
  when it fits, and otherwise for a value that differs from it by a multiple of 2^32, possibly
  negative (which the server's minimum of 1 rejects) or far shorter than what was asked for.\<close>

theorem ttl_flag_truncates:
  "sint (lsTTLSeconds (leaseSpec (newLease ns name cls requester (int32OfInt n)))) = (sint n + 2 ^ 31) mod 2 ^ 32 - 2 ^ 31 \<and>
   sint (lsTTLSeconds (leaseSpec (newLease ns name cls requester (int32OfInt 4294967297)))) = 1"
proof -
  have "sint (ucast n :: int32) = signed_take_bit 31 (uint n)" unfolding ucast_eq signed_of_int by simp
  also have "\<dots> = take_bit (Suc 31) (uint n + 2 ^ 31) - 2 ^ 31" by (rule signed_take_bit_eq_take_bit_shift)
  also have "\<dots> = (uint n + 2147483648) mod 4294967296 - 2147483648" unfolding take_bit_eq_mod by simp
  also have "uint n = sint n mod 18446744073709551616" by (simp add: uint_sint take_bit_eq_mod)
  also have "(sint n mod 18446744073709551616 + 2147483648) mod 4294967296 = (sint n + 2147483648) mod (4294967296 :: int)"
  proof -
    have "sint n mod 18446744073709551616 mod 4294967296 = sint n mod (4294967296 :: int)" by (rule mod_mod_cancel) simp
    then show ?thesis by (metis mod_add_left_eq)
  qed
  finally show ?thesis by (simp add: newLease_def int32OfInt_def Let_def)
qed

end
