(* ===== verification/Sequential.thy ===== *)
theory Sequential
  imports Farm_Pools Farmctl_Properties
begin

text \<open>
  The farm as a state machine whose steps are whole runs: of a controller on some object, of a command of
  the client, or whatever else happens in the cluster that leaves alone what the invariant reads. The runs are
  made against any server of the contract \<open>unreliable\<close>: their reads are up to date, but any of their calls may
  fail, also after having been carried out. Runs follow each other in any order, but do not overlap; a waiting
  \<open>acquire\<close> only creates its lease and reads afterwards, so it is that creation and other runs may follow. What
  holds in every state such runs reach; \<open>K\<close> collects the leases for which a run that found them Bound ended with an error.
\<close>

subsection \<open>What else happens in the cluster\<close>

definition sameFarm :: "cluster \<Rightarrow> cluster \<Rightarrow> bool" where
  \<comment> \<open>time, pods, services, jobs, classes and everything else but these views may differ\<close>
  "sameFarm c c' \<longleftrightarrow> map devView (clDevices c') = map devView (clDevices c) \<and>
     map poolView (clPools c') = map poolView (clPools c) \<and> map leaseView (clLeases c') = map leaseView (clLeases c)"

lemma sameFarm_fine: "sameFarm c c' \<Longrightarrow> farmFineBut K c \<Longrightarrow> farmFineBut K c'"
  using farmFine_view [of c' c K] by (simp add: sameFarm_def)

subsection \<open>The client\<close>

lemma create_lease_mem:
  assumes "name \<noteq> [] \<or> mGenerateName m \<noteq> []" and x: "leaseMeta x = m\<lparr>mName := name\<rparr>"
  shows "hoare id (farmFineBut K) (apiCreateDeviceLease mem x) (\<lambda>_. farmFineBut K)"
proof (rule hoareI, unfold id_apply)
  fix c r c' assume fine: "farmFineBut K c" and run: "run_state (apiCreateDeviceLease mem x) c = (r, c')"
  let ?y = "mapLeaseMeta (createdMeta (clVersion c)) (freshLease x)"
  have y: "leaseFine ?y" "\<not> held ?y"
    using assms by (auto simp: leaseFine_def held_def mapLeaseMeta_def freshLease_def emptyLeaseStatus_def createdMeta_def)
  show "farmFineBut K c'"
  proof (cases "find (\<lambda>z. hasKey (leaseNamespace ?y, leaseName ?y) (leaseMeta z)) (clLeases c)")
    case (Some l)
    then show ?thesis using run fine by (auto simp: mem_def onLeases_def run_writes createObj_def Let_def)
  next
    case None
    then have "c' = c\<lparr>clLeases := clLeases c @ [?y], clVersion := Suc (clVersion c)\<rparr>"
      using run by (auto simp: mem_def onLeases_def run_writes createObj_def Let_def)
    moreover have "keyOf (leaseMeta ?y) \<notin> (\<lambda>l. keyOf (leaseMeta l)) ` set (clLeases c)"
      using None by (auto simp: find_None_iff hasKey_keyOf) (auto simp: keyOf_def)
    ultimately show ?thesis using fine y by (simp add: farmFineBut_def leasesFine_add refs_lease_add)
  qed
qed

lemma stored_leaseState: "farmFineBut K c \<Longrightarrow> getObj leaseMeta key (clLeases c) = Inr l \<Longrightarrow> leaseState K l c"
  by (auto simp: leaseState_def dest: getObj_key)

lemma patch_mem: "hoare id (farmFineBut K) (apiPatchDeviceLeaseStatus mem l (withHeartbeat t l)) (\<lambda>_. farmFineBut K)"
proof (rule hoareI, unfold id_apply)
  fix c r c' assume fine: "farmFineBut K c" and run: "run_state (apiPatchDeviceLeaseStatus mem l (withHeartbeat t l)) c = (r, c')"
  show "farmFineBut K c'"
  proof (cases "getObj leaseMeta (leaseNamespace l, leaseName l) (clLeases c)")
    case (Inl e)
    then show ?thesis using run fine by (auto simp: mem_def onLeases_def run_writes patchLeaseIn_def withHeartbeat_def)
  next
    case (Inr old)
    let ?x = "old\<lparr>leaseStatus := patchLeaseStatus (leaseStatus l) (leaseStatus (withHeartbeat t l)) (leaseStatus old)\<rparr>"
    have st: "leaseState K old c" by (rule stored_leaseState [OF fine Inr])
    have old: "old \<in> set (clLeases c)" using getObj_key [OF Inr] by simp
    have same: "leasePhase ?x = leasePhase old" "ltDeviceRef (leaseStatus ?x) = ltDeviceRef (leaseStatus old)"
      by (simp_all add: patchLeaseStatus_def patchField_def withHeartbeat_def)
    let ?z = "mapLeaseMeta (\<lambda>m. m\<lparr>mResourceVersion := Suc (clVersion c)\<rparr>) (mergeLeaseStatus old ?x)"
    have view: "leaseView ?z = leaseView old"
      using same by (simp add: leaseView_def mapLeaseMeta_def mergeLeaseStatus_def storedLeaseStatus_def keyOf_def)
    have "getObj leaseMeta (keyOf (leaseMeta ?x)) (clLeases c) = Inr old" using st by (simp add: leaseState_def)
    from writeObj_accepted [OF this] run Inr
    have c': "c' = c\<lparr>clLeases := (if leaseTerminating ?z \<and> mFinalizers (leaseMeta ?z) = [] then dropObj leaseMeta (keyOf (leaseMeta old)) (clLeases c)
        else putObj leaseMeta ?z (clLeases c)), clVersion := Suc (clVersion c)\<rparr>"
      by (auto simp: mem_def onLeases_def run_writes patchLeaseIn_def Let_def withHeartbeat_def)
    have "leaseFine old" "held old \<Longrightarrow> keyOf (leaseMeta old) \<notin> K \<Longrightarrow> hasItsDevice (clDevices c) old"
      using fine old by (auto simp: farmFineBut_def leasesFine_def list_all_iff)
    then have z: "leaseFine ?z" "held ?z \<Longrightarrow> keyOf (leaseMeta old) \<notin> K \<Longrightarrow> hasItsDevice (clDevices c) ?z"
      using view by (auto simp: leaseView_def leaseFine_def held_def hasItsDevice_def keyOf_def)
    have key: "keyOf (leaseMeta ?z) = keyOf (leaseMeta old)" using view by (simp add: leaseView_def)
    have "unreferenced old c" if "(leaseTerminating ?z \<and> mFinalizers (leaseMeta ?z) = []) \<or> leaseFinalizer \<notin> set (mFinalizers (leaseMeta ?z))"
      using that view unfinalized [OF st] by (auto simp: leaseView_def)
    from lease_write_fine [OF leaseState_more [OF st] c' key z this] show ?thesis by simp
  qed
qed

lemma delete_lease_mem: "hoare id (farmFineBut K) (apiDeleteDeviceLease mem key) (\<lambda>_. farmFineBut K)"
proof (rule hoareI, unfold id_apply)
  fix c r c' assume fine: "farmFineBut K c" and run: "run_state (apiDeleteDeviceLease mem key) c = (r, c')"
  show "farmFineBut K c'"
  proof (cases "getObj leaseMeta key (clLeases c)")
    case (Inl e)
    then show ?thesis using run fine by (auto simp: mem_def withTime_def onLeases_def run_writes deleteObj_def)
  next
    case (Inr old)
    have st: "leaseState K old c" and key: "key = keyOf (leaseMeta old)"
      using stored_leaseState [OF fine Inr] getObj_key [OF Inr] by auto
    let ?z = "mapLeaseMeta (\<lambda>m. m\<lparr>mDeletionTimestamp := Some (truncSecond (clNow c)), mResourceVersion := Suc (clVersion c)\<rparr>) old"
    let ?with = "\<lambda>ls. c\<lparr>clLeases := ls, clVersion := Suc (clVersion c)\<rparr>" and ?key = "keyOf (leaseMeta old)"
    have c': "c' = ?with (if mFinalizers (leaseMeta old) = [] then dropObj leaseMeta ?key (clLeases c)
        else if leaseTerminating old then clLeases c else putObj leaseMeta ?z (clLeases c))"
      using run Inr unfolding key by (simp add: mem_def withTime_def onLeases_def run_writes deleteObj_def split: if_splits)
    have z: "leaseFine ?z" "keyOf (leaseMeta ?z) = ?key" "held ?z \<Longrightarrow> keyOf (leaseMeta old) \<notin> K \<Longrightarrow> hasItsDevice (clDevices c) ?z"
      using leaseState_fine [OF st] held_hasItsDevice [OF st]
      by (simp_all add: leaseFine_def mapLeaseMeta_def keyOf_def held_def hasItsDevice_def)
    have put: "farmFineBut K (?with (putObj leaseMeta ?z (clLeases c)))"
      using lease_write_fine [OF leaseState_more [OF st], of "?with (putObj leaseMeta ?z (clLeases c))" False ?z] z unfinalized [OF st] by (simp add: mapLeaseMeta_def)
    have "farmFineBut K (?with (dropObj leaseMeta ?key (clLeases c)))" if "mFinalizers (leaseMeta old) = []"
      using lease_write_fine [OF leaseState_more [OF st], of "?with (dropObj leaseMeta ?key (clLeases c))" True ?z] z unfinalized [OF st] that by simp
    with put fine show ?thesis unfolding c' by (simp add: farmFineBut_def)
  qed
qed

text \<open>Between two polls the rest of the cluster goes on, but the loop itself only asks its condition.\<close>

locale waiting_poll =
  fixes poll :: "'w pollFunc" and cl :: "'w \<Rightarrow> cluster"
  assumes poll_keeps: "(\<And>l. hoare cl I (cond l) (\<lambda>_. I)) \<Longrightarrow> (\<And>c c'. I c \<Longrightarrow> sameFarm c c' \<Longrightarrow> I c') \<Longrightarrow> hoare cl I (poll i t im cond l) (\<lambda>_. I)"

context unreliable
begin

lemma create_lease_fine:
  assumes "name \<noteq> [] \<or> mGenerateName m \<noteq> []" and "leaseMeta x = m\<lparr>mName := name\<rparr>"
  shows "hoare cl (farmFineBut K) (apiCreateDeviceLease k x) (\<lambda>_. farmFineBut K)"
  by (rule hoare_answers [OF calls(12) create_lease_mem [OF assms]])

lemma acquire_fine:
  assumes "waiting_poll poll cl"
  shows "hoare cl (farmFineBut K) (acquire k poll ns name cls requester ttl waitBound timeout) (\<lambda>_. farmFineBut K)"
proof -
  have lease: "hoare cl (farmFineBut K) (apiCreateDeviceLease k (newLease ns name cls requester ttl)) (\<lambda>_. farmFineBut K)"
    by (rule create_lease_fine [of name "(leaseMeta (newLease ns name cls requester ttl))\<lparr>mName := []\<rparr>"]) (auto simp: newLease_def Let_def emptyMeta_def)
  have ask: "hoare cl (farmFineBut K) (acquireCondition k key l) (\<lambda>_. farmFineBut K)" for key l
    unfolding acquireCondition_def
    by (rule hoare_bind [OF hoare_reads(4)]) (auto intro!: hoare_ret hoare_cases split: LeasePhase.splits)
  show ?thesis unfolding acquire_def Let_def
    by (rule hoare_bind [OF lease], intro hoare_cases hoare_ret hoare_bind [OF waiting_poll.poll_keeps [OF assms ask]]) (auto intro: sameFarm_fine)
qed

lemma client_fine:
  assumes "waiting_poll poll cl"
  shows "hoare cl (farmFineBut K) (farmctl k poll args fl) (\<lambda>_. farmFineBut K)"
proof -
  have patch: "hoare cl (farmFineBut K) (apiPatchDeviceLeaseStatus k l (withHeartbeat t l)) (\<lambda>_. farmFineBut K)" for l t
    by (rule hoare_answers [OF calls(22) patch_mem])
  have drop: "hoare cl (farmFineBut K) (apiDeleteDeviceLease k key) (\<lambda>_. farmFineBut K)" for key
    by (rule hoare_answers [OF calls(25) delete_lease_mem])
  have get: "hoare cl (farmFineBut K) (apiGetDeviceLease k key) (\<lambda>_. farmFineBut K)" for key
    by (rule hoare_conseq [OF hoare_reads(4) [where P = "farmFineBut K"]]) simp_all
  have beat: "hoare cl (farmFineBut K) (heartbeat k ns name) (\<lambda>_. farmFineBut K)" for ns name
    unfolding heartbeat_def Let_def withHeartbeat_def [symmetric]
    by (rule hoare_bind [OF get], intro hoare_cases hoare_ret hoare_bind [OF clock_fine] hoare_bind [OF patch])
  have free: "hoare cl (farmFineBut K) (release k ns name) (\<lambda>_. farmFineBut K)" for ns name
    unfolding release_def by (rule hoare_bind [OF drop], intro hoare_cases hoare_error hoare_ret)
  show ?thesis unfolding farmctl_def mustClass_def mustName_def
    by (cases args) (auto intro!: hoare_cases hoare_ret acquire_fine [OF assms] beat free)
qed

end

lemma pollLoop_keeps:
  assumes "\<And>l. hoare id I (cond l) (\<lambda>_. I)" and "\<And>c c'. I c \<Longrightarrow> sameFarm c c' \<Longrightarrow> I c'"
  shows "hoare id I (pollLoop n i cond l) (\<lambda>_. I)"
proof (induction n arbitrary: l)
  case 0
  show ?case by (simp add: hoare_ret)
next
  case (Suc n)
  have tick: "hoare id I (State (\<lambda>c. ((), c\<lparr>clNow := timeAdd (clNow c) i\<rparr>))) (\<lambda>_. I)"
    by (rule hoareI) (auto intro: assms(2) simp: sameFarm_def)
  show ?case unfolding pollLoop.simps
    by (rule hoare_bind [OF assms(1)]) (auto intro!: hoare_ret hoare_bind [OF tick] Suc split: sum.split bool.split)
qed

interpretation mem_waits: waiting_poll memPoll id
  by (unfold_locales, unfold memPoll_def) (rule pollLoop_keeps)

subsection \<open>The state machine\<close>

inductive farmStep :: "'w kube \<Rightarrow> ('w \<Rightarrow> cluster) \<Rightarrow> 'w \<times> objectKey set \<Rightarrow> 'w \<times> objectKey set \<Rightarrow> bool" for k cl where
  DeviceRun: "farmStep k cl (w, K) (snd (run_state (deviceReconcile k key) w), K)"
| LeaseRun: "run_state (leaseReconcile k key) w = (r, w') \<Longrightarrow> farmStep k cl (w, K) (w', exempted key (cl w) r K)"
| PoolRun: "withinScale (cl w) \<Longrightarrow> farmStep k cl (w, K) (snd (run_state (poolReconcile k key) w), K)"
| ClientRun: "waiting_poll poll cl \<Longrightarrow> farmStep k cl (w, K) (snd (run_state (farmctl k poll args fl) w), K)"
| Elsewhere: "sameFarm (cl w) (cl w') \<Longrightarrow> farmStep k cl (w, K) (w', K)"

definition nothingBound :: "cluster \<Rightarrow> bool" where
  \<comment> \<open>a farm to start from: named leases that are not bound yet, devices that carry none, pools that are not overfull\<close>
  "nothingBound c \<longleftrightarrow> distinct (keysOf (clDevices c)) \<and> distinct (map (\<lambda>l. keyOf (leaseMeta l)) (clLeases c)) \<and>
     list_all (\<lambda>l. leaseName l \<noteq> [] \<and> leasePhase l \<noteq> LeaseBound) (clLeases c) \<and>
     list_all (\<lambda>d. devLeaseRef d = []) (clDevices c) \<and> poolsFine (clPools c) (clDevices c)"

lemma nothingBound_fine: "nothingBound c \<Longrightarrow> farmFine c"
  by (auto simp: nothingBound_def farmFineBut_def leasesFine_def list_all_iff leaseFine_def held_def refsFine_def refsOf_def filter_empty_conv)

lemma farmStep_fine: "farmStep k cl s s' \<Longrightarrow> unreliable k cl \<Longrightarrow> farmFineBut (snd s) (cl (fst s)) \<Longrightarrow> farmFineBut (snd s') (cl (fst s'))"
proof (induction rule: farmStep.induct)
  case (ClientRun poll w K args fl)
  then show ?case using hoare_run [OF unreliable.client_fine, of k cl poll K w args fl] by simp
qed (simp_all add: unreliable.device_run_fine unreliable.lease_run_fine unreliable.pool_run_fine sameFarm_fine)

lemma reached_fine:
  assumes "unreliable k cl" and "nothingBound (cl w0)" and "(farmStep k cl)\<^sup>*\<^sup>* (w0, {}) (w, K)"
  shows "farmFineBut K (cl w)"
proof -
  have "farmFineBut (snd s) (cl (fst s))" if "(farmStep k cl)\<^sup>*\<^sup>* (w0, {}) s" for s
    using that by (induction rule: rtranclp_induct) (auto intro: farmStep_fine [OF _ assms(1)] nothingBound_fine [OF assms(2)])
  from this [OF assms(3)] show ?thesis by simp
qed

subsection \<open>What holds in every state reached\<close>

text \<open>C2: However the runs of the controllers and of the client follow each other, and whichever of their calls
  fail, a Bound lease that is not being deleted always has its device: a stored Device of its namespace with the
  name it gives, which carries the lease's name. The exception are leases for which a run that found them Bound has
  ended with an error: that run may have released the device without getting to the lease's status.\<close>

theorem bound_lease_has_its_device:
  assumes "unreliable k cl" and "nothingBound (cl w0)" and "(farmStep k cl)\<^sup>*\<^sup>* (w0, {}) (w, K)"
    and "l \<in> set (clLeases (cl w))" and "leasePhase l = LeaseBound" and "\<not> leaseTerminating l" and "keyOf (leaseMeta l) \<notin> K"
  shows "\<exists>d \<in> set (clDevices (cl w)). devNamespace d = leaseNamespace l \<and> devName d = ltDeviceRef (leaseStatus l) \<and> devLeaseRef d = leaseName l"
proof -
  have "farmFineBut K (cl w)" by (rule reached_fine [OF assms(1-3)])
  then have "hasItsDevice (clDevices (cl w)) l"
    using assms(4-7) by (auto simp: farmFineBut_def leasesFine_def list_all_iff leaseFine_def held_def)
  then show ?thesis by (simp add: hasItsDevice_def keyOf_def)
qed


text \<open>C3: However runs follow each other, and whichever of their calls fail, no device is lost to a lease that
  is gone and no lease holds two: the lease whose name a device carries is stored and still has the controller's
  finalizer, and no other device of the namespace carries it.\<close>

theorem no_device_orphaned:
  assumes "unreliable k cl" and "nothingBound (cl w0)" and "(farmStep k cl)\<^sup>*\<^sup>* (w0, {}) (w, K)"
    and "d \<in> set (clDevices (cl w))" and "devLeaseRef d \<noteq> []"
  shows "(\<exists>l \<in> set (clLeases (cl w)). leaseNamespace l = devNamespace d \<and> leaseName l = devLeaseRef d \<and> leaseFinalizer \<in> set (mFinalizers (leaseMeta l))) \<and>
    (\<forall>d' \<in> set (clDevices (cl w)). devNamespace d' = devNamespace d \<and> devLeaseRef d' = devLeaseRef d \<longrightarrow> d' = d)"
proof -
  let ?c = "cl w"
  have "farmFineBut K ?c" by (rule reached_fine [OF assms(1-3)])
  then have refs: "distinct (refsOf (clDevices ?c))" "set (refsOf (clDevices ?c)) \<subseteq> set (finalized (clLeases ?c))"
    by (simp_all add: farmFineBut_def refsFine_def)
  have "(devNamespace d, devLeaseRef d) \<in> set (refsOf (clDevices ?c))" using assms(4,5) by (auto simp: refsOf_def)
  then have "(devNamespace d, devLeaseRef d) \<in> set (finalized (clLeases ?c))" using refs(2) by blast
  then have "\<exists>l \<in> set (clLeases ?c). leaseNamespace l = devNamespace d \<and> leaseName l = devLeaseRef d \<and> leaseFinalizer \<in> set (mFinalizers (leaseMeta l))"
    by (auto simp: in_finalized keyOf_def)
  moreover have "d' = d" if "d' \<in> set (clDevices ?c)" "devNamespace d' = devNamespace d" "devLeaseRef d' = devLeaseRef d" for d'
    using refs(1) that assms(4,5) by (auto simp: refsOf_def distinct_map inj_on_def)
  ultimately show ?thesis by blast
qed

text \<open>C4: However the runs of the lease controller, which provisions on demand, and of the pool controller,
  which keeps devices warm, follow each other, and whichever of their calls fail, no pool ever has more active
  devices than \<open>maxConcurrent\<close>.\<close>

theorem pool_never_exceeds_max:
  assumes "unreliable k cl" and "nothingBound (cl w0)" and "(farmStep k cl)\<^sup>*\<^sup>* (w0, {}) (w, K)" and "p \<in> set (clPools (cl w))"
  shows "int (length (filter (\<lambda>d. devNamespace d = mNamespace (poolMeta p) \<and> mLabels (devMeta d) LabelPool = Some (mName (poolMeta p)) \<and>
      \<not> devTerminating d) (clDevices (cl w)))) \<le> sint (dpsMaxConcurrent (poolSpec p))"
proof -
  have "farmFineBut K (cl w)" by (rule reached_fine [OF assms(1-3)])
  then have "sizeOf (clDevices (cl w)) p \<le> sint (dpsMaxConcurrent (poolSpec p))"
    using assms(4) by (simp add: farmFineBut_def poolsFine_def list_all_iff)
  then show ?thesis by (simp add: sizeOf_def memberOf_def [abs_def])
qed

subsection \<open>Witnesses\<close>

definition demoShare :: cluster where
  \<comment> \<open>two ready devices and two waiting leases\<close>
  "demoShare = demoCluster (demoPool 3 [(''pixel'', 3)])
     [demoDevice ''d1'' ''pixel'' DeviceReady [], demoDevice ''d2'' ''pixel'' DeviceReady []]
     [demoLease ''l1'' ''pixel'' LeasePending [] None, demoLease ''l2'' ''pixel'' LeasePending [] None]"

definition demoFaults :: "fault list" where
  \<comment> \<open>the fourth call, which writes the status of the device of \<open>l1\<close>, is carried out but answered with an error\<close>
  "demoFaults = [Through, Through, Through, Lost ''timeout'']"

definition afterLost :: "cluster \<times> fault list" where
  \<comment> \<open>after a run for \<open>l1\<close> that ended with that error\<close>
  "afterLost = snd (run_state (leaseReconcile flaky (''ns'', ''l1'')) (demoShare, demoFaults))"

definition afterBound :: "cluster \<times> fault list" where
  \<comment> \<open>after a second run for \<open>l1\<close> and one for \<open>l2\<close>\<close>
  "afterBound = snd (run_state (leaseReconcile flaky (''ns'', ''l2'')) (snd (run_state (leaseReconcile flaky (''ns'', ''l1'')) afterLost)))"

definition afterRuns :: "cluster \<times> fault list" where
  \<comment> \<open>after a run of the pool\<close>
  "afterRuns = snd (run_state (poolReconcile flaky (''ns'', ''pool'')) afterBound)"

lemma demoShare_start: "nothingBound (fst (demoShare, demoFaults))"
  by (simp add: nothingBound_def poolsFine_def sizeOf_def memberOf_def [abs_def] demoShare_def demoPool_def keysOf_def keyOf_def demo_defs)

fun succeeded :: "'e + 'a \<Rightarrow> bool" where
  "succeeded (Inl e) = False"
| "succeeded (Inr x) = True"

lemma exempted_none: "succeeded r \<or> list_all (\<lambda>l. leasePhase l \<noteq> LeaseBound) (clLeases c) \<Longrightarrow> exempted key c r K = K"
  by (cases r) (auto simp: exempted_def list_all_iff)

lemma lease_step:
  assumes "succeeded (fst (run_state (leaseReconcile k key) w)) \<or> list_all (\<lambda>l. leasePhase l \<noteq> LeaseBound) (clLeases (cl w))"
  shows "farmStep k cl (w, K) (snd (run_state (leaseReconcile k key) w), K)"
  using LeaseRun [of k key w "fst (run_state (leaseReconcile k key) w)" "snd (run_state (leaseReconcile k key) w)" cl K] exempted_none [OF assms] by simp

lemma afterRuns_reached: "(farmStep flaky fst)\<^sup>*\<^sup>* ((demoShare, demoFaults), {}) (afterRuns, {})"
proof -
  let ?w = "snd (run_state (leaseReconcile flaky (''ns'', ''l1'')) afterLost)"
  have "farmStep flaky fst ((demoShare, demoFaults), {}) (afterLost, {})"
    unfolding afterLost_def by (rule lease_step) code_simp
  moreover have "farmStep flaky fst (afterLost, {}) (?w, {})" by (rule lease_step) code_simp
  moreover have "farmStep flaky fst (?w, {}) (afterBound, {})"
    unfolding afterBound_def by (rule lease_step) code_simp
  moreover have "farmStep flaky fst (afterBound, {}) (afterRuns, {})"
    unfolding afterRuns_def by (rule PoolRun) code_simp
  ultimately show ?thesis by (meson rtranclp.rtrancl_into_rtrancl rtranclp.rtrancl_refl)
qed

lemmas demo_reached = flaky_unreliable.unreliable_axioms demoShare_start afterRuns_reached

lemma lost_answer:
  "\<not> succeeded (fst (run_state (leaseReconcile flaky (''ns'', ''l1'')) (demoShare, demoFaults))) \<and>
   map devLeaseRef (clDevices (fst afterLost)) = [''l1'', []]"
  by code_simp

lemma afterRuns_leases:
  "map (\<lambda>l. (keyOf (leaseMeta l), leasePhase l = LeaseBound, leaseTerminating l, ltDeviceRef (leaseStatus l))) (clLeases (fst afterRuns)) =
    [((''ns'', ''l1''), True, False, ''d1''), ((''ns'', ''l2''), True, False, ''d2'')]"
  by code_simp

lemma bound_lease_has_its_device_witness:
  "\<exists>l \<in> set (clLeases (fst afterRuns)). leasePhase l = LeaseBound \<and>
     (\<exists>d \<in> set (clDevices (fst afterRuns)). devNamespace d = leaseNamespace l \<and> devName d = ltDeviceRef (leaseStatus l) \<and> devLeaseRef d = leaseName l)"
proof -
  obtain l where "l \<in> set (clLeases (fst afterRuns))" "leasePhase l = LeaseBound" "\<not> leaseTerminating l"
    using afterRuns_leases by (cases "clLeases (fst afterRuns)") auto
  with bound_lease_has_its_device [OF demo_reached] show ?thesis by blast
qed


lemma no_device_orphaned_witness:
  "\<exists>d \<in> set (clDevices (fst afterRuns)). devLeaseRef d \<noteq> [] \<and>
     (\<exists>l \<in> set (clLeases (fst afterRuns)). leaseNamespace l = devNamespace d \<and> leaseName l = devLeaseRef d \<and> leaseFinalizer \<in> set (mFinalizers (leaseMeta l)))"
proof -
  have "map devLeaseRef (clDevices (fst afterRuns)) = [''l1'', ''l2'', []]" by code_simp
  then obtain d ds where "clDevices (fst afterRuns) = d # ds" "devLeaseRef d = ''l1''" by (auto simp: map_eq_Cons_conv)
  then have "d \<in> set (clDevices (fst afterRuns))" "devLeaseRef d \<noteq> []" by simp_all
  with no_device_orphaned [OF demo_reached] show ?thesis by blast
qed

lemma pool_never_exceeds_max_witness:
  "\<exists>p \<in> set (clPools (fst afterRuns)). int (length (filter (\<lambda>d. devNamespace d = mNamespace (poolMeta p) \<and>
      mLabels (devMeta d) LabelPool = Some (mName (poolMeta p)) \<and> \<not> devTerminating d) (clDevices (fst afterRuns)))) \<le> sint (dpsMaxConcurrent (poolSpec p))
    \<and> length (clDevices (fst afterRuns)) = 3"
proof -
  have "clPools (fst afterRuns) \<noteq> []" "length (clDevices (fst afterRuns)) = 3" by code_simp+
  then obtain p where "p \<in> set (clPools (fst afterRuns))" "length (clDevices (fst afterRuns)) = 3" by (cases "clPools (fst afterRuns)") auto
  with pool_never_exceeds_max [OF demo_reached] show ?thesis by blast
qed

end
