(* ===== verification/Pool_Plan.thy ===== *)
theory Pool_Plan
  imports Pool_Properties
begin

text \<open>
  A whole run of the pool controller against a reference: \<open>warmPlan\<close> computes, over unbounded
  integers and without effects, which devices a run should create from the classes it found, and a
  run that ends without an error creates exactly those, in that order.
\<close>

subsection \<open>The plan\<close>

fun warmPlan :: "int \<Rightarrow> (string \<Rightarrow> int) \<Rightarrow> (PoolClass \<times> DeviceClass option) list \<Rightarrow> int \<Rightarrow> DeviceClass list" where
  \<comment> \<open>class by class: up to \<open>minWarm\<close> as far as the budget goes, nothing for a class that does not exist\<close>
  "warmPlan budget active [] tot = []"
| "warmPlan budget active ((pc, None) # rest) tot = warmPlan budget active rest tot"
| "warmPlan budget active ((pc, Some dc) # rest) tot =
     (let n = max 0 (min (sint (pcMinWarm pc) - active (pcName pc)) (budget - tot))
      in replicate (nat n) dc @ warmPlan budget active rest (tot + n))"

definition createdSpecs :: "action list \<Rightarrow> DeviceSpec list" where
  "createdSpecs t = concat (map (\<lambda>a. case a of ActCreateDevice x _ \<Rightarrow> [devSpec x] | _ \<Rightarrow> []) t)"

lemma createdSpecs_append [simp]: "createdSpecs (t @ u) = createdSpecs t @ createdSpecs u"
  by (simp add: createdSpecs_def)

lemma createdSpecs_writes: "createdSpecs (writesIn t) = createdSpecs t"
  by (induction t) (auto simp: createdSpecs_def split: action.split)

lemma createdSpecs_for: "list_all (createsFor pool dc) t \<Longrightarrow> createdSpecs t = replicate (length t) (devSpec (newPoolDevice pool dc))"
  by (induction t) (auto simp: createdSpecs_def createsFor_def split: action.splits)

definition sawClass :: "action list \<Rightarrow> PoolClass \<Rightarrow> DeviceClass option \<Rightarrow> bool" where
  "sawClass t pc f \<longleftrightarrow> ActGetDeviceClass (pcName pc) (case f of None \<Rightarrow> Inl ErrNotFound | Some dc \<Rightarrow> Inr dc) \<in> set t"

definition planned :: "DevicePool \<Rightarrow> (string \<Rightarrow> int) \<Rightarrow> int \<Rightarrow> PoolClass list \<Rightarrow> int \<Rightarrow> action list \<Rightarrow> bool" where
  \<comment> \<open>what the calls \<open>t\<close> create is the plan for the classes they found\<close>
  "planned pool active budget pcs tot t \<longleftrightarrow> (\<exists>found. list_all2 (sawClass t) pcs found \<and>
     createdSpecs t = map (\<lambda>dc. devSpec (newPoolDevice pool dc)) (warmPlan budget active (zip pcs found) tot))"

lemma planned_cons_missing:
  assumes "planned pool active budget pcs tot t"
  shows "planned pool active budget (pc # pcs) tot (ActGetDeviceClass (pcName pc) (Inl ErrNotFound) # t)"
proof -
  from assms obtain found where f: "list_all2 (sawClass t) pcs found"
    "createdSpecs t = map (\<lambda>dc. devSpec (newPoolDevice pool dc)) (warmPlan budget active (zip pcs found) tot)"
    unfolding planned_def by blast
  then have "list_all2 (sawClass (ActGetDeviceClass (pcName pc) (Inl ErrNotFound) # t)) (pc # pcs) (None # found)"
    by (auto simp: sawClass_def elim!: list_all2_mono)
  with f(2) show ?thesis unfolding planned_def by (intro exI [of _ "None # found"]) (simp add: createdSpecs_def)
qed

lemma planned_cons_warmed:
  assumes n: "n = max 0 (min (sint (pcMinWarm pc) - active (pcName pc)) (budget - tot))"
    and u: "list_all (createsFor pool dc) u" "int (length u) = n"
    and rest: "planned pool active budget pcs (tot + n) t"
  shows "planned pool active budget (pc # pcs) tot (ActGetDeviceClass (pcName pc) (Inr dc) # u @ t)"
proof -
  from rest obtain found where f: "list_all2 (sawClass t) pcs found"
    "createdSpecs t = map (\<lambda>dc. devSpec (newPoolDevice pool dc)) (warmPlan budget active (zip pcs found) (tot + n))"
    unfolding planned_def by blast
  have "list_all2 (sawClass (ActGetDeviceClass (pcName pc) (Inr dc) # u @ t)) (pc # pcs) (Some dc # found)"
    using f(1) by (auto simp: sawClass_def elim!: list_all2_mono)
  moreover have "createdSpecs (ActGetDeviceClass (pcName pc) (Inr dc) # u @ t) =
      replicate (nat n) (devSpec (newPoolDevice pool dc)) @ createdSpecs t"
    using createdSpecs_for [OF u(1)] u(2) createdSpecs_append [of "[ActGetDeviceClass (pcName pc) (Inr dc)]" "u @ t"]
    by (auto simp: createdSpecs_def)
  ultimately show ?thesis unfolding planned_def using f(2) n
    by (intro exI [of _ "Some dc # found"]) (simp add: Let_def)
qed

lemma warmClasses_lwp:
  "lwp (warmClasses (traced k) pool active b pcs tot miss)
     (\<lambda>r l'. \<exists>t. l' = l @ t \<and> (\<forall>x. r = Inr x \<longrightarrow>
        planned pool (\<lambda>c. sint (of_nat (length (classDevices active c)) :: int32)) (sint b) pcs (sint tot) t)) l"
proof (induction pcs arbitrary: tot miss l)
  case Nil
  show ?case by (auto intro!: lwp_ret simp: planned_def createdSpecs_def)
next
  case (Cons pc pcs)
  let ?have = "\<lambda>c. sint (of_nat (length (classDevices active c)) :: int32)"
  let ?G = "\<lambda>r l'. \<exists>t. l' = l @ t \<and> (\<forall>x. r = Inr x \<longrightarrow> planned pool ?have (sint b) (pc # pcs) (sint tot) t)"
  let ?n = "max 0 (min (sint (pcMinWarm pc) - ?have (pcName pc)) (sint b - sint tot))"
  have missing: "lwp (warmClasses (traced k) pool active b pcs tot True) ?G (l @ [ActGetDeviceClass (pcName pc) (Inl ErrNotFound)])"
    by (rule lwp_conseq [OF Cons.IH]) (auto dest: planned_cons_missing)
  have found: "lwp (tryE (warmLoop (traced k) pool dc (pcMinWarm pc) b (of_nat (length (classDevices active (pcName pc)))) tot)
      (\<lambda>tot'. warmClasses (traced k) pool active b pcs tot' miss)) ?G (l @ [ActGetDeviceClass (pcName pc) (Inr dc)])" for dc
  proof (rule lwp_tryE, rule lwp_conseq [OF warmLoop_lwp], elim exE conjE, goal_cases)
    case (1 r l1 u)
    show ?case
    proof (cases r)
      case (Inr tot')
      with 1(2) have u: "list_all (createsFor pool dc) u" "int (length u) = ?n" "sint tot' = sint tot + ?n"
        by (simp_all add: warmed_def)
      have "lwp (warmClasses (traced k) pool active b pcs tot' miss) ?G l1"
        unfolding 1(1)
      proof (rule lwp_conseq [OF Cons.IH], elim exE conjE, goal_cases)
        case (1 r' l2 t)
        then show ?case
          using planned_cons_warmed [where active = ?have and budget = "sint b" and tot = "sint tot" and pc = pc and pcs = pcs and t = t,
              OF refl u(1,2)] u(3) by (intro exI [of _ "ActGetDeviceClass (pcName pc) (Inr dc) # u @ t"]) simp
      qed
      with Inr show ?thesis by simp
    qed (use 1 in simp)
  qed
  show ?case unfolding warmClasses.simps traced_simps
  proof (rule lwp_bind, rule lwp_logged, goal_cases)
    case (1 r)
    show ?case
    proof (cases r)
      case (Inl e)
      then show ?thesis using missing by (cases e) (auto intro!: lwp_ret)
    next
      case (Inr dc)
      then show ?thesis using found [of dc] by simp
    qed
  qed
qed

subsection \<open>A whole run\<close>

interpretation any_call: write_policy "\<lambda>_ _. True"
  by unfold_locales simp

lemma obeys_any: "obeys (\<lambda>_ _. True) t"
  by (rule obeysI) simp

lemma reserveLoop_lwp:
  "lwp (reserveLoop (traced k) ns (concat (map snd (groupByClass ds))) pcs 0)
     (\<lambda>r l'. prefix l l' \<and> createdSpecs l' = createdSpecs l \<and> (\<forall>x. r = Inr x \<longrightarrow> reservedIn l' ns ds pcs x)) l"
proof (rule lwp_conseq [OF readingD [OF any_call.reading_reserveLoop [OF unclaimedSupply_group] obeys_any, unfolded within_def]])
  fix r l'
  assume *: "obeys (\<lambda>_ _. True) l' \<and> prefix l l' \<and> writesIn l' = writesIn l \<and>
    (\<forall>x. r = Inr x \<longrightarrow> (\<exists>y. reservedIn l' ns ds pcs y \<and> x = 0 + y))"
  then have "createdSpecs l' = createdSpecs l" using createdSpecs_writes [of l'] createdSpecs_writes [of l] by simp
  with * show "prefix l l' \<and> createdSpecs l' = createdSpecs l \<and> (\<forall>x. r = Inr x \<longrightarrow> reservedIn l' ns ds pcs x)" by auto
qed

lemma updatePoolStatus_lwp:
  "lwp (updatePoolStatus (traced k) pool miss) (\<lambda>r l'. \<exists>u. l' = l @ u \<and> createdSpecs u = []) l"
  unfolding updatePoolStatus_def
  by (auto intro!: lwp_intro simp: createdSpecs_def split: sum.split)

definition followedPlan :: "DevicePool \<Rightarrow> action list \<Rightarrow> bool" where
  "followedPlan pool l \<longleftrightarrow> (\<exists>ds res h t u. l = h @ t @ u \<and> createdSpecs h = [] \<and> createdSpecs u = [] \<and>
     ActListDevices (mNamespace (poolMeta pool)) [(LabelPool, mName (poolMeta pool))] (Inr ds) \<in> set h \<and>
     reservedIn h (mNamespace (poolMeta pool)) ds (dpsClasses (poolSpec pool)) res \<and>
     planned pool (\<lambda>c. sint (of_nat (length (activeOf c ds)) :: int32)) (sint (dpsMaxConcurrent (poolSpec pool) - res))
       (dpsClasses (poolSpec pool)) (sint (of_nat (length (activeDevices ds)) :: int32)) t)"

lemma followed_after_reserve:
  assumes l: "ActListDevices (mNamespace (poolMeta pool)) [(LabelPool, mName (poolMeta pool))] (Inr ds) \<in> set l" "createdSpecs l = []"
      "reservedIn l (mNamespace (poolMeta pool)) ds (dpsClasses (poolSpec pool)) res"
  shows "lwp (tryE (warmClasses (traced k) pool (groupByClass ds) (dpsMaxConcurrent (poolSpec pool) - res) (dpsClasses (poolSpec pool))
        (of_nat (length (activeDevices ds))) False)
      (\<lambda>miss. tryE (updatePoolStatus (traced k) pool miss) (\<lambda>_. ret (Inr emptyResult))))
    (\<lambda>r l'. prefix l l' \<and> (\<forall>x. r = Inr x \<longrightarrow> followedPlan pool l')) l"
proof (rule lwp_tryE, rule lwp_conseq [OF warmClasses_lwp], elim exE conjE, goal_cases)
  case (1 r l1 t)
  show ?case
  proof (cases r)
    case (Inr miss)
    with 1(2) have plan: "planned pool (\<lambda>c. sint (of_nat (length (activeOf c ds)) :: int32)) (sint (dpsMaxConcurrent (poolSpec pool) - res))
       (dpsClasses (poolSpec pool)) (sint (of_nat (length (activeDevices ds)) :: int32)) t"
      by (simp add: classDevices_group)
    have followed: "followedPlan pool (l @ t @ u)" if "createdSpecs u = []" for u
      unfolding followedPlan_def
      by (rule exI [of _ ds], rule exI [of _ res], rule exI [of _ l], rule exI [of _ t], rule exI [of _ u]) (simp add: l plan that)
    have "lwp (tryE (updatePoolStatus (traced k) pool miss) (\<lambda>_. ret (Inr emptyResult)))
        (\<lambda>r l'. prefix l l' \<and> (\<forall>x. r = Inr x \<longrightarrow> followedPlan pool l')) l1"
    proof (rule lwp_tryE, rule lwp_conseq [OF updatePoolStatus_lwp], elim exE conjE, goal_cases)
      case (1 r2 l2 u)
      have "l2 = l @ t @ u" using 1(1) \<open>l1 = l @ t\<close> by simp
      with followed [OF 1(2)] show ?case by (cases r2) (simp_all add: lwp_ret)
    qed
    with Inr show ?thesis by simp
  qed (use 1(1) in simp)
qed

lemma poolReconcile_lwp:
  "lwp (poolReconcile (traced k) key) (\<lambda>r l. \<forall>x pool. r = Inr x \<longrightarrow> poolRead l = Some pool \<longrightarrow> followedPlan pool l) []"
  unfolding poolReconcile_def traced_simps
proof (rule lwp_bind, rule lwp_logged, goal_cases)
  case (1 r)
  let ?Q = "\<lambda>r l. \<forall>x pool. r = Inr x \<longrightarrow> poolRead l = Some pool \<longrightarrow> followedPlan pool l"
  show ?case
  proof (cases r)
    case (Inl e)
    then show ?thesis by (cases e) (auto intro!: lwp_ret simp: poolRead_def)
  next
    case (Inr pool)
    let ?ns = "mNamespace (poolMeta pool)" and ?pcs = "dpsClasses (poolSpec pool)"
    define l1 where "l1 ds = [ActGetDevicePool key (Inr pool), ActListDevices ?ns [(LabelPool, mName (poolMeta pool))] (Inr ds)]" for ds
    have "lwp (tryE (reserveLoop (traced k) ?ns (concat (map snd (groupByClass ds))) ?pcs 0) (\<lambda>reserved.
        tryE (warmClasses (traced k) pool (groupByClass ds) (dpsMaxConcurrent (poolSpec pool) - reserved) ?pcs (of_nat (length (activeDevices ds))) False)
          (\<lambda>miss. tryE (updatePoolStatus (traced k) pool miss) (\<lambda>_. ret (Inr emptyResult))))) ?Q (l1 ds)" for ds
    proof (rule lwp_tryE, rule lwp_conseq [OF reserveLoop_lwp], elim conjE, goal_cases)
      case (1 r2 l2)
      show ?case
      proof (cases r2)
        case res: (Inr res)
        have "ActListDevices ?ns [(LabelPool, mName (poolMeta pool))] (Inr ds) \<in> set l2"
          using prefix_in [OF 1(1)] by (simp add: l1_def)
        moreover have "createdSpecs l2 = []" using 1(2) by (simp add: l1_def createdSpecs_def)
        moreover have read: "poolRead l = Some pool" if "prefix l2 l" for l
          using poolRead_mono [of "l1 ds" l pool] prefix_order.trans [OF 1(1) that] by (simp add: l1_def poolRead_def)
        ultimately have "lwp (tryE (warmClasses (traced k) pool (groupByClass ds) (dpsMaxConcurrent (poolSpec pool) - res) ?pcs (of_nat (length (activeDevices ds))) False)
          (\<lambda>miss. tryE (updatePoolStatus (traced k) pool miss) (\<lambda>_. ret (Inr emptyResult)))) ?Q l2"
          by (intro lwp_conseq [OF followed_after_reserve]) (use 1(3) res in auto)
        with res show ?thesis by simp
      qed simp
    qed
    then show ?thesis unfolding Inr
      by (auto simp: activeDevicesByClass_def totalDevices_group Let_def l1_def intro!: lwp_intro split: sum.split)
  qed
qed

lemma budget_of_shortages:
  assumes "listedWithin b h" and "b < 2 ^ 31" and "length ds < 2 ^ 31" and "validPoolSpec s" and "int (length (dpsClasses s)) * b < 2 ^ 31"
    and "reservedIn h ns ds (dpsClasses s) res"
  obtains lss where "list_all2 (\<lambda>pc ls. ActListDeviceLeases ns (Inr ls) \<in> set h) (dpsClasses s) lss"
    and "sint (dpsMaxConcurrent s - res) = sint (dpsMaxConcurrent s) - int (sum_list (map2 (\<lambda>pc ls. shortage ds (pcName pc) ls) (dpsClasses s) lss))"
proof -
  from assms(6) obtain lss where lss: "list_all2 (\<lambda>pc ls. ActListDeviceLeases ns (Inr ls) \<in> set h) (dpsClasses s) lss"
    and res: "res = sum_list (map2 (\<lambda>pc ls. shortfall ds (pcName pc) ls) (dpsClasses s) lss)" unfolding reservedIn_def by blast
  let ?n = "sum_list (map2 (\<lambda>pc ls. shortage ds (pcName pc) ls) (dpsClasses s) lss)"
  have n: "res = of_nat ?n" "int ?n < 2 ^ 31" using reserved_shortages [OF lss assms(1-3)] res assms(5) by auto
  have "sint (dpsMaxConcurrent s - res) = sint (dpsMaxConcurrent s) - int ?n"
    using assms(4) sint32_range [of "dpsMaxConcurrent s"] n by (subst sint32_diff) (auto simp: sint32_of_nat validPoolSpec_def)
  with lss show ?thesis by (rule that)
qed

text \<open>C19: A pool run that ends without an error creates exactly what the plan says: class by class in the
  order of the spec, as many devices of each class it found as are missing to \<open>minWarm\<close>, as far as
  \<open>maxConcurrent\<close> less the pool's active devices and less every class's shortage allows. The bound on
  list lengths keeps the 32-bit counters from wrapping.\<close>

theorem pool_run_follows_plan:
  assumes "resultOf (poolReconcile (traced k) key) w = Inr x" and "poolRead (traceOf (poolReconcile (traced k) key) w) = Some pool"
    and "listedWithin b (traceOf (poolReconcile (traced k) key) w)" and "b < 2 ^ 31"
    and "validPoolSpec (poolSpec pool)" and "int (length (dpsClasses (poolSpec pool))) * b < 2 ^ 31"
  shows "\<exists>ds lss found. ActListDevices (mNamespace (poolMeta pool)) [(LabelPool, mName (poolMeta pool))] (Inr ds) \<in> set (traceOf (poolReconcile (traced k) key) w) \<and>
    list_all2 (\<lambda>pc ls. ActListDeviceLeases (mNamespace (poolMeta pool)) (Inr ls) \<in> set (traceOf (poolReconcile (traced k) key) w)) (dpsClasses (poolSpec pool)) lss \<and>
    list_all2 (sawClass (traceOf (poolReconcile (traced k) key) w)) (dpsClasses (poolSpec pool)) found \<and>
    createdSpecs (traceOf (poolReconcile (traced k) key) w) = map (\<lambda>dc. devSpec (newPoolDevice pool dc))
      (warmPlan (sint (dpsMaxConcurrent (poolSpec pool)) - int (sum_list (map2 (\<lambda>pc ls. shortage ds (pcName pc) ls) (dpsClasses (poolSpec pool)) lss)))
        (\<lambda>c. int (length (activeOf c ds))) (zip (dpsClasses (poolSpec pool)) found) (int (length (activeDevices ds))))"
proof -
  let ?t = "traceOf (poolReconcile (traced k) key) w" and ?ns = "mNamespace (poolMeta pool)" and ?pcs = "dpsClasses (poolSpec pool)"
  have "followedPlan pool ?t" using lwp_trace [OF poolReconcile_lwp [of k key], of w] assms(1,2) by blast
  then obtain ds res h t u where t: "?t = h @ t @ u" "createdSpecs h = []" "createdSpecs u = []"
    and ds: "ActListDevices ?ns [(LabelPool, mName (poolMeta pool))] (Inr ds) \<in> set h" and res: "reservedIn h ?ns ds ?pcs res"
    and plan: "planned pool (\<lambda>c. sint (of_nat (length (activeOf c ds)) :: int32)) (sint (dpsMaxConcurrent (poolSpec pool) - res)) ?pcs
      (sint (of_nat (length (activeDevices ds)) :: int32)) t"
    unfolding followedPlan_def by blast
  have h: "listedWithin b h" using assms(3) unfolding t(1) by (rule listedWithin_prefix)
  have len: "length ds < 2 ^ 31" using listedWithinD(1) [OF h ds] assms(4) by (rule nat_below)
  have count: "sint (of_nat (length (activeOf c ds)) :: int32) = int (length (activeOf c ds))"
    "sint (of_nat (length (activeDevices ds)) :: int32) = int (length (activeDevices ds))" for c
    using le_less_trans [OF length_filter_le len] by (simp_all add: activeOf_def activeDevices_filter sint32_of_nat)
  obtain lss where lss: "list_all2 (\<lambda>pc ls. ActListDeviceLeases ?ns (Inr ls) \<in> set h) ?pcs lss"
    and budget: "sint (dpsMaxConcurrent (poolSpec pool) - res) = sint (dpsMaxConcurrent (poolSpec pool)) - int (sum_list (map2 (\<lambda>pc ls. shortage ds (pcName pc) ls) ?pcs lss))"
    by (rule budget_of_shortages [OF h assms(4) len assms(5,6) res])
  obtain found where found: "list_all2 (sawClass t) ?pcs found"
    "createdSpecs t = map (\<lambda>dc. devSpec (newPoolDevice pool dc)) (warmPlan (sint (dpsMaxConcurrent (poolSpec pool) - res))
        (\<lambda>c. int (length (activeOf c ds))) (zip ?pcs found) (int (length (activeDevices ds))))"
    using plan unfolding planned_def count by blast
  have "list_all2 (sawClass ?t) ?pcs found" using found(1) by (rule list_all2_mono) (auto simp: sawClass_def t(1))
  moreover have "list_all2 (\<lambda>pc ls. ActListDeviceLeases ?ns (Inr ls) \<in> set ?t) ?pcs lss"
    using lss by (rule list_all2_mono) (auto simp: t(1))
  moreover have "createdSpecs ?t = createdSpecs t" using t by simp
  moreover have "ActListDevices ?ns [(LabelPool, mName (poolMeta pool))] (Inr ds) \<in> set ?t" using ds t(1) by simp
  ultimately show ?thesis
    by (intro exI [of _ ds] exI [of _ lss] exI [of _ found]) (simp add: found(2) budget)
qed

definition demoWarm :: cluster where
  \<comment> \<open>two classes to warm, a device of one there already, a lease waiting for the other\<close>
  "demoWarm = demoCluster (demoPool 4 [(''pixel'', 2), (''tablet'', 3)]) [demoDevice ''d1'' ''pixel'' DeviceReady []]
     [demoLease ''l1'' ''tablet'' LeasePending [] None]"

lemma pool_run_follows_plan_witness:
  "map dsClassRef (createdSpecs (traceOf (poolReconcile (traced mem) (''ns'', ''pool'')) demoWarm)) = [''pixel'', ''tablet''] \<and>
   (\<exists>(pool :: DevicePool) ds lss found. map dsClassRef (createdSpecs (traceOf (poolReconcile (traced mem) (''ns'', ''pool'')) demoWarm)) =
      map (\<lambda>dc. dsClassRef (devSpec (newPoolDevice pool dc)))
        (warmPlan (sint (dpsMaxConcurrent (poolSpec pool)) - int (sum_list (map2 (\<lambda>pc ls. shortage ds (pcName pc) ls) (dpsClasses (poolSpec pool)) lss)))
        (\<lambda>c. int (length (activeOf c ds))) (zip (dpsClasses (poolSpec pool)) found) (int (length (activeDevices ds)))))"
proof
  let ?t = "traceOf (poolReconcile (traced mem) (''ns'', ''pool'')) demoWarm"
  show "map dsClassRef (createdSpecs ?t) = [''pixel'', ''tablet'']" by code_simp
  have "case resultOf (poolReconcile (traced mem) (''ns'', ''pool'')) demoWarm of Inl _ \<Rightarrow> False | Inr _ \<Rightarrow> True" by code_simp
  then obtain x where x: "resultOf (poolReconcile (traced mem) (''ns'', ''pool'')) demoWarm = Inr x" by (auto split: sum.splits)
  have "case poolRead ?t of None \<Rightarrow> False | Some p \<Rightarrow> validPoolSpec (poolSpec p) \<and> int (length (dpsClasses (poolSpec p))) * 10 < 2 ^ 31" by code_simp
  then obtain pool where pool: "poolRead ?t = Some pool" "validPoolSpec (poolSpec pool)" "int (length (dpsClasses (poolSpec pool))) * 10 < 2 ^ 31"
    by (auto split: option.splits)
  have short: "listedWithin 10 ?t" by code_simp
  from pool_run_follows_plan [OF x pool(1) short _ pool(2,3)] obtain ds lss found where
    "createdSpecs ?t = map (\<lambda>dc. devSpec (newPoolDevice pool dc))
      (warmPlan (sint (dpsMaxConcurrent (poolSpec pool)) - int (sum_list (map2 (\<lambda>pc ls. shortage ds (pcName pc) ls) (dpsClasses (poolSpec pool)) lss)))
        (\<lambda>c. int (length (activeOf c ds))) (zip (dpsClasses (poolSpec pool)) found) (int (length (activeDevices ds))))" by auto
  then show "\<exists>(pool :: DevicePool) ds lss found. map dsClassRef (createdSpecs ?t) =
      map (\<lambda>dc. dsClassRef (devSpec (newPoolDevice pool dc)))
        (warmPlan (sint (dpsMaxConcurrent (poolSpec pool)) - int (sum_list (map2 (\<lambda>pc ls. shortage ds (pcName pc) ls) (dpsClasses (poolSpec pool)) lss)))
        (\<lambda>c. int (length (activeOf c ds))) (zip (dpsClasses (poolSpec pool)) found) (int (length (activeDevices ds))))"
    by (intro exI [of _ pool] exI [of _ ds] exI [of _ lss] exI [of _ found]) simp
qed

end
