(* ===== verification/Hazards.thy ===== *)
theory Hazards
  imports Convergence
begin

text \<open>
  Where the lease controller's recycling stops short. A release clears the device's \<open>leaseRef\<close> before it
  deletes the pod and before the lease is written, so an error in between leaves a Bound lease that no device
  carries; and as later runs find the device to recycle by that field alone, none of them deletes the pod.
\<close>

subsection \<open>A server that fails to delete pods\<close>

definition withoutPodDelete :: "goError \<Rightarrow> 'w kube \<Rightarrow> 'w kube" where
  "withoutPodDelete e k = k\<lparr>apiDeletePod := (\<lambda>_. ret (Inl e))\<rparr>"

lemma withoutPodDelete_simps [simp]:
  "apiDeletePod (withoutPodDelete e k) = (\<lambda>_. ret (Inl e))"
  "clockNow (withoutPodDelete e k) = clockNow k" "apiUpdateDeviceStatus (withoutPodDelete e k) = apiUpdateDeviceStatus k"
  "apiGetDeviceLease (withoutPodDelete e k) = apiGetDeviceLease k" "apiListDevices (withoutPodDelete e k) = apiListDevices k"
  "containsFinalizer (withoutPodDelete e k) = containsFinalizer k"
  by (simp_all add: withoutPodDelete_def)

context api_server
begin

lemma failed_release:
  assumes keys: "distinct (map (\<lambda>d. keyOf (devMeta d)) (devs w))" and once: "heldOnce (devs w) le" and has: "\<not> lettingGo (devs w) le"
    and e: "e \<noteq> ErrNotFound"
  shows "\<exists>w'. run_state (releaseDevice (withoutPodDelete e k) le) w = (Inl e, w') \<and> leases w' = leases w \<and> lettingGo (devs w') le"
proof -
  have bound: "deviceBoundTo (withoutPodDelete e' k) le = deviceBoundTo k le" for e' by (simp add: deviceBoundTo_def)
  obtain d where find: "find (\<lambda>d. devLeaseRef d = leaseName le) (filter (\<lambda>d. devNamespace d = leaseNamespace le) (devs w)) = Some d"
    using has by (cases "find (\<lambda>d. devLeaseRef d = leaseName le) (filter (\<lambda>d. devNamespace d = leaseNamespace le) (devs w))")
      (auto simp: lettingGo_def find_None_iff)
  then have d: "d \<in> set (devs w)" "devNamespace d = leaseNamespace le" "devLeaseRef d = leaseName le"
    by (auto dest: find_SomeD)
  obtain now where now: "run_state (clockNow k) w = (now, w)" using clock by blast
  obtain y w1 where "run_state (apiUpdateDeviceStatus k (releasedDevice now d)) w = (Inr y, w1)" "leases w1 = leases w" "lettingGo (devs w1) le"
    using freed_device [OF keys once d] by blast
  then show ?thesis using find now e by (cases e) (simp_all add: releaseDevice_def bound run_deviceBoundTo)
qed

lemma failed_expiry:
  assumes "storedIn (leases w) le" and "ltLastHeartbeat (leaseStatus le) = Some hb"
    and "run_state (clockNow k) w = (now, w)" and "timeAdd hb (ttlDuration le) < now"
    and "distinct (map (\<lambda>d. keyOf (devMeta d)) (devs w))" and "heldOnce (devs w) le" and "\<not> lettingGo (devs w) le" and "e \<noteq> ErrNotFound"
  shows "\<exists>w'. run_state (reconcileBound (withoutPodDelete e k) le) w = (Inl e, w') \<and> leases w' = leases w \<and> lettingGo (devs w') le"
proof -
  have same: "withHeartbeat hb le = le" using assms(2) by (simp add: withHeartbeat_def)
  show ?thesis using failed_release [OF assms(5-8)] assms(2-4)
    by (auto simp: reconcileBound_def heartbeatOrNow_def same Let_def)
qed

end

subsection \<open>What it leaves behind\<close>

text \<open>C36: A run for an expired Bound lease whose device's pod cannot be deleted ends with that error and
  leaves the lease stored as it was, Bound to the device it names, while no device of the namespace carries its
  name any more: the device is free for another lease.\<close>

theorem failed_recycle_strands_lease:
  assumes "api_server k devs leases" and "getObj leaseMeta key (leases w) = Inr le" and "\<not> leaseTerminating le"
    and "leaseFinalizer \<in> set (mFinalizers (leaseMeta le))" and "leasePhase le = LeaseBound"
    and "ltLastHeartbeat (leaseStatus le) = Some hb" and "run_state (clockNow k) w = (now, w)"
    and "hb + sint (lsTTLSeconds (leaseSpec le)) * 1000000000 < now"
    and "distinct (map (\<lambda>d. keyOf (devMeta d)) (devs w))" and "heldOnce (devs w) le" and "\<not> lettingGo (devs w) le" and "e \<noteq> ErrNotFound"
  shows "\<exists>w'. run_state (leaseReconcile (withoutPodDelete e k) key) w = (Inl e, w') \<and>
    getObj leaseMeta key (leases w') = Inr le \<and> lettingGo (devs w') le"
proof -
  have "timeAdd hb (ttlDuration le) < now" using assms(8) by (simp add: timeAdd_def sint_ttlDuration)
  from api_server.failed_expiry [OF assms(1) _ assms(6,7) this assms(9-12)] obtain w' where
    "run_state (reconcileBound (withoutPodDelete e k) le) w = (Inl e, w')" "leases w' = leases w" "lettingGo (devs w') le"
    using api_server.stored_key [OF assms(1,2)] by blast
  moreover have "run_state (leaseReconcile (withoutPodDelete e k) key) w = run_state (reconcileBound (withoutPodDelete e k) le) w"
    using assms(2-5) by (simp add: leaseReconcile_def api_server.get_lease [OF assms(1)] api_server.finalizer_list(1) [OF assms(1)])
  ultimately show ?thesis using assms(2) by auto
qed

text \<open>C40: No run of the lease controller deletes a pod unless a device it read still carried the lease's name:
  once a release has cleared that field and failed to delete the pod, no later run for the lease deletes it.\<close>

theorem failed_recycle_never_retried:
  assumes "leaseRead (traceOf (leaseReconcile (traced k) key) w) = Some le"
    and "\<forall>d \<in> set (served (traceOf (leaseReconcile (traced k) key) w)). devLeaseRef d \<noteq> leaseName le"
  shows "ActDeletePod pod r \<notin> set (traceOf (leaseReconcile (traced k) key) w)"
proof
  assume "ActDeletePod pod r \<in> set (traceOf (leaseReconcile (traced k) key) w)"
  then obtain h t where split: "traceOf (leaseReconcile (traced k) key) w = h @ ActDeletePod pod r # t" by (meson split_list)
  obtain le' where le': "leaseRead h = Some le'" and may: "mayRecycle h le' pod" using lease_write [OF split] by auto
  have "le' = le" using leaseRead_of_trace [OF split le'] assms(1) by simp
  then obtain d where "d \<in> set (served h)" "devLeaseRef d = leaseName le" using may by (auto simp: mayRecycle_def freedBy_def)
  then show False using assms(2) by (simp add: split)
qed

subsection \<open>Witnesses\<close>

lemma failed_recycle_strands_lease_witness:
  "\<exists>c' le. run_state (leaseReconcile (withoutPodDelete (ErrOther ''timeout'') mem) (''ns'', ''l1'')) demoExpired = (Inl (ErrOther ''timeout''), c') \<and>
     getObj leaseMeta (''ns'', ''l1'') (clLeases c') = Inr le \<and> leasePhase le = LeaseBound \<and> lettingGo (clDevices c') le"
proof -
  obtain le where le: "getObj leaseMeta (''ns'', ''l1'') (clLeases demoExpired) = Inr le" "\<not> leaseTerminating le"
    "leaseFinalizer \<in> set (mFinalizers (leaseMeta le))" "leasePhase le = LeaseBound"
    and hb: "ltLastHeartbeat (leaseStatus le) = Some 600000000000" "sint (lsTTLSeconds (leaseSpec le)) = 300"
    and held: "heldOnce (clDevices demoExpired) le"
    by (simp add: getObj_def hasKey_def heldOnce_def leaseFinalizer_def demoExpired_def demo_defs)
  have "keyOf (leaseMeta le) = (''ns'', ''l1'')" using getObj_key [OF le(1)] by simp
  then have own: "\<not> lettingGo (clDevices demoExpired) le" by (simp add: lettingGo_def keyOf_def demoExpired_def demo_defs)
  have now: "run_state (clockNow mem) demoExpired = (1000000000000, demoExpired)"
    by (simp add: mem_def reads_def demoExpired_def demoCluster_def)
  have keys: "distinct (map (\<lambda>d. keyOf (devMeta d)) (clDevices demoExpired))"
    by (simp add: keyOf_def demoExpired_def demo_defs)
  have ttl: "600000000000 + sint (lsTTLSeconds (leaseSpec le)) * 1000000000 < 1000000000000" by (simp add: hb(2))
  from failed_recycle_strands_lease [OF mem_server.api_server_axioms le hb(1) now ttl keys held own, of "ErrOther ''timeout''"] le(4)
  show ?thesis by auto
qed

definition demoStranded :: cluster where
  \<comment> \<open>after the run that failed to delete the pod\<close>
  "demoStranded = snd (run_state (leaseReconcile (withoutPodDelete (ErrOther ''timeout'') mem) (''ns'', ''l1'')) demoExpired)"

lemma failed_recycle_never_retried_witness:
  "\<exists>le. leaseRead (traceOf (leaseReconcile (traced mem) (''ns'', ''l1'')) demoStranded) = Some le \<and> leasePhase le = LeaseBound \<and>
     (\<forall>pod r. ActDeletePod pod r \<notin> set (traceOf (leaseReconcile (traced mem) (''ns'', ''l1'')) demoStranded))"
proof -
  let ?t = "traceOf (leaseReconcile (traced mem) (''ns'', ''l1'')) demoStranded"
  have "map_option (\<lambda>le. (leasePhase le, leaseName le)) (leaseRead ?t) = Some (LeaseBound, ''l1'') \<and> list_all (\<lambda>d. devLeaseRef d \<noteq> ''l1'') (served ?t)"
    by code_simp
  then obtain le where le: "leaseRead ?t = Some le" "leasePhase le = LeaseBound" and none: "\<forall>d \<in> set (served ?t). devLeaseRef d \<noteq> leaseName le"
    by (auto simp: list_all_iff)
  from failed_recycle_never_retried [OF le(1) none] le show ?thesis by blast
qed

end
