(* ===== verification/Wiring.thy ===== *)
theory Wiring
  imports Lease_Properties Device_Properties Pool_Properties
begin

text \<open>
  Which events wake which controller: the three \<open>SetupWithManager\<close> functions as the builder
  calls they make, with the two map functions \<open>leasesForDevice\<close> and \<open>poolsForLease\<close>, and the
  requests an event leads to. How the builder's \<open>For\<close>, \<open>Owns\<close> and \<open>Watches\<close> turn an event into
  requests is code of controller-runtime: the contract \<open>event_handlers\<close> states what is documented of it
  (\<open>Owns\<close> wakes the owner that is the controller of the object, if it is of the type the builder is \<open>For\<close>),
  and \<open>requestsFor\<close> is a reference instance of it.
\<close>

subsection \<open>SetupWithManager\<close>

datatype kind = KindDevice | KindDeviceClass | KindDevicePool | KindDeviceLease | KindPod | KindService | KindJob

record 'w builder =
  bFor :: kind
  bOwns :: "kind list"
  bWatches :: "(kind \<times> (objectMeta \<Rightarrow> ('w, objectKey list) state)) list"
  bNamed :: string

definition deviceBuilder :: "'w builder" where
  "deviceBuilder = \<lparr> bFor = KindDevice, bOwns = [KindPod, KindService, KindJob], bWatches = [], bNamed = ''device'' \<rparr>"

definition leaseBuilder :: "'w kube \<Rightarrow> 'w builder" where
  "leaseBuilder k = \<lparr> bFor = KindDeviceLease, bOwns = [], bWatches = [(KindDevice, leasesForDevice k)],
     bNamed = ''devicelease'' \<rparr>"

definition poolBuilder :: "'w kube \<Rightarrow> 'w builder" where
  "poolBuilder k = \<lparr> bFor = KindDevicePool, bOwns = [KindDevice], bWatches = [(KindDeviceLease, poolsForLease k)],
     bNamed = ''devicepool'' \<rparr>"

subsection \<open>The requests of an event\<close>

definition kindName :: "kind \<Rightarrow> string" where
  "kindName x = (case x of KindDevice \<Rightarrow> ''Device'' | KindDeviceClass \<Rightarrow> ''DeviceClass'' | KindDevicePool \<Rightarrow> ''DevicePool''
     | KindDeviceLease \<Rightarrow> ''DeviceLease'' | KindPod \<Rightarrow> ''Pod'' | KindService \<Rightarrow> ''Service'' | KindJob \<Rightarrow> ''Job'')"

definition ownerKey :: "kind \<Rightarrow> objectMeta \<Rightarrow> objectKey option" where
  \<comment> \<open>the controller owner of the object, if it is of the kind and of the API of the farm\<close>
  "ownerKey owner obj =
     (case controllerOf obj of
        Some r \<Rightarrow> if orKind r = kindName owner \<and> orAPIVersion r = farmAPIVersion then Some (mNamespace obj, orName r) else None
      | None \<Rightarrow> None)"

text \<open>The contract: \<open>wakes b x obj\<close> are the requests that an event on an object of kind \<open>x\<close> puts into the queue of
  the controller built by \<open>b\<close>.\<close>

locale event_handlers =
  fixes wakes :: "'w builder \<Rightarrow> kind \<Rightarrow> objectMeta \<Rightarrow> ('w, objectKey list) state"
  assumes wakes_for: "bFor b = x \<Longrightarrow> run_state (wakes b x obj) w = (rs, w') \<Longrightarrow> keyOf obj \<in> set rs"
    and wakes_owner: "x \<in> set (bOwns b) \<Longrightarrow> ownerKey (bFor b) obj = Some key \<Longrightarrow> run_state (wakes b x obj) w = (rs, w') \<Longrightarrow> key \<in> set rs"

fun watchRequests :: "(kind \<times> (objectMeta \<Rightarrow> ('w, objectKey list) state)) list \<Rightarrow> kind \<Rightarrow> objectMeta \<Rightarrow> ('w, objectKey list) state" where
  "watchRequests [] x obj = ret []"
| "watchRequests ((y, f) # ws) x obj =
     (if y = x then do {
        rs \<leftarrow> f obj;
        rs' \<leftarrow> watchRequests ws x obj;
        ret (rs @ rs')
      } else watchRequests ws x obj)"

definition requestsFor :: "'w builder \<Rightarrow> kind \<Rightarrow> objectMeta \<Rightarrow> ('w, objectKey list) state" where
  \<comment> \<open>an event on an object of kind \<open>x\<close>: its own key, its owners', and those the map functions give\<close>
  "requestsFor b x obj = do {
     rs \<leftarrow> watchRequests (bWatches b) x obj;
     ret ((if x = bFor b then [keyOf obj] else []) @ (if x \<in> set (bOwns b) then List.map_filter (\<lambda>_. ownerKey (bFor b) obj) [()] else []) @ rs)
   }"

abbreviation wokenBy :: "'w builder \<Rightarrow> kind \<Rightarrow> objectMeta \<Rightarrow> 'w \<Rightarrow> objectKey list" where
  "wokenBy b x obj w \<equiv> fst (run_state (requestsFor b x obj) w)"

lemmas builder_defs = deviceBuilder_def leaseBuilder_def poolBuilder_def

interpretation reference_events: event_handlers requestsFor
  by unfold_locales (auto simp: requestsFor_def List.map_filter_def split: prod.splits)

subsection \<open>Controllers are woken by what they create\<close>

context owner_references
begin

lemma owner_woken:
  "setref (kindName x) owner m = Inr m' \<Longrightarrow> mNamespace m = mNamespace owner \<Longrightarrow> ownerKey x m' = Some (keyOf owner)"
  using sets_controller [of "kindName x" owner m m'] keeps_key [of "kindName x" owner m m']
  by (simp add: ownerKey_def keyOf_def)

end

fun createdFor :: "action \<Rightarrow> (kind \<times> objectMeta) option" where
  \<comment> \<open>the object a call creates\<close>
  "createdFor (ActCreatePod p _) = Some (KindPod, podMeta p)"
| "createdFor (ActCreateService s _) = Some (KindService, svcMeta s)"
| "createdFor (ActCreateJob j _) = Some (KindJob, jobMeta j)"
| "createdFor (ActCreateDevice d _) = Some (KindDevice, devMeta d)"
| "createdFor _ = None"

lemma createdMetas [simp]:
  "podMeta (setPodMeta m p) = m" "svcMeta (setServiceMeta m s) = m" "jobMeta (setJobMeta m j) = m" "devMeta (setDeviceMeta m d) = m"
  "mNamespace (podMeta (buildPod dev dc)) = devNamespace dev" "mNamespace (svcMeta (adbService dev)) = devNamespace dev"
  "mNamespace (jobMeta (registrationJob dev host adb)) = devNamespace dev"
  "mNamespace (devMeta (newPoolDevice pool dc)) = mNamespace (poolMeta pool)"
  by (simp_all add: setPodMeta_def setServiceMeta_def setJobMeta_def setDeviceMeta_def buildPod_def adbService_def
      registrationJob_def newPoolDevice_def emptyMeta_def Let_def)

text \<open>C31: Whatever the Device controller creates (pod, Service, registration Job) has the device it was
  created for as its controller owner, so that every later event on it wakes the controller for that device,
  whatever library turns events into requests the documented way.\<close>

theorem device_woken_by_what_it_creates:
  assumes "event_handlers wakes" and "owner_references (setControllerReference k)" and "createdFor a = Some (x, m)"
    and "a \<in> set (traceOf (deviceReconcile (traced k) key) w)"
  shows "\<exists>dev. deviceRead (traceOf (deviceReconcile (traced k) key) w) = Some dev \<and>
    keyOf (devMeta dev) \<in> set (fst (run_state (wakes deviceBuilder x m) v))"
proof -
  note owner = owner_references.owner_woken [OF assms(2), of KindDevice, unfolded kindName_def kind.case]
  obtain h t where t: "traceOf (deviceReconcile (traced k) key) w = h @ a # t" using assms(4) by (meson split_list)
  have "\<not> isRead a" using assms(3) by (cases a) auto
  obtain dev where dev: "deviceRead (traceOf (deviceReconcile (traced k) key) w) = Some dev"
    and may: "case a of ActCreatePod p _ \<Rightarrow> mayBoot k h dev p | ActCreateService s _ \<Rightarrow> mayExpose k h dev s
            | ActCreateJob j _ \<Rightarrow> mayRegister k h dev j | ActCreateDevice _ _ \<Rightarrow> False | _ \<Rightarrow> True"
    by (rule device_write [OF t \<open>\<not> isRead a\<close>]) (simp split: action.splits)
  have "x \<in> {KindPod, KindService, KindJob} \<and>
    (\<exists>m0. setControllerReference k ''Device'' (devMeta dev) m0 = Inr m \<and> mNamespace m0 = devNamespace dev)"
    using may assms(3) by (simp add: mayBoot_def mayExpose_def mayRegister_def split: action.splits) force+
  then have "x \<in> set (bOwns deviceBuilder)" "ownerKey (bFor deviceBuilder) m = Some (keyOf (devMeta dev))"
    using owner by (auto simp: deviceBuilder_def)
  from event_handlers.wakes_owner [OF assms(1) this] dev show ?thesis by (metis prod.collapse)
qed

definition demoNew :: cluster where
  \<comment> \<open>a Device no controller has seen yet\<close>
  "demoNew = demoCluster (demoPool 2 [(''pixel'', 1)]) [demoDevice ''d1'' ''pixel'' DevicePhaseUnset []] []"

lemma device_woken_by_what_it_creates_witness:
  "\<exists>m (dev :: Device). deviceRead (traceOf (deviceReconcile (traced mem) (''ns'', ''d1'')) demoNew) = Some dev \<and>
     keyOf (devMeta dev) \<in> set (wokenBy deviceBuilder KindPod m emptyCluster)"
proof -
  let ?t = "traceOf (deviceReconcile (traced mem) (''ns'', ''d1'')) demoNew"
  have "someCall createdFor (\<lambda>p. fst p = KindPod) ?t" by code_simp
  from someCall_split [OF this] obtain h a p t' where t: "?t = h @ a # t'" and p: "createdFor a = Some p" "fst p = KindPod" by blast
  have "a \<in> set ?t" unfolding t by simp
  moreover have m: "createdFor a = Some (KindPod, snd p)" using p by (cases p) simp
  ultimately show ?thesis using device_woken_by_what_it_creates [OF reference_events.event_handlers_axioms mem_owners.owner_references_axioms, where v = emptyCluster] by blast
qed

lemma pooled_device_wakes:
  assumes "event_handlers wakes" and "owner_references (setControllerReference k)"
    and "setControllerReference k ''DevicePool'' (poolMeta pool) (devMeta (newPoolDevice pool dc)) = Inr m"
  shows "keyOf (poolMeta pool) \<in> set (fst (run_state (wakes (poolBuilder k') KindDevice m) v))"
proof -
  have "KindDevice \<in> set (bOwns (poolBuilder k'))" "ownerKey (bFor (poolBuilder k')) m = Some (keyOf (poolMeta pool))"
    using owner_references.owner_woken [OF assms(2), of KindDevicePool, unfolded kindName_def kind.case, OF assms(3)] by (simp_all add: poolBuilder_def)
  from event_handlers.wakes_owner [OF assms(1) this] show ?thesis by (metis prod.collapse)
qed

text \<open>Every device created by the pool controller or, on demand, by the lease controller is owned by
  the pool it is provisioned from: its events wake the pool controller for that pool.\<close>

theorem pool_woken_by_its_devices:
  assumes "event_handlers wakes" and "owner_references (setControllerReference k)"
    and "ActCreateDevice d r \<in> set (traceOf (poolReconcile (traced k) key) w) \<or>
         ActCreateDevice d r \<in> set (traceOf (leaseReconcile (traced k) key) w)"
  shows "\<exists>pool dc. devSpec d = devSpec (newPoolDevice pool dc) \<and>
    keyOf (poolMeta pool) \<in> set (fst (run_state (wakes (poolBuilder k) KindDevice (devMeta d)) v))"
proof -
  have "\<exists>pool dc m. setControllerReference k ''DevicePool'' (poolMeta pool) (devMeta (newPoolDevice pool dc)) = Inr m \<and>
      d = setDeviceMeta m (newPoolDevice pool dc)"
    using assms(3)
  proof
    assume "ActCreateDevice d r \<in> set (traceOf (poolReconcile (traced k) key) w)"
    then obtain h t where "traceOf (poolReconcile (traced k) key) w = h @ ActCreateDevice d r # t" by (meson split_list)
    from pool_write [OF this] obtain pool where "mayFill k h pool d" by auto
    then show ?thesis unfolding mayFill_def by blast
  next
    assume "ActCreateDevice d r \<in> set (traceOf (leaseReconcile (traced k) key) w)"
    then obtain h t where "traceOf (leaseReconcile (traced k) key) w = h @ ActCreateDevice d r # t" by (meson split_list)
    from lease_write [OF this] obtain le where "mayProvision k h le d" by auto
    then show ?thesis unfolding mayProvision_def by blast
  qed
  then show ?thesis using pooled_device_wakes [OF assms(1,2)] by (fastforce simp: setDeviceMeta_def)
qed

lemma pool_woken_by_its_devices_witness:
  "\<exists>(d :: Device) (pool :: DevicePool). keyOf (poolMeta pool) \<in> set (wokenBy (poolBuilder mem) KindDevice (devMeta d) emptyCluster)"
proof -
  have "someCall deviceCreation (\<lambda>_. True) (traceOf (poolReconcile (traced mem) (''ns'', ''pool'')) (demoCluster (demoPool 2 [(''pixel'', 1)]) [] []))"
    by code_simp
  then obtain h x r t where "traceOf (poolReconcile (traced mem) (''ns'', ''pool'')) (demoCluster (demoPool 2 [(''pixel'', 1)]) [] []) =
      h @ ActCreateDevice x r # t" using some_deviceCreation by blast
  then have "ActCreateDevice x r \<in> set (traceOf (poolReconcile (traced mem) (''ns'', ''pool'')) (demoCluster (demoPool 2 [(''pixel'', 1)]) [] []))"
    by simp
  from pool_woken_by_its_devices [OF reference_events.event_handlers_axioms mem_owners.owner_references_axioms disjI1, OF this, where v = emptyCluster]
  show ?thesis by blast
qed

subsection \<open>Leases and devices wake each other's controllers\<close>

text \<open>An event on a device wakes exactly the leases of its namespace that wait for a device or are
  bound to that device, and an event on a lease wakes the lease itself and every pool of its
  namespace, as they are listed.\<close>

theorem events_wake_leases_and_pools:
  assumes "run_state (apiListDeviceLeases k (mNamespace obj)) w = (Inr ls, w')"
    and "run_state (apiListDevicePools k (mNamespace obj)) w = (Inr ps, w'')"
  shows "set (wokenBy (leaseBuilder k) KindDevice obj w) =
      {keyOf (leaseMeta l) | l. l \<in> set ls \<and> (leasePhase l = LeasePhaseUnset \<or> leasePhase l = LeasePending \<or> ltDeviceRef (leaseStatus l) = mName obj)} \<and>
    wokenBy (leaseBuilder k) KindDeviceLease obj w = [keyOf obj] \<and>
    wokenBy (poolBuilder k) KindDeviceLease obj w = map (\<lambda>p. keyOf (poolMeta p)) ps"
  using assms
  by (auto simp: requestsFor_def builder_defs leasesForDevice_def poolsForLease_def keyOf_def)

lemma events_wake_leases_and_pools_witness:
  "(''ns'', ''l1'') \<in> set (wokenBy (leaseBuilder mem) KindDevice (devMeta (demoDevice ''d1'' ''pixel'' DeviceReady [])) demoBind) \<and>
   wokenBy (poolBuilder mem) KindDeviceLease (leaseMeta (demoLease ''l1'' ''pixel'' LeasePending [] None)) demoBind = [(''ns'', ''pool'')]"
proof -
  let ?d = "devMeta (demoDevice ''d1'' ''pixel'' DeviceReady [])" and ?l = "leaseMeta (demoLease ''l1'' ''pixel'' LeasePending [] None)"
  have ls: "run_state (apiListDeviceLeases mem (mNamespace x)) demoBind = (Inr [demoLease ''l1'' ''pixel'' LeasePending [] None], demoBind)"
    and ps: "run_state (apiListDevicePools mem (mNamespace x)) demoBind = (Inr [demoPool 2 [(''pixel'', 1)]], demoBind)"
    if "mNamespace x = ''ns''" for x
    using that by (simp_all add: mem_def reads_def demoBind_def demoCluster_def demoLease_def demoPool_def emptyMeta_def)
  have ns: "mNamespace ?d = ''ns''" "mNamespace ?l = ''ns''" by (simp_all add: demoDevice_def demoLease_def)
  from events_wake_leases_and_pools [OF ls [OF ns(1)] ps [OF ns(1)]] events_wake_leases_and_pools [OF ls [OF ns(2)] ps [OF ns(2)]]
  show ?thesis by (simp add: keyOf_def) (simp add: demoLease_def demoPool_def)
qed

text \<open>An event on a DeviceClass wakes no controller: a device whose class does not exist is reported
  Failed and a pool that lists it skips it, both without asking to be run again, so neither notices
  when the class is created.\<close>

theorem class_event_wakes_nobody:
  "wokenBy deviceBuilder KindDeviceClass obj w = [] \<and> wokenBy (leaseBuilder k) KindDeviceClass obj w = [] \<and>
   wokenBy (poolBuilder k) KindDeviceClass obj w = [] \<and>
   (let c = demoCluster (demoPool 2 [(''watch'', 1)]) [demoDevice ''d1'' ''watch'' DevicePhaseUnset []] [];
        (r1, c1) = run_state (deviceReconcile mem (''ns'', ''d1'')) c;
        (r2, c2) = run_state (poolReconcile mem (''ns'', ''pool'')) c1
    in r1 = Inr emptyResult \<and> r2 = Inr emptyResult \<and>
       map (\<lambda>d. (devPhase d, map cReason (dtConditions (devStatus d)))) (clDevices c2) = [(DeviceFailed, [''DeviceClassNotFound''])] \<and>
       map (\<lambda>p. map cReason (dptConditions (poolStatus p))) (clPools c2) = [[''DeviceClassNotFound'']])"
proof -
  have "wokenBy deviceBuilder KindDeviceClass obj w = []" "wokenBy (leaseBuilder k) KindDeviceClass obj w = []"
    "wokenBy (poolBuilder k) KindDeviceClass obj w = []"
    by (simp_all add: requestsFor_def builder_defs)
  moreover have "let c = demoCluster (demoPool 2 [(''watch'', 1)]) [demoDevice ''d1'' ''watch'' DevicePhaseUnset []] [];
        (r1, c1) = run_state (deviceReconcile mem (''ns'', ''d1'')) c;
        (r2, c2) = run_state (poolReconcile mem (''ns'', ''pool'')) c1
    in r1 = Inr emptyResult \<and> r2 = Inr emptyResult \<and>
       map (\<lambda>d. (devPhase d, map cReason (dtConditions (devStatus d)))) (clDevices c2) = [(DeviceFailed, [''DeviceClassNotFound''])] \<and>
       map (\<lambda>p. map cReason (dptConditions (poolStatus p))) (clPools c2) = [[''DeviceClassNotFound'']]"
    by code_simp
  ultimately show ?thesis by blast
qed

end
