(* ===== verification/Operator.thy ===== *)
theory Operator
  imports Wiring
begin

text \<open>
  The operator's entry point, \<^verbatim>\<open>operator/cmd/main.go\<close>: what \<open>main\<close> makes of its flags (the options of
  the webhook server, of the metrics server and of the manager) and the sequence of steps that may
  fail. The flags arrive parsed; the manager of controller-runtime is a parameter, a record of the
  calls \<open>main\<close> makes; the certificate options of the two servers are a record of their own. The
  theorem says what each server's TLS configuration offers.
\<close>

subsection \<open>Flags and options\<close>

record operatorFlags =
  ofMetricsAddr :: string
  ofMetricsCertPath :: string
  ofMetricsCertName :: string
  ofMetricsCertKey :: string
  ofWebhookCertPath :: string
  ofWebhookCertName :: string
  ofWebhookCertKey :: string
  ofEnableLeaderElection :: bool
  ofProbeAddr :: string
  ofSecureMetrics :: bool
  ofEnableHTTP2 :: bool

definition defaultFlags :: operatorFlags where
  "defaultFlags = \<lparr> ofMetricsAddr = ''0'', ofMetricsCertPath = [], ofMetricsCertName = ''tls.crt'', ofMetricsCertKey = ''tls.key'',
     ofWebhookCertPath = [], ofWebhookCertName = ''tls.crt'', ofWebhookCertKey = ''tls.key'', ofEnableLeaderElection = False,
     ofProbeAddr = '':8081'', ofSecureMetrics = True, ofEnableHTTP2 = False \<rparr>"

record tlsConfig =
  NextProtos :: "string list"

type_synonym tlsOpt = "tlsConfig \<Rightarrow> tlsConfig"

definition disableHTTP2 :: tlsOpt where
  "disableHTTP2 c = c\<lparr>NextProtos := [''http/1.1'']\<rparr>"

definition tlsOpts :: "operatorFlags \<Rightarrow> tlsOpt list" where
  "tlsOpts fl = (if \<not> ofEnableHTTP2 fl then [disableHTTP2] else [])"

record webhookOptions =
  woTLSOpts :: "tlsOpt list"
  woCertDir :: string
  woCertName :: string
  woKeyName :: string

definition webhookServerOptions :: "operatorFlags \<Rightarrow> webhookOptions" where
  "webhookServerOptions fl =
     (let o0 = \<lparr> woTLSOpts = tlsOpts fl, woCertDir = [], woCertName = [], woKeyName = [] \<rparr> in
      if 0 < length (ofWebhookCertPath fl)
      then o0\<lparr>woCertDir := ofWebhookCertPath fl, woCertName := ofWebhookCertName fl, woKeyName := ofWebhookCertKey fl\<rparr>
      else o0)"

datatype filterProvider = WithAuthenticationAndAuthorization

record metricsOptions =
  moBindAddress :: string
  moSecureServing :: bool
  moTLSOpts :: "tlsOpt list"
  moFilterProvider :: "filterProvider option"
  moCertDir :: string
  moCertName :: string
  moKeyName :: string

definition metricsServerOptions :: "operatorFlags \<Rightarrow> metricsOptions" where
  "metricsServerOptions fl =
     (let o0 = \<lparr> moBindAddress = ofMetricsAddr fl, moSecureServing = ofSecureMetrics fl, moTLSOpts = tlsOpts fl,
                moFilterProvider = None, moCertDir = [], moCertName = [], moKeyName = [] \<rparr>;
          o1 = (if ofSecureMetrics fl then o0\<lparr>moFilterProvider := Some WithAuthenticationAndAuthorization\<rparr> else o0)
      in if 0 < length (ofMetricsCertPath fl)
         then o1\<lparr>moCertDir := ofMetricsCertPath fl, moCertName := ofMetricsCertName fl, moKeyName := ofMetricsCertKey fl\<rparr>
         else o1)"

record managerOptions =
  mgMetrics :: metricsOptions
  mgWebhookServer :: webhookOptions
  mgHealthProbeBindAddress :: string
  mgLeaderElection :: bool
  mgLeaderElectionID :: string

definition managerOptionsOf :: "operatorFlags \<Rightarrow> managerOptions" where
  "managerOptionsOf fl = \<lparr> mgMetrics = metricsServerOptions fl, mgWebhookServer = webhookServerOptions fl,
     mgHealthProbeBindAddress = ofProbeAddr fl, mgLeaderElection = ofEnableLeaderElection fl,
     mgLeaderElectionID = ''2580d846.example.com'' \<rparr>"

subsection \<open>Start-up\<close>

text \<open>The calls of controller-runtime that \<open>main\<close> makes: each may fail.\<close>

record 'w manager =
  mgrGetConfig :: "('w, goError option) state"  \<comment> \<open>\<open>ctrl.GetConfigOrDie\<close>: the loading of the configuration, before it exits on an error\<close>
  newManager :: "managerOptions \<Rightarrow> ('w, goError option) state"
  mgrClient :: "'w kube"
  complete :: "'w builder \<Rightarrow> ('w, goError option) state"
  addHealthzCheck :: "string \<Rightarrow> ('w, goError option) state"
  addReadyzCheck :: "string \<Rightarrow> ('w, goError option) state"
  startManager :: "('w, goError option) state"

datatype exit = Exited0 | Exited1 string goError  \<comment> \<open>status 1, with the message logged and its error\<close>

definition orExit :: "('w, goError option) state \<Rightarrow> string \<Rightarrow> ('w, exit) state \<Rightarrow> ('w, exit) state" where
  \<comment> \<open>\<^verbatim>\<open>if err := m; err != nil { setupLog.Error(err, msg); os.Exit(1) }\<close>, then the rest\<close>
  "orExit m msg rest = do {
     r \<leftarrow> m;
     (case r of Some e \<Rightarrow> ret (Exited1 msg e) | None \<Rightarrow> rest)
   }"

definition operatorMain :: "'w manager \<Rightarrow> operatorFlags \<Rightarrow> ('w, exit) state" where
  "operatorMain mgr fl =
     orExit (mgrGetConfig mgr) ''unable to get kubeconfig''
     (orExit (newManager mgr (managerOptionsOf fl)) ''Failed to start manager''
      (orExit (complete mgr (poolBuilder (mgrClient mgr))) ''Failed to create controller devicepool''
        (orExit (complete mgr deviceBuilder) ''Failed to create controller device''
          (orExit (complete mgr (leaseBuilder (mgrClient mgr))) ''Failed to create controller devicelease''
            (orExit (addHealthzCheck mgr ''healthz'') ''Failed to set up health check''
              (orExit (addReadyzCheck mgr ''readyz'') ''Failed to set up ready check''
                (orExit (startManager mgr) ''Failed to run manager'' (ret Exited0))))))))"

subsection \<open>What the servers offer\<close>

definition configured :: "tlsOpt list \<Rightarrow> tlsConfig \<Rightarrow> tlsConfig" where
  \<comment> \<open>a server applies its TLS options in order to its initial configuration\<close>
  "configured os c = foldl (\<lambda>c f. f c) c os"

text \<open>Unless HTTP/2 is enabled by its flag, both servers offer HTTP/1.1 alone, whatever their TLS
  configuration was; the metrics endpoint filters requests by authentication and authorisation exactly
  when it is served securely, and a server is given certificate files exactly when their directory is.\<close>

theorem servers_configured_by_flags:
  "NextProtos (configured (woTLSOpts (mgWebhookServer (managerOptionsOf fl))) c) = (if ofEnableHTTP2 fl then NextProtos c else [''http/1.1'']) \<and>
   NextProtos (configured (moTLSOpts (mgMetrics (managerOptionsOf fl))) c) = (if ofEnableHTTP2 fl then NextProtos c else [''http/1.1'']) \<and>
   moSecureServing (mgMetrics (managerOptionsOf fl)) = (moFilterProvider (mgMetrics (managerOptionsOf fl)) = Some WithAuthenticationAndAuthorization) \<and>
   (woCertDir (mgWebhookServer (managerOptionsOf fl)), woCertName (mgWebhookServer (managerOptionsOf fl))) =
     (if ofWebhookCertPath fl = [] then ([], []) else (ofWebhookCertPath fl, ofWebhookCertName fl)) \<and>
   (moCertDir (mgMetrics (managerOptionsOf fl)), moKeyName (mgMetrics (managerOptionsOf fl))) =
     (if ofMetricsCertPath fl = [] then ([], []) else (ofMetricsCertPath fl, ofMetricsCertKey fl)) \<and>
   NextProtos (configured (moTLSOpts (mgMetrics (managerOptionsOf defaultFlags))) c) = [''http/1.1'']"
  by (simp add: managerOptionsOf_def webhookServerOptions_def metricsServerOptions_def tlsOpts_def disableHTTP2_def
      configured_def defaultFlags_def Let_def)

end
