(* ===== verification/Registration.thy ===== *)
theory Registration
  imports Farmctl_Properties Operator
begin

text \<open>
  How the API types get known to a program: the package variables of
  \<^verbatim>\<open>operator/api/v1alpha1/groupversion_info.go\<close>, the \<open>init\<close> functions of the four files of types, which register their
  kinds with the scheme builder, the \<open>init\<close> of \<^verbatim>\<open>operator/cmd/main.go\<close>, which fills the operator's scheme, and
  \<open>newClient\<close> of \<^verbatim>\<open>client/main.go\<close>, which fills the client's. The scheme and its builder are library code: a record
  of operations, with what is documented of them in the locale \<open>scheme_library\<close>.
\<close>

subsection \<open>The package \<open>v1alpha1\<close>\<close>

record groupVersion =
  gvGroup :: string
  gvVersion :: string

type_synonym 's addFunc = "'s \<Rightarrow> goError option \<times> 's"  \<comment> \<open>\<^verbatim>\<open>func(*runtime.Scheme) error\<close>: the error, and the scheme as it is left\<close>

record ('s, 'b) schemeLib =
  NewScheme :: 's
  NewSchemeBuilder :: "'s addFunc list \<Rightarrow> 'b"
  builderRegister :: "'b \<Rightarrow> 's addFunc list \<Rightarrow> 'b"
  builderAddToScheme :: "'b \<Rightarrow> 's addFunc"
  AddToGroupVersion :: "'s \<Rightarrow> groupVersion \<Rightarrow> 's"
  AddKnownTypes :: "'s \<Rightarrow> groupVersion \<Rightarrow> string list \<Rightarrow> 's"  \<comment> \<open>the types by the names of their kinds\<close>
  clientgoAddToScheme :: "'s addFunc"

definition SchemeGroupVersion :: groupVersion where
  "SchemeGroupVersion = \<lparr> gvGroup = ''farm.example.com'', gvVersion = ''v1alpha1'' \<rparr>"

definition GroupVersion :: groupVersion where "GroupVersion = SchemeGroupVersion"

definition SchemeBuilder0 :: "('s, 'b) schemeLib \<Rightarrow> 'b" where
  \<comment> \<open>the variable \<open>SchemeBuilder\<close> as it is initialised\<close>
  "SchemeBuilder0 lib = NewSchemeBuilder lib [\<lambda>s. (None, AddToGroupVersion lib s SchemeGroupVersion)]"

definition AddToScheme :: "('s, 'b) schemeLib \<Rightarrow> 'b \<Rightarrow> 's addFunc" where
  \<comment> \<open>a method value with a pointer receiver: it sees the variable \<open>SchemeBuilder\<close> as it is when it is called\<close>
  "AddToScheme lib builder = builderAddToScheme lib builder"

definition initDevice :: "('s, 'b) schemeLib \<Rightarrow> 'b \<Rightarrow> 'b" where
  "initDevice lib b = builderRegister lib b [\<lambda>s. (None, AddKnownTypes lib s SchemeGroupVersion [''Device'', ''DeviceList''])]"

definition initDeviceClass :: "('s, 'b) schemeLib \<Rightarrow> 'b \<Rightarrow> 'b" where
  "initDeviceClass lib b = builderRegister lib b [\<lambda>s. (None, AddKnownTypes lib s SchemeGroupVersion [''DeviceClass'', ''DeviceClassList''])]"

definition initDeviceLease :: "('s, 'b) schemeLib \<Rightarrow> 'b \<Rightarrow> 'b" where
  "initDeviceLease lib b = builderRegister lib b [\<lambda>s. (None, AddKnownTypes lib s SchemeGroupVersion [''DeviceLease'', ''DeviceLeaseList''])]"

definition initDevicePool :: "('s, 'b) schemeLib \<Rightarrow> 'b \<Rightarrow> 'b" where
  "initDevicePool lib b = builderRegister lib b [\<lambda>s. (None, AddKnownTypes lib s SchemeGroupVersion [''DevicePool'', ''DevicePoolList''])]"

definition packageInit :: "('s, 'b) schemeLib \<Rightarrow> 'b" where
  \<comment> \<open>the variables first, then the \<open>init\<close> functions in the order of the names of their files\<close>
  "packageInit lib = initDevicePool lib (initDeviceLease lib (initDeviceClass lib (initDevice lib (SchemeBuilder0 lib))))"

subsection \<open>The programs\<close>

datatype 'a orPanic = Panics goError | Runs 'a

definition must :: "goError option \<times> 's \<Rightarrow> 's orPanic" where
  \<comment> \<open>\<open>utilruntime.Must\<close>\<close>
  "must r = (case r of (Some e, _) \<Rightarrow> Panics e | (None, s) \<Rightarrow> Runs s)"

definition bothAdded :: "('s, 'b) schemeLib \<Rightarrow> 's \<Rightarrow> 's orPanic" where
  \<comment> \<open>\<^verbatim>\<open>Must(clientgoscheme.AddToScheme(scheme)); Must(farmv1alpha1.AddToScheme(scheme))\<close>\<close>
  "bothAdded lib s =
     (case must (clientgoAddToScheme lib s) of
        Panics e \<Rightarrow> Panics e
      | Runs s' \<Rightarrow> must (AddToScheme lib (packageInit lib) s'))"

definition operatorInit :: "('s, 'b) schemeLib \<Rightarrow> 's orPanic" where
  "operatorInit lib = bothAdded lib (NewScheme lib)"

datatype 'k started = ClientFatal string goError | ClientReady 'k

definition newClient ::
    "('s, 'b) schemeLib \<Rightarrow> goError + 'c \<Rightarrow> ('c \<Rightarrow> 's \<Rightarrow> goError + 'w kube) \<Rightarrow> 'w kube started orPanic" where
  \<comment> \<open>given what \<open>ctrl.GetConfig\<close> returns, and \<open>client.New\<close>\<close>
  "newClient lib getConfig clientNew =
     (case bothAdded lib (NewScheme lib) of
        Panics e \<Rightarrow> Panics e
      | Runs scheme \<Rightarrow>
          (case getConfig of
             Inl e \<Rightarrow> Runs (ClientFatal ''kubeconfig'' e)
           | Inr cfg \<Rightarrow>
               (case clientNew cfg scheme of
                  Inl e \<Rightarrow> Runs (ClientFatal ''client'' e)
                | Inr k \<Rightarrow> Runs (ClientReady k))))"

definition farmctlMain ::
    "('s, 'b) schemeLib \<Rightarrow> goError + 'c \<Rightarrow> ('c \<Rightarrow> 's \<Rightarrow> goError + 'w kube) \<Rightarrow> 'w pollFunc \<Rightarrow> string list \<Rightarrow> farmFlags
       \<Rightarrow> ('w, outcome orPanic) state" where
  \<comment> \<open>\<open>main\<close>: the client is made before the command is looked at\<close>
  "farmctlMain lib getConfig clientNew poll args fl =
     (if args = [] then ret (Runs Usage)
      else (case newClient lib getConfig clientNew of
              Panics e \<Rightarrow> ret (Panics e)
            | Runs (ClientFatal msg e) \<Rightarrow> ret (Runs (Fatal [] msg (Some e)))
            | Runs (ClientReady k) \<Rightarrow> do { r \<leftarrow> farmctl k poll args fl; ret (Runs r) }))"

subsection \<open>The interface\<close>

fun runAll :: "'s addFunc list \<Rightarrow> 's addFunc" where
  \<comment> \<open>until one fails\<close>
  "runAll [] s = (None, s)"
| "runAll (f # fs) s = (case f s of (Some e, s') \<Rightarrow> (Some e, s') | (None, s') \<Rightarrow> runAll fs s')"

definition farmKinds :: "string list" where
  "farmKinds = [''Device'', ''DeviceList'', ''DeviceClass'', ''DeviceClassList'', ''DeviceLease'', ''DeviceLeaseList'',
     ''DevicePool'', ''DevicePoolList'']"

definition coreV1 :: groupVersion where "coreV1 = \<lparr> gvGroup = [], gvVersion = ''v1'' \<rparr>"
definition batchV1 :: groupVersion where "batchV1 = \<lparr> gvGroup = ''batch'', gvVersion = ''v1'' \<rparr>"

definition coreKinds :: "(groupVersion \<times> string) list" where
  \<comment> \<open>of the kinds client-go adds, those the operator uses\<close>
  "coreKinds = [(coreV1, ''Pod''), (coreV1, ''Service''), (batchV1, ''Job'')]"

fun kindOf :: "action \<Rightarrow> (groupVersion \<times> string) option" where
  \<comment> \<open>of the object or the list a call exchanges\<close>
  "kindOf (ActClockNow _) = None"
| "kindOf (ActGetDevice _ _) = Some (SchemeGroupVersion, ''Device'')"
| "kindOf (ActGetDeviceClass _ _) = Some (SchemeGroupVersion, ''DeviceClass'')"
| "kindOf (ActGetDevicePool _ _) = Some (SchemeGroupVersion, ''DevicePool'')"
| "kindOf (ActGetDeviceLease _ _) = Some (SchemeGroupVersion, ''DeviceLease'')"
| "kindOf (ActGetPod _ _) = Some (coreV1, ''Pod'')"
| "kindOf (ActGetService _ _) = Some (coreV1, ''Service'')"
| "kindOf (ActGetJob _ _) = Some (batchV1, ''Job'')"
| "kindOf (ActListDevices _ _ _) = Some (SchemeGroupVersion, ''DeviceList'')"
| "kindOf (ActListDeviceLeases _ _) = Some (SchemeGroupVersion, ''DeviceLeaseList'')"
| "kindOf (ActListDevicePools _ _) = Some (SchemeGroupVersion, ''DevicePoolList'')"
| "kindOf (ActCreateDevice _ _) = Some (SchemeGroupVersion, ''Device'')"
| "kindOf (ActCreateDeviceLease _ _) = Some (SchemeGroupVersion, ''DeviceLease'')"
| "kindOf (ActCreatePod _ _) = Some (coreV1, ''Pod'')"
| "kindOf (ActCreateService _ _) = Some (coreV1, ''Service'')"
| "kindOf (ActCreateJob _ _) = Some (batchV1, ''Job'')"
| "kindOf (ActUpdateDevice _ _) = Some (SchemeGroupVersion, ''Device'')"
| "kindOf (ActUpdateDeviceLease _ _) = Some (SchemeGroupVersion, ''DeviceLease'')"
| "kindOf (ActUpdateService _ _) = Some (coreV1, ''Service'')"
| "kindOf (ActUpdateDeviceStatus _ _) = Some (SchemeGroupVersion, ''Device'')"
| "kindOf (ActUpdateDeviceLeaseStatus _ _) = Some (SchemeGroupVersion, ''DeviceLease'')"
| "kindOf (ActUpdateDevicePoolStatus _ _) = Some (SchemeGroupVersion, ''DevicePool'')"
| "kindOf (ActPatchDeviceLeaseStatus _ _ _) = Some (SchemeGroupVersion, ''DeviceLease'')"
| "kindOf (ActDeleteDevice _ _) = Some (SchemeGroupVersion, ''Device'')"
| "kindOf (ActDeletePod _ _) = Some (coreV1, ''Pod'')"
| "kindOf (ActDeleteDeviceLease _ _) = Some (SchemeGroupVersion, ''DeviceLease'')"

lemma kindOf_known: "kindOf a = Some (g, n) \<Longrightarrow> g = SchemeGroupVersion \<and> n \<in> set farmKinds \<or> (g, n) \<in> set coreKinds"
  by (cases a) (auto simp: farmKinds_def coreKinds_def)

locale scheme_library =
  fixes lib :: "('s, 'b) schemeLib" and recognises :: "'s \<Rightarrow> groupVersion \<Rightarrow> string \<Rightarrow> bool"
  assumes add_new: "builderAddToScheme lib (NewSchemeBuilder lib fs) = runAll fs"
    and add_registered: "builderAddToScheme lib (builderRegister lib b fs) s =
      (case builderAddToScheme lib b s of (Some e, s') \<Rightarrow> (Some e, s') | (None, s') \<Rightarrow> runAll fs s')"
    and known: "recognises (AddKnownTypes lib s gv ks) g n \<longleftrightarrow> recognises s g n \<or> g = gv \<and> n \<in> set ks"
    and kept: "recognises s g n \<Longrightarrow> recognises (AddToGroupVersion lib s gv) g n"
begin

lemma init_runs:
  "\<exists>s'. AddToScheme lib (packageInit lib) s = (None, s') \<and>
     (\<forall>g n. recognises s g n \<or> g = SchemeGroupVersion \<and> n \<in> set farmKinds \<longrightarrow> recognises s' g n)"
  by (auto simp: AddToScheme_def packageInit_def initDevice_def initDeviceClass_def initDeviceLease_def initDevicePool_def
      SchemeBuilder0_def add_new add_registered known farmKinds_def intro: kept)

lemma both_added: "clientgoAddToScheme lib s = (None, s1) \<Longrightarrow>
    \<exists>s'. bothAdded lib s = Runs s' \<and> (\<forall>g n. recognises s1 g n \<or> g = SchemeGroupVersion \<and> n \<in> set farmKinds \<longrightarrow> recognises s' g n)"
  using init_runs [of s1] by (auto simp: bothAdded_def must_def)

end

subsection \<open>The reference scheme\<close>

definition refAdd :: "(groupVersion \<times> string) list addFunc" where
  \<comment> \<open>the kinds of client-go that the operator uses\<close>
  "refAdd s = (None, s @ coreKinds)"

definition refSchemes :: "((groupVersion \<times> string) list, (groupVersion \<times> string) list addFunc list) schemeLib" where
  \<comment> \<open>a scheme is the list of the kinds added, a builder the list of its functions\<close>
  "refSchemes = \<lparr> NewScheme = [], NewSchemeBuilder = (\<lambda>fs. fs), builderRegister = (@), builderAddToScheme = runAll,
     AddToGroupVersion = (\<lambda>s gv. s @ [(gv, ''WatchEvent''), (gv, ''ListOptions'')]),
     AddKnownTypes = (\<lambda>s gv ks. s @ map (Pair gv) ks), clientgoAddToScheme = refAdd \<rparr>"

lemma runAll_append: "runAll (fs @ gs) s = (case runAll fs s of (Some e, s') \<Rightarrow> (Some e, s') | (None, s') \<Rightarrow> runAll gs s')"
  by (induction fs arbitrary: s) (auto split: prod.splits option.splits)

interpretation ref_schemes: scheme_library refSchemes "\<lambda>s g n. (g, n) \<in> set s"
  by unfold_locales (auto simp: refSchemes_def runAll_append)

subsection \<open>Every call has a known kind\<close>

text \<open>C35: When the kinds of client-go have been added, \<open>init\<close> of the operator succeeds, and the scheme it leaves
  (like the scheme the lease client is made with) recognises the kind of every object and of every list that
  the controllers and the client exchange with the server: the eight kinds of the package beside those of
  client-go. The \<open>init\<close> functions run after \<open>AddToScheme\<close> has been bound to the builder, and their kinds are
  added nevertheless.\<close>

theorem programs_know_their_kinds:
  assumes "scheme_library lib recognises" and "clientgoAddToScheme lib (NewScheme lib) = (None, s)"
    and "\<And>g n. (g, n) \<in> set coreKinds \<Longrightarrow> recognises s g n"
  shows "\<exists>s'. operatorInit lib = Runs s' \<and>
    newClient lib (Inr cfg) clientNew = (case clientNew cfg s' of Inl e \<Rightarrow> Runs (ClientFatal ''client'' e) | Inr k \<Rightarrow> Runs (ClientReady k)) \<and>
    (\<forall>g n. recognises s g n \<longrightarrow> recognises s' g n) \<and> (\<forall>a g n. kindOf a = Some (g, n) \<longrightarrow> recognises s' g n)"
proof -
  obtain s' where s': "bothAdded lib (NewScheme lib) = Runs s'"
    "\<And>g n. recognises s g n \<or> g = SchemeGroupVersion \<and> n \<in> set farmKinds \<Longrightarrow> recognises s' g n"
    using scheme_library.both_added [OF assms(1,2)] by blast
  have "recognises s' g n" if "kindOf a = Some (g, n)" for a g n
    using kindOf_known [OF that] s'(2) assms(3) by blast
  with s' show ?thesis by (auto simp: operatorInit_def newClient_def)
qed

lemma programs_know_their_kinds_witness:
  "\<exists>s'. operatorInit refSchemes = Runs s' \<and> (SchemeGroupVersion, ''DeviceLease'') \<in> set s' \<and> (coreV1, ''Pod'') \<in> set s'"
proof -
  have "clientgoAddToScheme refSchemes (NewScheme refSchemes) = (None, coreKinds)" by (simp add: refSchemes_def refAdd_def)
  from programs_know_their_kinds [OF ref_schemes.scheme_library_axioms this,
      where cfg = "()" and clientNew = "\<lambda>_ _. Inl ErrNotFound :: goError + unit kube"]
  obtain s' where s': "operatorInit refSchemes = Runs s'" "\<forall>a g n. kindOf a = Some (g, n) \<longrightarrow> (g, n) \<in> set s'" by auto
  from s'(2) [rule_format, of "ActGetDeviceLease ([], []) (Inl ErrNotFound)"] s'(2) [rule_format, of "ActGetPod ([], []) (Inl ErrNotFound)"] s'(1)
  show ?thesis by simp
qed

text \<open>What \<open>farmctl\<close> says depends on its configuration before it depends on the command: without an argument it
  prints its usage; with any command, known or not, it first makes its client, and when the configuration cannot
  be loaded or the client not be made it ends with that error, whatever the flags are. Otherwise it does what the
  command does.\<close>

theorem farmctl_makes_its_client_first:
  assumes "scheme_library lib recognises" and "clientgoAddToScheme lib (NewScheme lib) = (None, s)"
  shows "\<exists>s'. run_state (farmctlMain lib getConfig clientNew poll args fl) w =
    (if args = [] then (Runs Usage, w)
     else case getConfig of
       Inl e \<Rightarrow> (Runs (Fatal [] ''kubeconfig'' (Some e)), w)
     | Inr cfg \<Rightarrow>
         (case clientNew cfg s' of
            Inl e \<Rightarrow> (Runs (Fatal [] ''client'' (Some e)), w)
          | Inr k \<Rightarrow> (case run_state (farmctl k poll args fl) w of (r, w') \<Rightarrow> (Runs r, w'))))"
proof -
  obtain s' where "bothAdded lib (NewScheme lib) = Runs s'"
    using scheme_library.both_added [OF assms] by blast
  then show ?thesis by (intro exI [of _ s']) (auto simp: farmctlMain_def newClient_def split: sum.split prod.split)
qed

lemma farmctl_makes_its_client_first_witness:
  "run_state (farmctlMain refSchemes (Inl ErrNotFound :: goError + unit) (\<lambda>_ _. Inr mem) neverPolled [''frobnicate''] demoFlags) emptyCluster =
     (Runs (Fatal [] ''kubeconfig'' (Some ErrNotFound)), emptyCluster)"
proof -
  have "clientgoAddToScheme refSchemes (NewScheme refSchemes) = (None, coreKinds)" by (simp add: refSchemes_def refAdd_def)
  from farmctl_makes_its_client_first [OF ref_schemes.scheme_library_axioms this, where getConfig = "Inl ErrNotFound :: goError + unit"
      and clientNew = "\<lambda>_ _. Inr mem" and poll = neverPolled and args = "[''frobnicate'']" and fl = demoFlags and w = emptyCluster]
  show ?thesis by simp
qed

end
