(* ===== verification/Go_Heap.thy ===== *)
theory Go_Heap
  imports Api_Types
begin

text \<open>
  Memory, as far as copying objects is about it: cells at addresses handed out in order, pointers, slices
  and maps that refer to cells, and the ways generated code copies them. The locale \<open>deep_copy\<close> is what
  a copying function promises; every way of building one from others keeps the promise.
\<close>

subsection \<open>Cells and addresses\<close>

type_synonym addr = nat

record 'c heap =
  lim :: addr               \<comment> \<open>the next address to hand out\<close>
  cellAt :: "addr \<rightharpoonup> 'c"

record slice =
  slArr :: addr
  slOff :: nat
  slLen :: nat
  slCap :: nat

definition reserve :: "'c heap \<Rightarrow> addr \<times> 'c heap" where
  \<comment> \<open>\<open>new\<close> and \<open>make\<close>, before the cell is filled\<close>
  "reserve h = (lim h, h\<lparr>lim := Suc (lim h), cellAt := (cellAt h)(lim h := None)\<rparr>)"

definition store :: "addr \<Rightarrow> 'c \<Rightarrow> 'c heap \<Rightarrow> 'c heap" where
  "store a c h = h\<lparr>cellAt := (cellAt h)(a \<mapsto> c)\<rparr>"

definition load :: "('c \<Rightarrow> 'b option) \<Rightarrow> 'c heap \<Rightarrow> addr \<Rightarrow> 'b option" where
  \<comment> \<open>the cell's content at the type that \<open>un\<close> selects\<close>
  "load un h a = Option.bind (cellAt h a) un"

definition elems :: "('c \<Rightarrow> 'b list option) \<Rightarrow> 'c heap \<Rightarrow> slice \<Rightarrow> 'b list" where
  "elems un h sl = (case load un h (slArr sl) of None \<Rightarrow> [] | Some xs \<Rightarrow> take (slLen sl) (drop (slOff sl) xs))"

subsection \<open>Copying\<close>

definition flatCopy :: "'a \<Rightarrow> 'c heap \<Rightarrow> 'a \<times> 'c heap" where
  \<comment> \<open>an assignment: nothing in the value refers to memory\<close>
  "flatCopy x h = (x, h)"

definition copyBoth :: "('a \<Rightarrow> 'c heap \<Rightarrow> 'a \<times> 'c heap) \<Rightarrow> ('b \<Rightarrow> 'c heap \<Rightarrow> 'b \<times> 'c heap) \<Rightarrow> 'a \<times> 'b \<Rightarrow> 'c heap \<Rightarrow> ('a \<times> 'b) \<times> 'c heap" where
  "copyBoth c d p h = (let (x, h1) = c (fst p) h; (y, h2) = d (snd p) h1 in ((x, y), h2))"

fun copyAll :: "('a \<Rightarrow> 'c heap \<Rightarrow> 'a \<times> 'c heap) \<Rightarrow> 'a list \<Rightarrow> 'c heap \<Rightarrow> 'a list \<times> 'c heap" where
  "copyAll c [] h = ([], h)"
| "copyAll c (x # xs) h = (let (y, h1) = c x h; (ys, h2) = copyAll c xs h1 in (y # ys, h2))"

definition ifNotNil :: "('a \<Rightarrow> 'c heap \<Rightarrow> 'a \<times> 'c heap) \<Rightarrow> 'a option \<Rightarrow> 'c heap \<Rightarrow> 'a option \<times> 'c heap" where
  "ifNotNil c p h = (case p of None \<Rightarrow> (None, h) | Some x \<Rightarrow> (let (y, h') = c x h in (Some y, h')))"

definition newPtr :: "('b \<Rightarrow> 'c) \<Rightarrow> ('c \<Rightarrow> 'b option) \<Rightarrow> ('b \<Rightarrow> 'c heap \<Rightarrow> 'b \<times> 'c heap) \<Rightarrow> addr \<Rightarrow> 'c heap \<Rightarrow> addr \<times> 'c heap" where
  \<comment> \<open>\<open>*out = new(T)\<close> and then a copy from \<open>*in\<close> into it; types rule out a cell of another type\<close>
  "newPtr mk un c a h =
     (let (b, h1) = reserve h in
      case load un h a of
        None \<Rightarrow> (b, h1)
      | Some x \<Rightarrow> (let (y, h2) = c x h1 in (b, store b (mk y) h2)))"

definition newSlice :: "('b list \<Rightarrow> 'c) \<Rightarrow> ('c \<Rightarrow> 'b list option) \<Rightarrow> ('b \<Rightarrow> 'c heap \<Rightarrow> 'b \<times> 'c heap) \<Rightarrow> slice \<Rightarrow> 'c heap \<Rightarrow> slice \<times> 'c heap" where
  \<comment> \<open>\<open>*out = make([]T, len( *in))\<close> and then element by element\<close>
  "newSlice mk un c sl h =
     (let (b, h1) = reserve h; (ys, h2) = copyAll c (elems un h sl) h1
      in (\<lparr> slArr = b, slOff = 0, slLen = slLen sl, slCap = slLen sl \<rparr>, store b (mk ys) h2))"

subsection \<open>What a value reaches and shows\<close>

definition reachNone :: "'c heap \<Rightarrow> 'a \<Rightarrow> addr set" where "reachNone h x = {}"
definition reachBoth :: "('c heap \<Rightarrow> 'a \<Rightarrow> addr set) \<Rightarrow> ('c heap \<Rightarrow> 'b \<Rightarrow> addr set) \<Rightarrow> 'c heap \<Rightarrow> 'a \<times> 'b \<Rightarrow> addr set" where
  "reachBoth r s h p = r h (fst p) \<union> s h (snd p)"
definition reachAll :: "('c heap \<Rightarrow> 'a \<Rightarrow> addr set) \<Rightarrow> 'c heap \<Rightarrow> 'a list \<Rightarrow> addr set" where
  "reachAll r h xs = (\<Union>x \<in> set xs. r h x)"
definition reachOpt :: "('c heap \<Rightarrow> 'a \<Rightarrow> addr set) \<Rightarrow> 'c heap \<Rightarrow> 'a option \<Rightarrow> addr set" where
  "reachOpt r h p = (case p of None \<Rightarrow> {} | Some x \<Rightarrow> r h x)"
definition reachPtr :: "('c \<Rightarrow> 'b option) \<Rightarrow> ('c heap \<Rightarrow> 'b \<Rightarrow> addr set) \<Rightarrow> 'c heap \<Rightarrow> addr \<Rightarrow> addr set" where
  "reachPtr un r h a = insert a (reachOpt r h (load un h a))"
definition reachSlice :: "('c \<Rightarrow> 'b list option) \<Rightarrow> ('c heap \<Rightarrow> 'b \<Rightarrow> addr set) \<Rightarrow> 'c heap \<Rightarrow> slice \<Rightarrow> addr set" where
  "reachSlice un r h sl = insert (slArr sl) (reachAll r h (elems un h sl))"

definition viewFlat :: "'c heap \<Rightarrow> 'a \<Rightarrow> 'a" where "viewFlat h x = x"
definition viewBoth :: "('c heap \<Rightarrow> 'a \<Rightarrow> 'u) \<Rightarrow> ('c heap \<Rightarrow> 'b \<Rightarrow> 'v) \<Rightarrow> 'c heap \<Rightarrow> 'a \<times> 'b \<Rightarrow> 'u \<times> 'v" where
  "viewBoth u v h p = (u h (fst p), v h (snd p))"
definition viewPtr :: "('c \<Rightarrow> 'b option) \<Rightarrow> ('c heap \<Rightarrow> 'b \<Rightarrow> 'v) \<Rightarrow> 'c heap \<Rightarrow> addr \<Rightarrow> 'v option" where
  "viewPtr un v h a = map_option (v h) (load un h a)"
definition viewOpt :: "('c heap \<Rightarrow> 'a \<Rightarrow> 'v) \<Rightarrow> 'c heap \<Rightarrow> 'a option \<Rightarrow> 'v option" where
  \<comment> \<open>nil stays apart from a pointer or slice that is not\<close>
  "viewOpt v h p = map_option (v h) p"
definition viewSlice :: "('c \<Rightarrow> 'b list option) \<Rightarrow> ('c heap \<Rightarrow> 'b \<Rightarrow> 'v) \<Rightarrow> 'c heap \<Rightarrow> slice \<Rightarrow> 'v list" where
  "viewSlice un v h sl = map (v h) (elems un h sl)"

subsection \<open>The promise\<close>

definition sameCells :: "addr set \<Rightarrow> 'c heap \<Rightarrow> 'c heap \<Rightarrow> bool" where
  "sameCells A h h' \<longleftrightarrow> (\<forall>a \<in> A. cellAt h' a = cellAt h a)"

definition grows :: "'c heap \<Rightarrow> 'c heap \<Rightarrow> bool" where
  "grows h h' \<longleftrightarrow> lim h \<le> lim h' \<and> sameCells {..<lim h} h h'"

lemma grows_refl: "grows h h" and grows_trans: "grows h h1 \<Longrightarrow> grows h1 h2 \<Longrightarrow> grows h h2"
  by (auto simp: grows_def sameCells_def)

lemma grows_cells: "grows h h' \<Longrightarrow> A \<subseteq> {..<lim h} \<Longrightarrow> sameCells A h h'"
  by (auto simp: grows_def sameCells_def)

lemma sameCells_mono: "sameCells A h h' \<Longrightarrow> B \<subseteq> A \<Longrightarrow> sameCells B h h'"
  by (auto simp: sameCells_def)

lemma sameCells_store: "a \<notin> A \<Longrightarrow> sameCells A h (store a c h)"
  by (auto simp: sameCells_def store_def)

lemma sameCells_load: "sameCells A h h' \<Longrightarrow> a \<in> A \<Longrightarrow> load un h' a = load un h a"
  by (simp add: sameCells_def load_def)

lemma lim_store [simp]: "lim (store a c h) = lim h"
  by (simp add: store_def)

lemma load_store [simp]: "un (mk y) = Some y \<Longrightarrow> load un (store b (mk y) h) b = Some y"
  by (simp add: load_def store_def)

locale deep_copy =
  fixes cp :: "'a \<Rightarrow> 'c heap \<Rightarrow> 'a \<times> 'c heap" and reach :: "'c heap \<Rightarrow> 'a \<Rightarrow> addr set" and view :: "'c heap \<Rightarrow> 'a \<Rightarrow> 'v"
  assumes frame: "sameCells (reach h x) h h' \<Longrightarrow> reach h' x = reach h x \<and> view h' x = view h x"
    and copies: "reach h x \<subseteq> {..<lim h} \<Longrightarrow> cp x h = (y, h') \<Longrightarrow>
      grows h h' \<and> view h' y = view h x \<and> reach h' y \<subseteq> {lim h..<lim h'}"
begin

lemma frame_grows: "grows h h' \<Longrightarrow> reach h x \<subseteq> {..<lim h} \<Longrightarrow> reach h' x = reach h x \<and> view h' x = view h x"
  by (rule frame) (rule grows_cells)

text \<open>Whatever is done later through the copy does not show in the original, nor the other way round.\<close>

lemma independent:
  assumes "reach h x \<subseteq> {..<lim h}" and "cp x h = (y, h')"
  shows "sameCells (- reach h' y) h' h2 \<Longrightarrow> view h2 x = view h x" and "sameCells (- reach h x) h' h2 \<Longrightarrow> view h2 y = view h x"
proof -
  have c: "grows h h'" "view h' y = view h x" "reach h' y \<subseteq> {lim h..<lim h'}" using copies [OF assms] by auto
  have x: "reach h' x = reach h x" "view h' x = view h x" using frame_grows [OF c(1) assms(1)] by auto
  have disj: "reach h x \<inter> reach h' y = {}" using assms(1) c(3) by fastforce
  show "view h2 x = view h x" if "sameCells (- reach h' y) h' h2"
    using frame [of h' x h2] sameCells_mono [OF that, of "reach h' x"] x disj by auto
  show "view h2 y = view h x" if "sameCells (- reach h x) h' h2"
    using frame [of h' y h2] sameCells_mono [OF that, of "reach h' y"] c(2) disj by auto
qed

end

subsection \<open>It is kept by every way of copying\<close>

lemma deep_copy_flat: "deep_copy flatCopy reachNone viewFlat"
  by unfold_locales (auto simp: flatCopy_def reachNone_def viewFlat_def grows_refl)

lemma deep_copy_view: "deep_copy c r v \<Longrightarrow> deep_copy c r (\<lambda>h x. f (v h x))"
  unfolding deep_copy_def by metis

lemma deep_copy_both:
  assumes "deep_copy c r u" and "deep_copy d s v"
  shows "deep_copy (copyBoth c d) (reachBoth r s) (viewBoth u v)"
proof
  fix h h' :: "'b heap" and p assume "sameCells (reachBoth r s h p) h h'"
  then have "sameCells (r h (fst p)) h h'" "sameCells (s h (snd p)) h h'" by (auto simp: sameCells_def reachBoth_def)
  then show "reachBoth r s h' p = reachBoth r s h p \<and> viewBoth u v h' p = viewBoth u v h p"
    using deep_copy.frame [OF assms(1)] deep_copy.frame [OF assms(2)] by (simp add: reachBoth_def viewBoth_def)
next
  fix h h' :: "'b heap" and p q assume bound: "reachBoth r s h p \<subseteq> {..<lim h}" and c: "copyBoth c d p h = (q, h')"
  then have b: "r h (fst p) \<subseteq> {..<lim h}" "s h (snd p) \<subseteq> {..<lim h}" by (auto simp: reachBoth_def)
  obtain x h1 where x: "c (fst p) h = (x, h1)" by force
  with c obtain y where y: "d (snd p) h1 = (y, h')" "q = (x, y)" by (auto simp: copyBoth_def split: prod.splits)
  have 1: "grows h h1" "u h1 x = u h (fst p)" "r h1 x \<subseteq> {lim h..<lim h1}" using deep_copy.copies [OF assms(1) b(1) x] by auto
  have "s h1 (snd p) = s h (snd p)" and v: "v h1 (snd p) = v h (snd p)" using deep_copy.frame_grows [OF assms(2) 1(1) b(2)] by auto
  then have "s h1 (snd p) \<subseteq> {..<lim h1}" using b(2) 1(1) by (fastforce simp: grows_def)
  from deep_copy.copies [OF assms(2) this y(1)] have 2: "grows h1 h'" "v h' y = v h (snd p)" "s h' y \<subseteq> {lim h1..<lim h'}" using v by auto
  have "r h1 x \<subseteq> {..<lim h1}" using 1(3) by auto
  from deep_copy.frame_grows [OF assms(1) 2(1) this] have 3: "r h' x = r h1 x" "u h' x = u h (fst p)" using 1(2) by auto
  have "lim h \<le> lim h1" "lim h1 \<le> lim h'" using 1(1) 2(1) by (auto simp: grows_def)
  then have "reachBoth r s h' q \<subseteq> {lim h..<lim h'}" using 1(3) 2(3) 3(1) y(2) by (fastforce simp: reachBoth_def)
  moreover have "viewBoth u v h' q = viewBoth u v h p" using 2(2) 3(2) y(2) by (simp add: viewBoth_def)
  ultimately show "grows h h' \<and> viewBoth u v h' q = viewBoth u v h p \<and> reachBoth r s h' q \<subseteq> {lim h..<lim h'}"
    using grows_trans [OF 1(1) 2(1)] by simp
qed

lemma deep_copy_all:
  assumes "deep_copy c r v"
  shows "deep_copy (copyAll c) (reachAll r) (\<lambda>h xs. map (v h) xs)"
proof
  fix h h' :: "'b heap" and xs assume "sameCells (reachAll r h xs) h h'"
  then have "\<forall>x \<in> set xs. sameCells (r h x) h h'" by (auto simp: sameCells_def reachAll_def)
  then have "\<forall>x \<in> set xs. r h' x = r h x \<and> v h' x = v h x" using deep_copy.frame [OF assms] by blast
  then show "reachAll r h' xs = reachAll r h xs \<and> map (v h') xs = map (v h) xs" by (simp add: reachAll_def)
next
  fix h h' :: "'b heap" and xs ys assume "reachAll r h xs \<subseteq> {..<lim h}" and "copyAll c xs h = (ys, h')"
  then show "grows h h' \<and> map (v h') ys = map (v h) xs \<and> reachAll r h' ys \<subseteq> {lim h..<lim h'}"
  proof (induction xs arbitrary: h ys)
    case Nil
    then show ?case by (simp add: grows_refl reachAll_def)
  next
    case (Cons x xs)
    obtain y h1 where y: "c x h = (y, h1)" by force
    with Cons.prems(2) obtain zs where zs: "copyAll c xs h1 = (zs, h')" "ys = y # zs" by (auto split: prod.splits)
    have b: "r h x \<subseteq> {..<lim h}" "reachAll r h xs \<subseteq> {..<lim h}" using Cons.prems(1) by (auto simp: reachAll_def)
    have 1: "grows h h1" "v h1 y = v h x" "r h1 y \<subseteq> {lim h..<lim h1}" using deep_copy.copies [OF assms b(1) y] by auto
    have same: "r h1 z = r h z \<and> v h1 z = v h z" if "z \<in> set xs" for z
      using deep_copy.frame_grows [OF assms 1(1)] b(2) that by (auto simp: reachAll_def)
    then have "reachAll r h1 xs = reachAll r h xs" by (simp add: reachAll_def)
    then have "reachAll r h1 xs \<subseteq> {..<lim h1}" using b(2) 1(1) by (fastforce simp: grows_def)
    from Cons.IH [OF this zs(1)] same have 2: "grows h1 h'" "map (v h') zs = map (v h) xs" "reachAll r h' zs \<subseteq> {lim h1..<lim h'}" by auto
    have "r h1 y \<subseteq> {..<lim h1}" using 1(3) by auto
    from deep_copy.frame_grows [OF assms 2(1) this] have 3: "r h' y = r h1 y" "v h' y = v h x" using 1(2) by auto
    have "lim h \<le> lim h1" "lim h1 \<le> lim h'" using 1(1) 2(1) by (auto simp: grows_def)
    then have "reachAll r h' ys \<subseteq> {lim h..<lim h'}" using 1(3) 2(3) 3(1) zs(2) by (fastforce simp: reachAll_def)
    with 2 3 zs(2) grows_trans [OF 1(1) 2(1)] show ?case by simp
  qed
qed

lemma deep_copy_opt:
  assumes "deep_copy c r v"
  shows "deep_copy (ifNotNil c) (reachOpt r) (viewOpt v)"
proof
  fix h h' :: "'b heap" and p assume "sameCells (reachOpt r h p) h h'"
  then show "reachOpt r h' p = reachOpt r h p \<and> viewOpt v h' p = viewOpt v h p"
    using deep_copy.frame [OF assms] by (simp add: reachOpt_def viewOpt_def split: option.splits)
next
  fix h h' :: "'b heap" and p q assume "reachOpt r h p \<subseteq> {..<lim h}" and "ifNotNil c p h = (q, h')"
  then show "grows h h' \<and> viewOpt v h' q = viewOpt v h p \<and> reachOpt r h' q \<subseteq> {lim h..<lim h'}"
    using deep_copy.copies [OF assms]
    by (cases p) (fastforce simp: ifNotNil_def reachOpt_def viewOpt_def grows_refl split: prod.splits)+
qed

lemma reserved:
  assumes "reserve h = (b, h1)"
  shows "b = lim h" and "lim h1 = Suc (lim h)" and "grows h h1" and "load un h1 b = None"
  using assms by (auto simp: reserve_def grows_def sameCells_def load_def)

text \<open>A cell that is reserved, then filled with something that was copied after it.\<close>

lemma filled:
  assumes "deep_copy c r v" and "reserve h = (b, h1)" and "grows h1 h2" and "r h2 y \<subseteq> {lim h1..<lim h2}"
  shows "grows h (store b e h2)" and "r (store b e h2) y = r h2 y" and "v (store b e h2) y = v h2 y" and "b \<in> {lim h..<lim h2}"
    and "r h2 y \<subseteq> {lim h..<lim h2}"
proof -
  have b: "b = lim h" "lim h1 = Suc (lim h)" "grows h h1" using reserved [OF assms(2)] by auto
  have "b \<notin> r h2 y" using assms(4) b by auto
  from deep_copy.frame [OF assms(1) sameCells_store [OF this]]
  show "r (store b e h2) y = r h2 y" and "v (store b e h2) y = v h2 y" by auto
  have "grows h h2" using grows_trans [OF b(3) assms(3)] .
  then show "grows h (store b e h2)" using b(1) by (auto simp: grows_def sameCells_def store_def)
  show "b \<in> {lim h..<lim h2}" and "r h2 y \<subseteq> {lim h..<lim h2}" using assms(3,4) b by (auto simp: grows_def)
qed

lemma deep_copy_ptr:
  assumes "deep_copy c r v" and "\<And>x. un (mk x) = Some x"
  shows "deep_copy (newPtr mk un c) (reachPtr un r) (viewPtr un v)"
proof
  fix h h' :: "'b heap" and a assume same: "sameCells (reachPtr un r h a) h h'"
  then have "load un h' a = load un h a" by (rule sameCells_load) (simp add: reachPtr_def)
  moreover have "sameCells (r h x) h h'" if "load un h a = Some x" for x using same that by (auto simp: sameCells_def reachPtr_def reachOpt_def)
  ultimately show "reachPtr un r h' a = reachPtr un r h a \<and> viewPtr un v h' a = viewPtr un v h a"
    using deep_copy.frame [OF assms(1)] by (cases "load un h a") (simp_all add: reachPtr_def reachOpt_def viewPtr_def)
next
  fix h h' :: "'b heap" and a b assume bound: "reachPtr un r h a \<subseteq> {..<lim h}" and c: "newPtr mk un c a h = (b, h')"
  obtain b' h1 where "reserve h = (b', h1)" by force
  moreover from this c have "b' = b" by (auto simp: newPtr_def split: option.splits prod.splits)
  ultimately have b: "reserve h = (b, h1)" by simp
  note r = reserved [OF b]
  show "grows h h' \<and> viewPtr un v h' b = viewPtr un v h a \<and> reachPtr un r h' b \<subseteq> {lim h..<lim h'}"
  proof (cases "load un h a")
    case None
    with c b have "h' = h1" by (simp add: newPtr_def)
    with None r(1-3) show ?thesis using reserved(4) [OF b, of un] by (simp add: viewPtr_def reachPtr_def reachOpt_def)
  next
    case (Some x)
    obtain y h2 where y: "c x h1 = (y, h2)" by force
    with c b Some have h': "h' = store b (mk y) h2" by (simp add: newPtr_def)
    have x: "r h x \<subseteq> {..<lim h}" using bound Some by (auto simp: reachPtr_def reachOpt_def)
    have "r h1 x = r h x" "v h1 x = v h x" using deep_copy.frame_grows [OF assms(1) r(3) x] by auto
    moreover from this x r(2) have "r h1 x \<subseteq> {..<lim h1}" by auto
    ultimately have 2: "grows h1 h2" "v h2 y = v h x" "r h2 y \<subseteq> {lim h1..<lim h2}"
      using deep_copy.copies [OF assms(1) _ y] by auto
    note f = filled(1-3) [OF assms(1) b 2(1,3), of "mk y"] filled(4,5) [OF assms(1) b 2(1,3)]
    show ?thesis using f 2(2) Some assms(2) unfolding h' by (auto simp: viewPtr_def reachPtr_def reachOpt_def)
  qed
qed

lemma deep_copy_slice:
  assumes "deep_copy c r v" and "\<And>xs. un (mk xs) = Some xs"
  shows "deep_copy (newSlice mk un c) (reachSlice un r) (viewSlice un v)"
proof
  fix h h' :: "'b heap" and sl assume same: "sameCells (reachSlice un r h sl) h h'"
  then have "load un h' (slArr sl) = load un h (slArr sl)" by (rule sameCells_load) (simp add: reachSlice_def)
  then have "elems un h' sl = elems un h sl" by (simp add: elems_def)
  moreover have "sameCells (reachAll r h (elems un h sl)) h h'" using same by (auto simp: sameCells_def reachSlice_def)
  ultimately show "reachSlice un r h' sl = reachSlice un r h sl \<and> viewSlice un v h' sl = viewSlice un v h sl"
    using deep_copy.frame [OF deep_copy_all [OF assms(1)]] by (simp add: reachSlice_def viewSlice_def)
next
  fix h h' :: "'b heap" and sl tl assume bound: "reachSlice un r h sl \<subseteq> {..<lim h}" and c: "newSlice mk un c sl h = (tl, h')"
  obtain b h1 where b: "reserve h = (b, h1)" by force
  obtain ys h2 where ys: "copyAll c (elems un h sl) h1 = (ys, h2)" by force
  with c b have out: "h' = store b (mk ys) h2" "slArr tl = b" "slOff tl = 0" "slLen tl = slLen sl" by (auto simp: newSlice_def)
  note r = reserved [OF b]
  note all = deep_copy_all [OF assms(1)]
  have x: "reachAll r h (elems un h sl) \<subseteq> {..<lim h}" using bound by (simp add: reachSlice_def)
  have "reachAll r h1 (elems un h sl) = reachAll r h (elems un h sl)" "map (v h1) (elems un h sl) = map (v h) (elems un h sl)"
    using deep_copy.frame_grows [OF all r(3) x] by auto
  moreover from this x r(2) have "reachAll r h1 (elems un h sl) \<subseteq> {..<lim h1}" by auto
  ultimately have 2: "grows h1 h2" "map (v h2) ys = map (v h) (elems un h sl)" "reachAll r h2 ys \<subseteq> {lim h1..<lim h2}"
    using deep_copy.copies [OF all _ ys] by auto
  have "length ys = length (elems un h sl)" using arg_cong [OF 2(2), of length] by simp
  also have "\<dots> \<le> slLen sl" by (simp add: elems_def split: option.split)
  finally have "elems un h' tl = ys" using assms(2) out by (simp add: elems_def)
  with filled(1-3) [OF all b 2(1,3), of "mk ys"] filled(4,5) [OF all b 2(1,3)] 2(2) show "grows h h' \<and> viewSlice un v h' tl = viewSlice un v h sl \<and> reachSlice un r h' tl \<subseteq> {lim h..<lim h'}"
    unfolding out(1) by (simp add: viewSlice_def reachSlice_def out(2))
qed

text \<open>A struct: \<open>get\<close> reads the fields that are copied deeply, \<open>put\<close> writes them into the assigned struct, and
  \<open>g\<close> shows the struct, given what those fields show.\<close>

lemma deep_copy_struct:
  assumes "deep_copy c r v" and "\<And>p x. get (put p x) = p" and "\<And>p x w. g (put p x) w = g x w"
  shows "deep_copy (\<lambda>x h. case c (get x) h of (p, h') \<Rightarrow> (put p x, h')) (\<lambda>h x. r h (get x)) (\<lambda>h x. g x (v h (get x)))"
proof
  show "r h' (get x) = r h (get x) \<and> g x (v h' (get x)) = g x (v h (get x))" if "sameCells (r h (get x)) h h'" for h h' x
    using deep_copy.frame [OF assms(1) that] by simp
  show "grows h h' \<and> g y (v h' (get y)) = g x (v h (get x)) \<and> r h' (get y) \<subseteq> {lim h..<lim h'}"
    if "r h (get x) \<subseteq> {..<lim h}" "(case c (get x) h of (p, h') \<Rightarrow> (put p x, h')) = (y, h')" for h h' x y
    using deep_copy.copies [OF assms(1) that(1)] that(2) by (auto simp: assms(2,3) split: prod.splits)
qed

end
