(* ===== verification/Deep_Copy.thy ===== *)
theory Deep_Copy
  imports Go_Heap
begin

text \<open>
  The generated copies of the API types, \<^verbatim>\<open>operator/api/v1alpha1/zz_generated.deepcopy.go\<close>, over memory: a
  struct is a record whose slices, maps and pointers are addresses, \<open>T_DeepCopyInto\<close> gives the struct written to
  \<open>*out\<close>, \<open>T_DeepCopy\<close> the pointer returned, \<open>T_DeepCopyObject\<close> the interface value. Structs of the
  Kubernetes libraries are values of a type \<open>'x\<close> of the library's choosing, copied by the functions
  of \<open>copyLib\<close>; structs without references are the records of the API types.
\<close>

subsection \<open>Structs in memory\<close>

type_synonym typeMeta = "string \<times> string"   \<comment> \<open>kind and API version\<close>

record memAVDSpec =
  maSkin :: string
  maDensity :: int32
  maExtraArgs :: "slice option"

record 'x memDeviceClassSpec =
  mcsProviderType :: ProviderType
  mcsImage :: string
  mcsAPILevel :: int32
  mcsArch :: string
  mcsAVD :: "addr option"
  mcsResources :: 'x
  mcsReadinessProbe :: "addr option"
  mcsNodeSelector :: "addr option"
  mcsTolerations :: "slice option"

record memDeviceClassStatus =
  mctConditions :: "slice option"

record 'x memDeviceClass =
  mcTypeMeta :: typeMeta
  mcObjectMeta :: 'x
  mcSpec :: "'x memDeviceClassSpec"
  mcStatus :: memDeviceClassStatus

record memDevicePoolSpec =
  mpsClasses :: "slice option"
  mpsMaxConcurrent :: int32
  mpsEvictionPolicy :: EvictionPolicy
  mpsSTFRef :: "addr option"

record memDevicePoolStatus =
  mptPerClass :: "slice option"
  mptConditions :: "slice option"

record 'x memDevicePool =
  mpTypeMeta :: typeMeta
  mpObjectMeta :: 'x
  mpSpec :: memDevicePoolSpec
  mpStatus :: memDevicePoolStatus

record memDeviceStatus =
  mdtPhase :: DevicePhase
  mdtADBEndpoint :: string
  mdtUIEndpoint :: string
  mdtLeaseRef :: string
  mdtLastUsedTime :: "addr option"
  mdtConditions :: "slice option"

record 'x memDevice =
  mdTypeMeta :: typeMeta
  mdObjectMeta :: 'x
  mdSpec :: DeviceSpec
  mdStatus :: memDeviceStatus

record memDeviceLeaseStatus =
  mltPhase :: LeasePhase
  mltDeviceRef :: string
  mltADBEndpoint :: string
  mltUIEndpoint :: string
  mltExpiresAt :: "addr option"
  mltLastHeartbeat :: "addr option"
  mltConditions :: "slice option"

record 'x memDeviceLease =
  mlTypeMeta :: typeMeta
  mlObjectMeta :: 'x
  mlSpec :: DeviceLeaseSpec
  mlStatus :: memDeviceLeaseStatus

record 'x memList =   \<comment> \<open>the four list types: metadata and a slice of the kind's structs\<close>
  liTypeMeta :: typeMeta
  liListMeta :: 'x
  liItems :: "slice option"

datatype 'x cell =
    CellStrings (theStrings: "string list")
  | CellConditions (theConditions: "'x list")
  | CellTolerations (theTolerations: "'x list")
  | CellPoolClasses (thePoolClasses: "PoolClass list")
  | CellClassCountss (theClassCountss: "ClassCounts list")
  | CellDevices (theDevices: "'x memDevice list")
  | CellDeviceClasses (theDeviceClasses: "'x memDeviceClass list")
  | CellDeviceLeases (theDeviceLeases: "'x memDeviceLease list")
  | CellDevicePools (theDevicePools: "'x memDevicePool list")
  | CellStringMap (theStringMap: "string \<rightharpoonup> string")
  | CellTime (theTime: "time")
  | CellProbe (theProbe: "'x")
  | CellExternal (theExternal: "'x")
  | CellAVDSpec (theAVDSpec: "memAVDSpec")
  | CellClassCounts (theClassCounts: "ClassCounts")
  | CellDevice (theDevice: "'x memDevice")
  | CellDeviceClass (theDeviceClass: "'x memDeviceClass")
  | CellDeviceClassList (theDeviceClassList: "'x memList")
  | CellDeviceClassSpec (theDeviceClassSpec: "'x memDeviceClassSpec")
  | CellDeviceClassStatus (theDeviceClassStatus: "memDeviceClassStatus")
  | CellDeviceLease (theDeviceLease: "'x memDeviceLease")
  | CellDeviceLeaseList (theDeviceLeaseList: "'x memList")
  | CellDeviceLeaseSpec (theDeviceLeaseSpec: "DeviceLeaseSpec")
  | CellDeviceLeaseStatus (theDeviceLeaseStatus: "memDeviceLeaseStatus")
  | CellDeviceList (theDeviceList: "'x memList")
  | CellDevicePool (theDevicePool: "'x memDevicePool")
  | CellDevicePoolList (theDevicePoolList: "'x memList")
  | CellDevicePoolSpec (theDevicePoolSpec: "memDevicePoolSpec")
  | CellDevicePoolStatus (theDevicePoolStatus: "memDevicePoolStatus")
  | CellDeviceSpec (theDeviceSpec: "DeviceSpec")
  | CellDeviceStatus (theDeviceStatus: "memDeviceStatus")
  | CellPoolClass (thePoolClass: "PoolClass")
  | CellSTFRef (theSTFRef: "STFRef")

type_synonym 'x memory = "'x cell heap"

definition asCell :: "('c \<Rightarrow> bool) \<Rightarrow> ('c \<Rightarrow> 'b) \<Rightarrow> 'c \<Rightarrow> 'b option" where
  "asCell is_it the_it c = (if is_it c then Some (the_it c) else None)"

abbreviation "asStrings \<equiv> asCell is_CellStrings theStrings"
abbreviation "asConditions \<equiv> asCell is_CellConditions theConditions"
abbreviation "asTolerations \<equiv> asCell is_CellTolerations theTolerations"
abbreviation "asPoolClasses \<equiv> asCell is_CellPoolClasses thePoolClasses"
abbreviation "asClassCountss \<equiv> asCell is_CellClassCountss theClassCountss"
abbreviation "asDevices \<equiv> asCell is_CellDevices theDevices"
abbreviation "asDeviceClasses \<equiv> asCell is_CellDeviceClasses theDeviceClasses"
abbreviation "asDeviceLeases \<equiv> asCell is_CellDeviceLeases theDeviceLeases"
abbreviation "asDevicePools \<equiv> asCell is_CellDevicePools theDevicePools"
abbreviation "asStringMap \<equiv> asCell is_CellStringMap theStringMap"
abbreviation "asTime \<equiv> asCell is_CellTime theTime"
abbreviation "asProbe \<equiv> asCell is_CellProbe theProbe"
abbreviation "asExternal \<equiv> asCell is_CellExternal theExternal"
abbreviation "asAVDSpec \<equiv> asCell is_CellAVDSpec theAVDSpec"
abbreviation "asClassCounts \<equiv> asCell is_CellClassCounts theClassCounts"
abbreviation "asDevice \<equiv> asCell is_CellDevice theDevice"
abbreviation "asDeviceClass \<equiv> asCell is_CellDeviceClass theDeviceClass"
abbreviation "asDeviceClassList \<equiv> asCell is_CellDeviceClassList theDeviceClassList"
abbreviation "asDeviceClassSpec \<equiv> asCell is_CellDeviceClassSpec theDeviceClassSpec"
abbreviation "asDeviceClassStatus \<equiv> asCell is_CellDeviceClassStatus theDeviceClassStatus"
abbreviation "asDeviceLease \<equiv> asCell is_CellDeviceLease theDeviceLease"
abbreviation "asDeviceLeaseList \<equiv> asCell is_CellDeviceLeaseList theDeviceLeaseList"
abbreviation "asDeviceLeaseSpec \<equiv> asCell is_CellDeviceLeaseSpec theDeviceLeaseSpec"
abbreviation "asDeviceLeaseStatus \<equiv> asCell is_CellDeviceLeaseStatus theDeviceLeaseStatus"
abbreviation "asDeviceList \<equiv> asCell is_CellDeviceList theDeviceList"
abbreviation "asDevicePool \<equiv> asCell is_CellDevicePool theDevicePool"
abbreviation "asDevicePoolList \<equiv> asCell is_CellDevicePoolList theDevicePoolList"
abbreviation "asDevicePoolSpec \<equiv> asCell is_CellDevicePoolSpec theDevicePoolSpec"
abbreviation "asDevicePoolStatus \<equiv> asCell is_CellDevicePoolStatus theDevicePoolStatus"
abbreviation "asDeviceSpec \<equiv> asCell is_CellDeviceSpec theDeviceSpec"
abbreviation "asDeviceStatus \<equiv> asCell is_CellDeviceStatus theDeviceStatus"
abbreviation "asPoolClass \<equiv> asCell is_CellPoolClass thePoolClass"
abbreviation "asSTFRef \<equiv> asCell is_CellSTFRef theSTFRef"

record 'x copyLib =
  ObjectMeta_DeepCopyInto :: "'x \<Rightarrow> 'x memory \<Rightarrow> 'x \<times> 'x memory"
  ListMeta_DeepCopyInto :: "'x \<Rightarrow> 'x memory \<Rightarrow> 'x \<times> 'x memory"
  ResourceRequirements_DeepCopyInto :: "'x \<Rightarrow> 'x memory \<Rightarrow> 'x \<times> 'x memory"
  Probe_DeepCopyInto :: "'x \<Rightarrow> 'x memory \<Rightarrow> 'x \<times> 'x memory"
  Toleration_DeepCopyInto :: "'x \<Rightarrow> 'x memory \<Rightarrow> 'x \<times> 'x memory"
  Condition_DeepCopyInto :: "'x \<Rightarrow> 'x memory \<Rightarrow> 'x \<times> 'x memory"
  Time_DeepCopy :: "addr \<Rightarrow> 'x memory \<Rightarrow> addr \<times> 'x memory"

subsection \<open>DeepCopyInto\<close>

definition AVDSpec_DeepCopyInto :: "memAVDSpec \<Rightarrow> 'x memory \<Rightarrow> memAVDSpec \<times> 'x memory" where
  "AVDSpec_DeepCopyInto inn h =
     (let (args, h) = ifNotNil (newSlice CellStrings asStrings flatCopy) (maExtraArgs inn) h
      in (inn\<lparr>maExtraArgs := args\<rparr>, h))"

definition ClassCounts_DeepCopyInto :: "ClassCounts \<Rightarrow> 'x memory \<Rightarrow> ClassCounts \<times> 'x memory" where
  "ClassCounts_DeepCopyInto inn h =
     flatCopy inn h"

definition PoolClass_DeepCopyInto :: "PoolClass \<Rightarrow> 'x memory \<Rightarrow> PoolClass \<times> 'x memory" where
  "PoolClass_DeepCopyInto inn h =
     flatCopy inn h"

definition STFRef_DeepCopyInto :: "STFRef \<Rightarrow> 'x memory \<Rightarrow> STFRef \<times> 'x memory" where
  "STFRef_DeepCopyInto inn h =
     flatCopy inn h"

definition DeviceSpec_DeepCopyInto :: "DeviceSpec \<Rightarrow> 'x memory \<Rightarrow> DeviceSpec \<times> 'x memory" where
  "DeviceSpec_DeepCopyInto inn h =
     flatCopy inn h"

definition DeviceLeaseSpec_DeepCopyInto :: "DeviceLeaseSpec \<Rightarrow> 'x memory \<Rightarrow> DeviceLeaseSpec \<times> 'x memory" where
  "DeviceLeaseSpec_DeepCopyInto inn h =
     flatCopy inn h"

definition DeviceStatus_DeepCopyInto :: "'x copyLib \<Rightarrow> memDeviceStatus \<Rightarrow> 'x memory \<Rightarrow> memDeviceStatus \<times> 'x memory" where
  "DeviceStatus_DeepCopyInto lib inn h =
     (let (t, h) = ifNotNil (Time_DeepCopy lib) (mdtLastUsedTime inn) h;
          (cs, h) = ifNotNil (newSlice CellConditions asConditions (Condition_DeepCopyInto lib)) (mdtConditions inn) h
      in (inn\<lparr>mdtLastUsedTime := t, mdtConditions := cs\<rparr>, h))"

definition DeviceLeaseStatus_DeepCopyInto :: "'x copyLib \<Rightarrow> memDeviceLeaseStatus \<Rightarrow> 'x memory \<Rightarrow> memDeviceLeaseStatus \<times> 'x memory" where
  "DeviceLeaseStatus_DeepCopyInto lib inn h =
     (let (e, h) = ifNotNil (Time_DeepCopy lib) (mltExpiresAt inn) h;
          (b, h) = ifNotNil (Time_DeepCopy lib) (mltLastHeartbeat inn) h;
          (cs, h) = ifNotNil (newSlice CellConditions asConditions (Condition_DeepCopyInto lib)) (mltConditions inn) h
      in (inn\<lparr>mltExpiresAt := e, mltLastHeartbeat := b, mltConditions := cs\<rparr>, h))"

definition DeviceClassStatus_DeepCopyInto :: "'x copyLib \<Rightarrow> memDeviceClassStatus \<Rightarrow> 'x memory \<Rightarrow> memDeviceClassStatus \<times> 'x memory" where
  "DeviceClassStatus_DeepCopyInto lib inn h =
     (let (cs, h) = ifNotNil (newSlice CellConditions asConditions (Condition_DeepCopyInto lib)) (mctConditions inn) h
      in (inn\<lparr>mctConditions := cs\<rparr>, h))"

definition DeviceClassSpec_DeepCopyInto :: "'x copyLib \<Rightarrow> 'x memDeviceClassSpec \<Rightarrow> 'x memory \<Rightarrow> ('x memDeviceClassSpec) \<times> 'x memory" where
  "DeviceClassSpec_DeepCopyInto lib inn h =
     (let (avd, h) = ifNotNil (newPtr CellAVDSpec asAVDSpec AVDSpec_DeepCopyInto) (mcsAVD inn) h;
          (res, h) = ResourceRequirements_DeepCopyInto lib (mcsResources inn) h;
          (pr, h) = ifNotNil (newPtr CellProbe asProbe (Probe_DeepCopyInto lib)) (mcsReadinessProbe inn) h;
          (ns, h) = ifNotNil (newPtr CellStringMap asStringMap flatCopy) (mcsNodeSelector inn) h;
          (tols, h) = ifNotNil (newSlice CellTolerations asTolerations (Toleration_DeepCopyInto lib)) (mcsTolerations inn) h
      in (inn\<lparr>mcsAVD := avd, mcsResources := res, mcsReadinessProbe := pr, mcsNodeSelector := ns, mcsTolerations := tols\<rparr>, h))"

definition DevicePoolSpec_DeepCopyInto :: "memDevicePoolSpec \<Rightarrow> 'x memory \<Rightarrow> memDevicePoolSpec \<times> 'x memory" where
  "DevicePoolSpec_DeepCopyInto inn h =
     (let (cs, h) = ifNotNil (newSlice CellPoolClasses asPoolClasses flatCopy) (mpsClasses inn) h;
          (stf, h) = ifNotNil (newPtr CellSTFRef asSTFRef flatCopy) (mpsSTFRef inn) h
      in (inn\<lparr>mpsClasses := cs, mpsSTFRef := stf\<rparr>, h))"

definition DevicePoolStatus_DeepCopyInto :: "'x copyLib \<Rightarrow> memDevicePoolStatus \<Rightarrow> 'x memory \<Rightarrow> memDevicePoolStatus \<times> 'x memory" where
  "DevicePoolStatus_DeepCopyInto lib inn h =
     (let (pc, h) = ifNotNil (newSlice CellClassCountss asClassCountss flatCopy) (mptPerClass inn) h;
          (cs, h) = ifNotNil (newSlice CellConditions asConditions (Condition_DeepCopyInto lib)) (mptConditions inn) h
      in (inn\<lparr>mptPerClass := pc, mptConditions := cs\<rparr>, h))"

definition Device_DeepCopyInto :: "'x copyLib \<Rightarrow> 'x memDevice \<Rightarrow> 'x memory \<Rightarrow> ('x memDevice) \<times> 'x memory" where
  "Device_DeepCopyInto lib inn h =
     (let (m, h) = ObjectMeta_DeepCopyInto lib (mdObjectMeta inn) h;
          (st, h) = DeviceStatus_DeepCopyInto lib (mdStatus inn) h
      in (inn\<lparr>mdObjectMeta := m, mdStatus := st\<rparr>, h))"

definition DeviceLease_DeepCopyInto :: "'x copyLib \<Rightarrow> 'x memDeviceLease \<Rightarrow> 'x memory \<Rightarrow> ('x memDeviceLease) \<times> 'x memory" where
  "DeviceLease_DeepCopyInto lib inn h =
     (let (m, h) = ObjectMeta_DeepCopyInto lib (mlObjectMeta inn) h;
          (st, h) = DeviceLeaseStatus_DeepCopyInto lib (mlStatus inn) h
      in (inn\<lparr>mlObjectMeta := m, mlStatus := st\<rparr>, h))"

definition DeviceClass_DeepCopyInto :: "'x copyLib \<Rightarrow> 'x memDeviceClass \<Rightarrow> 'x memory \<Rightarrow> ('x memDeviceClass) \<times> 'x memory" where
  "DeviceClass_DeepCopyInto lib inn h =
     (let (m, h) = ObjectMeta_DeepCopyInto lib (mcObjectMeta inn) h;
          (sp, h) = DeviceClassSpec_DeepCopyInto lib (mcSpec inn) h;
          (st, h) = DeviceClassStatus_DeepCopyInto lib (mcStatus inn) h
      in (inn\<lparr>mcObjectMeta := m, mcSpec := sp, mcStatus := st\<rparr>, h))"

definition DevicePool_DeepCopyInto :: "'x copyLib \<Rightarrow> 'x memDevicePool \<Rightarrow> 'x memory \<Rightarrow> ('x memDevicePool) \<times> 'x memory" where
  "DevicePool_DeepCopyInto lib inn h =
     (let (m, h) = ObjectMeta_DeepCopyInto lib (mpObjectMeta inn) h;
          (sp, h) = DevicePoolSpec_DeepCopyInto (mpSpec inn) h;
          (st, h) = DevicePoolStatus_DeepCopyInto lib (mpStatus inn) h
      in (inn\<lparr>mpObjectMeta := m, mpSpec := sp, mpStatus := st\<rparr>, h))"

definition DeviceList_DeepCopyInto :: "'x copyLib \<Rightarrow> 'x memList \<Rightarrow> 'x memory \<Rightarrow> ('x memList) \<times> 'x memory" where
  "DeviceList_DeepCopyInto lib inn h =
     (let (m, h) = ListMeta_DeepCopyInto lib (liListMeta inn) h;
          (items, h) = ifNotNil (newSlice CellDevices asDevices (Device_DeepCopyInto lib)) (liItems inn) h
      in (inn\<lparr>liListMeta := m, liItems := items\<rparr>, h))"

definition DeviceClassList_DeepCopyInto :: "'x copyLib \<Rightarrow> 'x memList \<Rightarrow> 'x memory \<Rightarrow> ('x memList) \<times> 'x memory" where
  "DeviceClassList_DeepCopyInto lib inn h =
     (let (m, h) = ListMeta_DeepCopyInto lib (liListMeta inn) h;
          (items, h) = ifNotNil (newSlice CellDeviceClasses asDeviceClasses (DeviceClass_DeepCopyInto lib)) (liItems inn) h
      in (inn\<lparr>liListMeta := m, liItems := items\<rparr>, h))"

definition DeviceLeaseList_DeepCopyInto :: "'x copyLib \<Rightarrow> 'x memList \<Rightarrow> 'x memory \<Rightarrow> ('x memList) \<times> 'x memory" where
  "DeviceLeaseList_DeepCopyInto lib inn h =
     (let (m, h) = ListMeta_DeepCopyInto lib (liListMeta inn) h;
          (items, h) = ifNotNil (newSlice CellDeviceLeases asDeviceLeases (DeviceLease_DeepCopyInto lib)) (liItems inn) h
      in (inn\<lparr>liListMeta := m, liItems := items\<rparr>, h))"

definition DevicePoolList_DeepCopyInto :: "'x copyLib \<Rightarrow> 'x memList \<Rightarrow> 'x memory \<Rightarrow> ('x memList) \<times> 'x memory" where
  "DevicePoolList_DeepCopyInto lib inn h =
     (let (m, h) = ListMeta_DeepCopyInto lib (liListMeta inn) h;
          (items, h) = ifNotNil (newSlice CellDevicePools asDevicePools (DevicePool_DeepCopyInto lib)) (liItems inn) h
      in (inn\<lparr>liListMeta := m, liItems := items\<rparr>, h))"

subsection \<open>DeepCopy\<close>

text \<open>Nil for nil, otherwise a new struct that the receiver is copied into.\<close>

definition AVDSpec_DeepCopy :: "addr option \<Rightarrow> 'x memory \<Rightarrow> addr option \<times> 'x memory" where
  "AVDSpec_DeepCopy = ifNotNil (newPtr CellAVDSpec asAVDSpec AVDSpec_DeepCopyInto)"

definition ClassCounts_DeepCopy :: "addr option \<Rightarrow> 'x memory \<Rightarrow> addr option \<times> 'x memory" where
  "ClassCounts_DeepCopy = ifNotNil (newPtr CellClassCounts asClassCounts ClassCounts_DeepCopyInto)"

definition Device_DeepCopy :: "'x copyLib \<Rightarrow> addr option \<Rightarrow> 'x memory \<Rightarrow> addr option \<times> 'x memory" where
  "Device_DeepCopy lib = ifNotNil (newPtr CellDevice asDevice (Device_DeepCopyInto lib))"

definition DeviceClass_DeepCopy :: "'x copyLib \<Rightarrow> addr option \<Rightarrow> 'x memory \<Rightarrow> addr option \<times> 'x memory" where
  "DeviceClass_DeepCopy lib = ifNotNil (newPtr CellDeviceClass asDeviceClass (DeviceClass_DeepCopyInto lib))"

definition DeviceClassList_DeepCopy :: "'x copyLib \<Rightarrow> addr option \<Rightarrow> 'x memory \<Rightarrow> addr option \<times> 'x memory" where
  "DeviceClassList_DeepCopy lib = ifNotNil (newPtr CellDeviceClassList asDeviceClassList (DeviceClassList_DeepCopyInto lib))"

definition DeviceClassSpec_DeepCopy :: "'x copyLib \<Rightarrow> addr option \<Rightarrow> 'x memory \<Rightarrow> addr option \<times> 'x memory" where
  "DeviceClassSpec_DeepCopy lib = ifNotNil (newPtr CellDeviceClassSpec asDeviceClassSpec (DeviceClassSpec_DeepCopyInto lib))"

definition DeviceClassStatus_DeepCopy :: "'x copyLib \<Rightarrow> addr option \<Rightarrow> 'x memory \<Rightarrow> addr option \<times> 'x memory" where
  "DeviceClassStatus_DeepCopy lib = ifNotNil (newPtr CellDeviceClassStatus asDeviceClassStatus (DeviceClassStatus_DeepCopyInto lib))"

definition DeviceLease_DeepCopy :: "'x copyLib \<Rightarrow> addr option \<Rightarrow> 'x memory \<Rightarrow> addr option \<times> 'x memory" where
  "DeviceLease_DeepCopy lib = ifNotNil (newPtr CellDeviceLease asDeviceLease (DeviceLease_DeepCopyInto lib))"

definition DeviceLeaseList_DeepCopy :: "'x copyLib \<Rightarrow> addr option \<Rightarrow> 'x memory \<Rightarrow> addr option \<times> 'x memory" where
  "DeviceLeaseList_DeepCopy lib = ifNotNil (newPtr CellDeviceLeaseList asDeviceLeaseList (DeviceLeaseList_DeepCopyInto lib))"

definition DeviceLeaseSpec_DeepCopy :: "addr option \<Rightarrow> 'x memory \<Rightarrow> addr option \<times> 'x memory" where
  "DeviceLeaseSpec_DeepCopy = ifNotNil (newPtr CellDeviceLeaseSpec asDeviceLeaseSpec DeviceLeaseSpec_DeepCopyInto)"

definition DeviceLeaseStatus_DeepCopy :: "'x copyLib \<Rightarrow> addr option \<Rightarrow> 'x memory \<Rightarrow> addr option \<times> 'x memory" where
  "DeviceLeaseStatus_DeepCopy lib = ifNotNil (newPtr CellDeviceLeaseStatus asDeviceLeaseStatus (DeviceLeaseStatus_DeepCopyInto lib))"

definition DeviceList_DeepCopy :: "'x copyLib \<Rightarrow> addr option \<Rightarrow> 'x memory \<Rightarrow> addr option \<times> 'x memory" where
  "DeviceList_DeepCopy lib = ifNotNil (newPtr CellDeviceList asDeviceList (DeviceList_DeepCopyInto lib))"

definition DevicePool_DeepCopy :: "'x copyLib \<Rightarrow> addr option \<Rightarrow> 'x memory \<Rightarrow> addr option \<times> 'x memory" where
  "DevicePool_DeepCopy lib = ifNotNil (newPtr CellDevicePool asDevicePool (DevicePool_DeepCopyInto lib))"

definition DevicePoolList_DeepCopy :: "'x copyLib \<Rightarrow> addr option \<Rightarrow> 'x memory \<Rightarrow> addr option \<times> 'x memory" where
  "DevicePoolList_DeepCopy lib = ifNotNil (newPtr CellDevicePoolList asDevicePoolList (DevicePoolList_DeepCopyInto lib))"

definition DevicePoolSpec_DeepCopy :: "addr option \<Rightarrow> 'x memory \<Rightarrow> addr option \<times> 'x memory" where
  "DevicePoolSpec_DeepCopy = ifNotNil (newPtr CellDevicePoolSpec asDevicePoolSpec DevicePoolSpec_DeepCopyInto)"

definition DevicePoolStatus_DeepCopy :: "'x copyLib \<Rightarrow> addr option \<Rightarrow> 'x memory \<Rightarrow> addr option \<times> 'x memory" where
  "DevicePoolStatus_DeepCopy lib = ifNotNil (newPtr CellDevicePoolStatus asDevicePoolStatus (DevicePoolStatus_DeepCopyInto lib))"

definition DeviceSpec_DeepCopy :: "addr option \<Rightarrow> 'x memory \<Rightarrow> addr option \<times> 'x memory" where
  "DeviceSpec_DeepCopy = ifNotNil (newPtr CellDeviceSpec asDeviceSpec DeviceSpec_DeepCopyInto)"

definition DeviceStatus_DeepCopy :: "'x copyLib \<Rightarrow> addr option \<Rightarrow> 'x memory \<Rightarrow> addr option \<times> 'x memory" where
  "DeviceStatus_DeepCopy lib = ifNotNil (newPtr CellDeviceStatus asDeviceStatus (DeviceStatus_DeepCopyInto lib))"

definition PoolClass_DeepCopy :: "addr option \<Rightarrow> 'x memory \<Rightarrow> addr option \<times> 'x memory" where
  "PoolClass_DeepCopy = ifNotNil (newPtr CellPoolClass asPoolClass PoolClass_DeepCopyInto)"

definition STFRef_DeepCopy :: "addr option \<Rightarrow> 'x memory \<Rightarrow> addr option \<times> 'x memory" where
  "STFRef_DeepCopy = ifNotNil (newPtr CellSTFRef asSTFRef STFRef_DeepCopyInto)"

subsection \<open>DeepCopyObject\<close>

datatype objectKind = KindDevice | KindDeviceList | KindDeviceClass | KindDeviceClassList | KindDeviceLease | KindDeviceLeaseList | KindDevicePool | KindDevicePoolList

type_synonym runtimeObject = "(objectKind \<times> addr option) option"
  \<comment> \<open>an interface value: nil, or a dynamic type with a pointer of that type, which may be nil itself\<close>

definition Device_DeepCopyObject :: "'x copyLib \<Rightarrow> addr option \<Rightarrow> 'x memory \<Rightarrow> runtimeObject \<times> 'x memory" where
  "Device_DeepCopyObject lib p h = (let (c, h) = Device_DeepCopy lib p h in if c \<noteq> None then (Some (KindDevice, c), h) else (None, h))"

definition DeviceList_DeepCopyObject :: "'x copyLib \<Rightarrow> addr option \<Rightarrow> 'x memory \<Rightarrow> runtimeObject \<times> 'x memory" where
  "DeviceList_DeepCopyObject lib p h = (let (c, h) = DeviceList_DeepCopy lib p h in if c \<noteq> None then (Some (KindDeviceList, c), h) else (None, h))"

definition DeviceClass_DeepCopyObject :: "'x copyLib \<Rightarrow> addr option \<Rightarrow> 'x memory \<Rightarrow> runtimeObject \<times> 'x memory" where
  "DeviceClass_DeepCopyObject lib p h = (let (c, h) = DeviceClass_DeepCopy lib p h in if c \<noteq> None then (Some (KindDeviceClass, c), h) else (None, h))"

definition DeviceClassList_DeepCopyObject :: "'x copyLib \<Rightarrow> addr option \<Rightarrow> 'x memory \<Rightarrow> runtimeObject \<times> 'x memory" where
  "DeviceClassList_DeepCopyObject lib p h = (let (c, h) = DeviceClassList_DeepCopy lib p h in if c \<noteq> None then (Some (KindDeviceClassList, c), h) else (None, h))"

definition DeviceLease_DeepCopyObject :: "'x copyLib \<Rightarrow> addr option \<Rightarrow> 'x memory \<Rightarrow> runtimeObject \<times> 'x memory" where
  "DeviceLease_DeepCopyObject lib p h = (let (c, h) = DeviceLease_DeepCopy lib p h in if c \<noteq> None then (Some (KindDeviceLease, c), h) else (None, h))"

definition DeviceLeaseList_DeepCopyObject :: "'x copyLib \<Rightarrow> addr option \<Rightarrow> 'x memory \<Rightarrow> runtimeObject \<times> 'x memory" where
  "DeviceLeaseList_DeepCopyObject lib p h = (let (c, h) = DeviceLeaseList_DeepCopy lib p h in if c \<noteq> None then (Some (KindDeviceLeaseList, c), h) else (None, h))"

definition DevicePool_DeepCopyObject :: "'x copyLib \<Rightarrow> addr option \<Rightarrow> 'x memory \<Rightarrow> runtimeObject \<times> 'x memory" where
  "DevicePool_DeepCopyObject lib p h = (let (c, h) = DevicePool_DeepCopy lib p h in if c \<noteq> None then (Some (KindDevicePool, c), h) else (None, h))"

definition DevicePoolList_DeepCopyObject :: "'x copyLib \<Rightarrow> addr option \<Rightarrow> 'x memory \<Rightarrow> runtimeObject \<times> 'x memory" where
  "DevicePoolList_DeepCopyObject lib p h = (let (c, h) = DevicePoolList_DeepCopy lib p h in if c \<noteq> None then (Some (KindDevicePoolList, c), h) else (None, h))"

end
