(* ===== verification/Deep_Copy_Laws.thy ===== *)
theory Deep_Copy_Laws
  imports Deep_Copy
begin

text \<open>
  The generated copies share no memory with what they copy. \<open>external\<close> says what structs of the Kubernetes
  libraries reach and show, the locale \<open>copy_library\<close> what is documented of the libraries' own copies; a
  struct in memory shows the API record of \<open>Api_Types\<close>, so that records stand for structs wherever a deep
  copy separates them. The last part does this for the client's heartbeat.
\<close>

subsection \<open>What the structs reach and show\<close>

record ('x, 'l) external =
  exReach :: "'x memory \<Rightarrow> 'x \<Rightarrow> addr set"
  exMeta :: "'x memory \<Rightarrow> 'x \<Rightarrow> objectMeta"
  exListMeta :: "'x memory \<Rightarrow> 'x \<Rightarrow> 'l"
  exResources :: "'x memory \<Rightarrow> 'x \<Rightarrow> resourceRequirements"
  exProbe :: "'x memory \<Rightarrow> 'x \<Rightarrow> probe"
  exToleration :: "'x memory \<Rightarrow> 'x \<Rightarrow> toleration"
  exCondition :: "'x memory \<Rightarrow> 'x \<Rightarrow> condition"

definition orNil :: "'a list option \<Rightarrow> 'a list" where "orNil s = (case s of None \<Rightarrow> [] | Some xs \<Rightarrow> xs)"
definition deref :: "'a option option \<Rightarrow> 'a option" where "deref p = Option.bind p id"

definition reachTime :: "'x memory \<Rightarrow> addr option \<Rightarrow> addr set" where "reachTime = reachOpt (reachPtr asTime reachNone)"
definition reachConditions :: "('x, 'l) external \<Rightarrow> 'x memory \<Rightarrow> slice option \<Rightarrow> addr set" where
  "reachConditions ex = reachOpt (reachSlice asConditions (exReach ex))"
definition viewTime :: "'x memory \<Rightarrow> addr option \<Rightarrow> time option" where
  "viewTime h p = deref (viewOpt (viewPtr asTime viewFlat) h p)"
definition viewConditions :: "('x, 'l) external \<Rightarrow> 'x memory \<Rightarrow> slice option \<Rightarrow> condition list" where
  "viewConditions ex h s = orNil (viewOpt (viewSlice asConditions (exCondition ex)) h s)"

definition reachAVDSpec :: "'x memory \<Rightarrow> memAVDSpec \<Rightarrow> addr set" where
  "reachAVDSpec h s = reachOpt (reachSlice asStrings reachNone) h (maExtraArgs s)"
definition viewAVDSpec :: "'x memory \<Rightarrow> memAVDSpec \<Rightarrow> AVDSpec" where
  "viewAVDSpec h s = \<lparr> avdSkin = maSkin s, avdDensity = maDensity s,
     avdExtraArgs = orNil (viewOpt (viewSlice asStrings viewFlat) h (maExtraArgs s)) \<rparr>"

definition reachDeviceStatus :: "('x, 'l) external \<Rightarrow> 'x memory \<Rightarrow> memDeviceStatus \<Rightarrow> addr set" where
  "reachDeviceStatus ex h s = reachTime h (mdtLastUsedTime s) \<union> reachConditions ex h (mdtConditions s)"
definition viewDeviceStatus :: "('x, 'l) external \<Rightarrow> 'x memory \<Rightarrow> memDeviceStatus \<Rightarrow> DeviceStatus" where
  "viewDeviceStatus ex h s = \<lparr> dtPhase = mdtPhase s, dtADBEndpoint = mdtADBEndpoint s, dtUIEndpoint = mdtUIEndpoint s,
     dtLeaseRef = mdtLeaseRef s, dtLastUsedTime = viewTime h (mdtLastUsedTime s), dtConditions = viewConditions ex h (mdtConditions s) \<rparr>"

definition reachDevice :: "('x, 'l) external \<Rightarrow> 'x memory \<Rightarrow> 'x memDevice \<Rightarrow> addr set" where
  "reachDevice ex h d = exReach ex h (mdObjectMeta d) \<union> reachDeviceStatus ex h (mdStatus d)"
definition viewDevice :: "('x, 'l) external \<Rightarrow> 'x memory \<Rightarrow> 'x memDevice \<Rightarrow> Device" where
  "viewDevice ex h d = \<lparr> devMeta = exMeta ex h (mdObjectMeta d), devSpec = mdSpec d, devStatus = viewDeviceStatus ex h (mdStatus d) \<rparr>"

definition reachDeviceLeaseStatus :: "('x, 'l) external \<Rightarrow> 'x memory \<Rightarrow> memDeviceLeaseStatus \<Rightarrow> addr set" where
  "reachDeviceLeaseStatus ex h s =
     reachTime h (mltExpiresAt s) \<union> (reachTime h (mltLastHeartbeat s) \<union> reachConditions ex h (mltConditions s))"
definition viewDeviceLeaseStatus :: "('x, 'l) external \<Rightarrow> 'x memory \<Rightarrow> memDeviceLeaseStatus \<Rightarrow> DeviceLeaseStatus" where
  "viewDeviceLeaseStatus ex h s = \<lparr> ltPhase = mltPhase s, ltDeviceRef = mltDeviceRef s, ltADBEndpoint = mltADBEndpoint s,
     ltUIEndpoint = mltUIEndpoint s, ltExpiresAt = viewTime h (mltExpiresAt s), ltLastHeartbeat = viewTime h (mltLastHeartbeat s),
     ltConditions = viewConditions ex h (mltConditions s) \<rparr>"

definition reachDeviceLease :: "('x, 'l) external \<Rightarrow> 'x memory \<Rightarrow> 'x memDeviceLease \<Rightarrow> addr set" where
  "reachDeviceLease ex h l = exReach ex h (mlObjectMeta l) \<union> reachDeviceLeaseStatus ex h (mlStatus l)"
definition viewDeviceLease :: "('x, 'l) external \<Rightarrow> 'x memory \<Rightarrow> 'x memDeviceLease \<Rightarrow> DeviceLease" where
  "viewDeviceLease ex h l = \<lparr> leaseMeta = exMeta ex h (mlObjectMeta l), leaseSpec = mlSpec l,
     leaseStatus = viewDeviceLeaseStatus ex h (mlStatus l) \<rparr>"

definition reachDeviceClassSpec :: "('x, 'l) external \<Rightarrow> 'x memory \<Rightarrow> 'x memDeviceClassSpec \<Rightarrow> addr set" where
  "reachDeviceClassSpec ex h s = reachOpt (reachPtr asAVDSpec reachAVDSpec) h (mcsAVD s) \<union> (exReach ex h (mcsResources s) \<union>
     (reachOpt (reachPtr asProbe (exReach ex)) h (mcsReadinessProbe s) \<union>
     (reachOpt (reachPtr asStringMap reachNone) h (mcsNodeSelector s) \<union>
      reachOpt (reachSlice asTolerations (exReach ex)) h (mcsTolerations s))))"
definition viewDeviceClassSpec :: "('x, 'l) external \<Rightarrow> 'x memory \<Rightarrow> 'x memDeviceClassSpec \<Rightarrow> DeviceClassSpec" where
  "viewDeviceClassSpec ex h s = \<lparr> dcsProviderType = mcsProviderType s, dcsImage = mcsImage s, dcsAPILevel = mcsAPILevel s, dcsArch = mcsArch s,
     dcsAVD = deref (viewOpt (viewPtr asAVDSpec viewAVDSpec) h (mcsAVD s)),
     dcsResources = exResources ex h (mcsResources s),
     dcsReadinessProbe = deref (viewOpt (viewPtr asProbe (exProbe ex)) h (mcsReadinessProbe s)),
     dcsNodeSelector = (case deref (viewOpt (viewPtr asStringMap viewFlat) h (mcsNodeSelector s)) of None \<Rightarrow> Map.empty | Some m \<Rightarrow> m),
     dcsTolerations = orNil (viewOpt (viewSlice asTolerations (exToleration ex)) h (mcsTolerations s)) \<rparr>"

definition reachDeviceClassStatus :: "('x, 'l) external \<Rightarrow> 'x memory \<Rightarrow> memDeviceClassStatus \<Rightarrow> addr set" where
  "reachDeviceClassStatus ex h s = reachConditions ex h (mctConditions s)"
definition viewDeviceClassStatus :: "('x, 'l) external \<Rightarrow> 'x memory \<Rightarrow> memDeviceClassStatus \<Rightarrow> condition list" where
  "viewDeviceClassStatus ex h s = viewConditions ex h (mctConditions s)"

definition reachDeviceClass :: "('x, 'l) external \<Rightarrow> 'x memory \<Rightarrow> 'x memDeviceClass \<Rightarrow> addr set" where
  "reachDeviceClass ex h c =
     exReach ex h (mcObjectMeta c) \<union> (reachDeviceClassSpec ex h (mcSpec c) \<union> reachDeviceClassStatus ex h (mcStatus c))"
definition viewDeviceClass :: "('x, 'l) external \<Rightarrow> 'x memory \<Rightarrow> 'x memDeviceClass \<Rightarrow> DeviceClass" where
  "viewDeviceClass ex h c = \<lparr> dcMeta = exMeta ex h (mcObjectMeta c), dcSpec = viewDeviceClassSpec ex h (mcSpec c),
     dcConditions = viewDeviceClassStatus ex h (mcStatus c) \<rparr>"

definition reachDevicePoolSpec :: "'x memory \<Rightarrow> memDevicePoolSpec \<Rightarrow> addr set" where
  "reachDevicePoolSpec h s =
     reachOpt (reachSlice asPoolClasses reachNone) h (mpsClasses s) \<union> reachOpt (reachPtr asSTFRef reachNone) h (mpsSTFRef s)"
definition viewDevicePoolSpec :: "'x memory \<Rightarrow> memDevicePoolSpec \<Rightarrow> DevicePoolSpec" where
  "viewDevicePoolSpec h s = \<lparr> dpsClasses = orNil (viewOpt (viewSlice asPoolClasses viewFlat) h (mpsClasses s)),
     dpsMaxConcurrent = mpsMaxConcurrent s, dpsEvictionPolicy = mpsEvictionPolicy s,
     dpsSTFRef = deref (viewOpt (viewPtr asSTFRef viewFlat) h (mpsSTFRef s)) \<rparr>"

definition reachDevicePoolStatus :: "('x, 'l) external \<Rightarrow> 'x memory \<Rightarrow> memDevicePoolStatus \<Rightarrow> addr set" where
  "reachDevicePoolStatus ex h s =
     reachOpt (reachSlice asClassCountss reachNone) h (mptPerClass s) \<union> reachConditions ex h (mptConditions s)"
definition viewDevicePoolStatus :: "('x, 'l) external \<Rightarrow> 'x memory \<Rightarrow> memDevicePoolStatus \<Rightarrow> DevicePoolStatus" where
  "viewDevicePoolStatus ex h s = \<lparr> dptPerClass = orNil (viewOpt (viewSlice asClassCountss viewFlat) h (mptPerClass s)),
     dptConditions = viewConditions ex h (mptConditions s) \<rparr>"

definition reachDevicePool :: "('x, 'l) external \<Rightarrow> 'x memory \<Rightarrow> 'x memDevicePool \<Rightarrow> addr set" where
  "reachDevicePool ex h p =
     exReach ex h (mpObjectMeta p) \<union> (reachDevicePoolSpec h (mpSpec p) \<union> reachDevicePoolStatus ex h (mpStatus p))"
definition viewDevicePool :: "('x, 'l) external \<Rightarrow> 'x memory \<Rightarrow> 'x memDevicePool \<Rightarrow> DevicePool" where
  "viewDevicePool ex h p = \<lparr> poolMeta = exMeta ex h (mpObjectMeta p), poolSpec = viewDevicePoolSpec h (mpSpec p),
     poolStatus = viewDevicePoolStatus ex h (mpStatus p) \<rparr>"

definition reachList :: "('x cell \<Rightarrow> 'i list option) \<Rightarrow> ('x memory \<Rightarrow> 'i \<Rightarrow> addr set) \<Rightarrow> ('x, 'l) external \<Rightarrow> 'x memory \<Rightarrow> 'x memList \<Rightarrow> addr set" where
  "reachList un r ex h l = exReach ex h (liListMeta l) \<union> reachOpt (reachSlice un r) h (liItems l)"
definition viewList :: "('x cell \<Rightarrow> 'i list option) \<Rightarrow> ('x memory \<Rightarrow> 'i \<Rightarrow> 'v) \<Rightarrow> ('x, 'l) external \<Rightarrow> 'x memory \<Rightarrow> 'x memList \<Rightarrow> 'l \<times> 'v list" where
  "viewList un v ex h l = (exListMeta ex h (liListMeta l), orNil (viewOpt (viewSlice un v) h (liItems l)))"

subsection \<open>The laws, struct by struct\<close>

lemma asCell_of [simp]: "is_it c \<Longrightarrow> asCell is_it the_it c = Some (the_it c)"
  by (simp add: asCell_def)

lemma deep_copy_structI:
  assumes "deep_copy c r v" and "\<And>p x. get (put p x) = p" and "\<And>p x w. g (put p x) w = g x w"
    and "\<And>x h. cpy x h = (case c (get x) h of (p, h') \<Rightarrow> (put p x, h'))"
    and "\<And>h x. rch h x = r h (get x)" and "\<And>h x. vw h x = g x (v h (get x))"
  shows "deep_copy cpy rch vw"
proof -
  have "cpy = (\<lambda>x h. case c (get x) h of (p, h') \<Rightarrow> (put p x, h'))" "rch = (\<lambda>h x. r h (get x))" "vw = (\<lambda>h x. g x (v h (get x)))"
    by (intro ext; simp add: assms(4-6))+
  then show ?thesis using deep_copy_struct [of c r v get put g, OF assms(1-3)] by simp
qed

lemmas reaches = reachBoth_def reachTime_def reachConditions_def
lemmas views = viewBoth_def viewTime_def viewConditions_def

lemma AVDSpec_deep: "deep_copy AVDSpec_DeepCopyInto reachAVDSpec viewAVDSpec"
  by (rule deep_copy_structI [where get = maExtraArgs and put = "\<lambda>p x. x\<lparr>maExtraArgs := p\<rparr>" and
      g = "\<lambda>x w. \<lparr> avdSkin = maSkin x, avdDensity = maDensity x, avdExtraArgs = orNil w \<rparr>",
      OF deep_copy_opt [OF deep_copy_slice [OF deep_copy_flat, of asStrings CellStrings]]])
    (simp_all add: AVDSpec_DeepCopyInto_def reachAVDSpec_def viewAVDSpec_def)

lemma DevicePoolSpec_deep: "deep_copy DevicePoolSpec_DeepCopyInto reachDevicePoolSpec viewDevicePoolSpec"
  by (rule deep_copy_structI [where get = "\<lambda>x. (mpsClasses x, mpsSTFRef x)" and put = "\<lambda>p x. x\<lparr>mpsClasses := fst p, mpsSTFRef := snd p\<rparr>" and
      g = "\<lambda>x w. \<lparr> dpsClasses = orNil (fst w), dpsMaxConcurrent = mpsMaxConcurrent x, dpsEvictionPolicy = mpsEvictionPolicy x, dpsSTFRef = deref (snd w) \<rparr>",
      OF deep_copy_both [OF deep_copy_opt [OF deep_copy_slice [OF deep_copy_flat, of asPoolClasses CellPoolClasses]]
        deep_copy_opt [OF deep_copy_ptr [OF deep_copy_flat, of asSTFRef CellSTFRef]]]])
    (simp_all add: DevicePoolSpec_DeepCopyInto_def copyBoth_def reachDevicePoolSpec_def viewDevicePoolSpec_def reaches views split: prod.split)

locale copy_library =
  fixes lib :: "'x copyLib" and ex :: "('x, 'l) external"
  assumes meta: "deep_copy (ObjectMeta_DeepCopyInto lib) (exReach ex) (exMeta ex)"
    and list_meta: "deep_copy (ListMeta_DeepCopyInto lib) (exReach ex) (exListMeta ex)"
    and resources: "deep_copy (ResourceRequirements_DeepCopyInto lib) (exReach ex) (exResources ex)"
    and probe_copy: "deep_copy (Probe_DeepCopyInto lib) (exReach ex) (exProbe ex)"
    and tolerations: "deep_copy (Toleration_DeepCopyInto lib) (exReach ex) (exToleration ex)"
    and conditions: "deep_copy (Condition_DeepCopyInto lib) (exReach ex) (exCondition ex)"
    and times: "deep_copy (Time_DeepCopy lib) (reachPtr asTime reachNone) (viewPtr asTime viewFlat)"
begin

lemmas times_opt = deep_copy_opt [OF times]
lemmas conditions_opt = deep_copy_opt [OF deep_copy_slice [OF conditions, of asConditions CellConditions]]

lemma DeviceStatus_deep: "deep_copy (DeviceStatus_DeepCopyInto lib) (reachDeviceStatus ex) (viewDeviceStatus ex)"
  by (rule deep_copy_structI [where get = "\<lambda>x. (mdtLastUsedTime x, mdtConditions x)" and
      put = "\<lambda>p x. x\<lparr>mdtLastUsedTime := fst p, mdtConditions := snd p\<rparr>" and
      g = "\<lambda>x w. \<lparr> dtPhase = mdtPhase x, dtADBEndpoint = mdtADBEndpoint x, dtUIEndpoint = mdtUIEndpoint x,
        dtLeaseRef = mdtLeaseRef x, dtLastUsedTime = deref (fst w), dtConditions = orNil (snd w) \<rparr>",
      OF deep_copy_both [OF times_opt conditions_opt]])
    (simp_all add: DeviceStatus_DeepCopyInto_def copyBoth_def reachDeviceStatus_def viewDeviceStatus_def reaches views split: prod.split)

lemma DeviceLeaseStatus_deep: "deep_copy (DeviceLeaseStatus_DeepCopyInto lib) (reachDeviceLeaseStatus ex) (viewDeviceLeaseStatus ex)"
  by (rule deep_copy_structI [where get = "\<lambda>x. (mltExpiresAt x, mltLastHeartbeat x, mltConditions x)" and
      put = "\<lambda>p x. x\<lparr>mltExpiresAt := fst p, mltLastHeartbeat := fst (snd p), mltConditions := snd (snd p)\<rparr>" and
      g = "\<lambda>x w. \<lparr> ltPhase = mltPhase x, ltDeviceRef = mltDeviceRef x, ltADBEndpoint = mltADBEndpoint x,
        ltUIEndpoint = mltUIEndpoint x, ltExpiresAt = deref (fst w), ltLastHeartbeat = deref (fst (snd w)), ltConditions = orNil (snd (snd w)) \<rparr>",
      OF deep_copy_both [OF times_opt deep_copy_both [OF times_opt conditions_opt]]])
    (simp_all add: DeviceLeaseStatus_DeepCopyInto_def copyBoth_def reachDeviceLeaseStatus_def viewDeviceLeaseStatus_def reaches views split: prod.split)

lemma DeviceClassStatus_deep: "deep_copy (DeviceClassStatus_DeepCopyInto lib) (reachDeviceClassStatus ex) (viewDeviceClassStatus ex)"
  by (rule deep_copy_structI [where get = mctConditions and put = "\<lambda>p x. x\<lparr>mctConditions := p\<rparr>" and g = "\<lambda>x w. orNil w", OF conditions_opt])
    (simp_all add: DeviceClassStatus_DeepCopyInto_def reachDeviceClassStatus_def viewDeviceClassStatus_def reaches views)

lemma DeviceClassSpec_deep: "deep_copy (DeviceClassSpec_DeepCopyInto lib) (reachDeviceClassSpec ex) (viewDeviceClassSpec ex)"
  by (rule deep_copy_structI [where get = "\<lambda>x. (mcsAVD x, mcsResources x, mcsReadinessProbe x, mcsNodeSelector x, mcsTolerations x)" and
      put = "\<lambda>(a, r, p, n, t) x. x\<lparr>mcsAVD := a, mcsResources := r, mcsReadinessProbe := p, mcsNodeSelector := n, mcsTolerations := t\<rparr>" and
      g = "\<lambda>x (a, r, p, n, t). \<lparr> dcsProviderType = mcsProviderType x, dcsImage = mcsImage x, dcsAPILevel = mcsAPILevel x, dcsArch = mcsArch x,
        dcsAVD = deref a, dcsResources = r, dcsReadinessProbe = deref p, dcsNodeSelector = (case deref n of None \<Rightarrow> Map.empty | Some m \<Rightarrow> m),
        dcsTolerations = orNil t \<rparr>",
      OF deep_copy_both [OF deep_copy_opt [OF deep_copy_ptr [OF AVDSpec_deep, of asAVDSpec CellAVDSpec]] deep_copy_both [OF resources
        deep_copy_both [OF deep_copy_opt [OF deep_copy_ptr [OF probe_copy, of asProbe CellProbe]]
        deep_copy_both [OF deep_copy_opt [OF deep_copy_ptr [OF deep_copy_flat, of asStringMap CellStringMap]]
          deep_copy_opt [OF deep_copy_slice [OF tolerations, of asTolerations CellTolerations]]]]]]])
    (simp_all add: DeviceClassSpec_DeepCopyInto_def copyBoth_def reachDeviceClassSpec_def viewDeviceClassSpec_def reaches views split: prod.split)

lemma DevicePoolStatus_deep: "deep_copy (DevicePoolStatus_DeepCopyInto lib) (reachDevicePoolStatus ex) (viewDevicePoolStatus ex)"
  by (rule deep_copy_structI [where get = "\<lambda>x. (mptPerClass x, mptConditions x)" and put = "\<lambda>p x. x\<lparr>mptPerClass := fst p, mptConditions := snd p\<rparr>" and
      g = "\<lambda>x w. \<lparr> dptPerClass = orNil (fst w), dptConditions = orNil (snd w) \<rparr>",
      OF deep_copy_both [OF deep_copy_opt [OF deep_copy_slice [OF deep_copy_flat, of asClassCountss CellClassCountss]] conditions_opt]])
    (simp_all add: DevicePoolStatus_DeepCopyInto_def copyBoth_def reachDevicePoolStatus_def viewDevicePoolStatus_def reaches views split: prod.split)

lemma Device_deep: "deep_copy (Device_DeepCopyInto lib) (reachDevice ex) (viewDevice ex)"
  by (rule deep_copy_structI [where get = "\<lambda>x. (mdObjectMeta x, mdStatus x)" and put = "\<lambda>p x. x\<lparr>mdObjectMeta := fst p, mdStatus := snd p\<rparr>" and
      g = "\<lambda>x w. \<lparr> devMeta = fst w, devSpec = mdSpec x, devStatus = snd w \<rparr>", OF deep_copy_both [OF meta DeviceStatus_deep]])
    (simp_all add: Device_DeepCopyInto_def copyBoth_def reachDevice_def viewDevice_def reaches views split: prod.split)

lemma DeviceLease_deep: "deep_copy (DeviceLease_DeepCopyInto lib) (reachDeviceLease ex) (viewDeviceLease ex)"
  by (rule deep_copy_structI [where get = "\<lambda>x. (mlObjectMeta x, mlStatus x)" and put = "\<lambda>p x. x\<lparr>mlObjectMeta := fst p, mlStatus := snd p\<rparr>" and
      g = "\<lambda>x w. \<lparr> leaseMeta = fst w, leaseSpec = mlSpec x, leaseStatus = snd w \<rparr>", OF deep_copy_both [OF meta DeviceLeaseStatus_deep]])
    (simp_all add: DeviceLease_DeepCopyInto_def copyBoth_def reachDeviceLease_def viewDeviceLease_def reaches views split: prod.split)

lemma DeviceClass_deep: "deep_copy (DeviceClass_DeepCopyInto lib) (reachDeviceClass ex) (viewDeviceClass ex)"
  by (rule deep_copy_structI [where get = "\<lambda>x. (mcObjectMeta x, mcSpec x, mcStatus x)" and
      put = "\<lambda>p x. x\<lparr>mcObjectMeta := fst p, mcSpec := fst (snd p), mcStatus := snd (snd p)\<rparr>" and
      g = "\<lambda>x w. \<lparr> dcMeta = fst w, dcSpec = fst (snd w), dcConditions = snd (snd w) \<rparr>",
      OF deep_copy_both [OF meta deep_copy_both [OF DeviceClassSpec_deep DeviceClassStatus_deep]]])
    (simp_all add: DeviceClass_DeepCopyInto_def copyBoth_def reachDeviceClass_def viewDeviceClass_def reaches views split: prod.split)

lemma DevicePool_deep: "deep_copy (DevicePool_DeepCopyInto lib) (reachDevicePool ex) (viewDevicePool ex)"
  by (rule deep_copy_structI [where get = "\<lambda>x. (mpObjectMeta x, mpSpec x, mpStatus x)" and
      put = "\<lambda>p x. x\<lparr>mpObjectMeta := fst p, mpSpec := fst (snd p), mpStatus := snd (snd p)\<rparr>" and
      g = "\<lambda>x w. \<lparr> poolMeta = fst w, poolSpec = fst (snd w), poolStatus = snd (snd w) \<rparr>",
      OF deep_copy_both [OF meta deep_copy_both [OF DevicePoolSpec_deep DevicePoolStatus_deep]]])
    (simp_all add: DevicePool_DeepCopyInto_def copyBoth_def reachDevicePool_def viewDevicePool_def reaches views split: prod.split)

lemma list_deep:
  assumes "deep_copy c r v" and "\<And>xs. un (mk xs) = Some xs"
    and "\<And>inn h. cpy inn h = (let (m, h) = ListMeta_DeepCopyInto lib (liListMeta inn) h; (items, h) = ifNotNil (newSlice mk un c) (liItems inn) h
      in (inn\<lparr>liListMeta := m, liItems := items\<rparr>, h))"
  shows "deep_copy cpy (reachList un r ex) (viewList un v ex)"
  by (rule deep_copy_structI [where get = "\<lambda>x. (liListMeta x, liItems x)" and put = "\<lambda>p x. x\<lparr>liListMeta := fst p, liItems := snd p\<rparr>" and
      g = "\<lambda>x w. (fst w, orNil (snd w))", OF deep_copy_both [OF list_meta deep_copy_opt [OF deep_copy_slice [OF assms(1,2)]]]])
    (simp_all add: assms(3) copyBoth_def reachList_def viewList_def reaches views split: prod.split)

lemmas DeviceList_deep = list_deep [OF Device_deep _ DeviceList_DeepCopyInto_def, simplified]
lemmas DeviceClassList_deep = list_deep [OF DeviceClass_deep _ DeviceClassList_DeepCopyInto_def, simplified]
lemmas DeviceLeaseList_deep = list_deep [OF DeviceLease_deep _ DeviceLeaseList_DeepCopyInto_def, simplified]
lemmas DevicePoolList_deep = list_deep [OF DevicePool_deep _ DevicePoolList_DeepCopyInto_def, simplified]

end

subsection \<open>Nothing is shared\<close>

definition sharesNothing :: "('a \<Rightarrow> 'c heap \<Rightarrow> 'a \<times> 'c heap) \<Rightarrow> ('c heap \<Rightarrow> 'a \<Rightarrow> addr set) \<Rightarrow> ('c heap \<Rightarrow> 'a \<Rightarrow> 'v) \<Rightarrow> bool" where
  \<comment> \<open>the copy shows what the original shows, and goes on to do so whatever is written through the other\<close>
  "sharesNothing cp reach view \<longleftrightarrow> (\<forall>h x y h'. reach h x \<subseteq> {..<lim h} \<longrightarrow> cp x h = (y, h') \<longrightarrow>
     view h' y = view h x \<and> view h' x = view h x \<and> reach h' y \<inter> reach h' x = {} \<and>
     (\<forall>h2. sameCells (- reach h' y) h' h2 \<longrightarrow> view h2 x = view h x) \<and>
     (\<forall>h2. sameCells (- reach h' x) h' h2 \<longrightarrow> view h2 y = view h x))"

lemma deep_copy_sharesNothing:
  assumes "deep_copy c r v"
  shows "sharesNothing c r v"
  unfolding sharesNothing_def
proof (intro allI impI)
  fix h h' x y assume b: "r h x \<subseteq> {..<lim h}" and c: "c x h = (y, h')"
  have 1: "grows h h'" "v h' y = v h x" "r h' y \<subseteq> {lim h..<lim h'}" using deep_copy.copies [OF assms b c] by auto
  have 2: "r h' x = r h x" "v h' x = v h x" using deep_copy.frame_grows [OF assms 1(1) b] by auto
  have "r h' y \<inter> r h' x = {}" using 1(3) 2(1) b by fastforce
  then show "v h' y = v h x \<and> v h' x = v h x \<and> r h' y \<inter> r h' x = {} \<and>
     (\<forall>h2. sameCells (- r h' y) h' h2 \<longrightarrow> v h2 x = v h x) \<and> (\<forall>h2. sameCells (- r h' x) h' h2 \<longrightarrow> v h2 y = v h x)"
    using 1 2 deep_copy.independent [OF assms b c] by simp
qed

definition reachRef :: "('c \<Rightarrow> 'b option) \<Rightarrow> ('c heap \<Rightarrow> 'b \<Rightarrow> addr set) \<Rightarrow> 'c heap \<Rightarrow> addr option \<Rightarrow> addr set" where
  "reachRef un r = reachOpt (reachPtr un r)"
definition viewRef :: "('c \<Rightarrow> 'b option) \<Rightarrow> ('c heap \<Rightarrow> 'b \<Rightarrow> 'v) \<Rightarrow> 'c heap \<Rightarrow> addr option \<Rightarrow> 'v option option" where
  "viewRef un v = viewOpt (viewPtr un v)"

lemma deep_copy_ref:
  assumes "deep_copy c r v" and "\<And>x. un (mk x) = Some x"
  shows "deep_copy (ifNotNil (newPtr mk un c)) (reachRef un r) (viewRef un v)"
  unfolding reachRef_def viewRef_def by (rule deep_copy_opt [OF deep_copy_ptr [OF assms]])

text \<open>C27: A deep copy of any of the four kinds of list, and so of every struct in it, equals the original and
  shares no memory with it: whatever is written through the one does not show in the other.\<close>

theorem deep_copies_share_nothing:
  assumes "copy_library lib ex"
  shows "sharesNothing (DeviceClassList_DeepCopy lib) (reachRef asDeviceClassList (reachList asDeviceClasses (reachDeviceClass ex) ex))
      (viewRef asDeviceClassList (viewList asDeviceClasses (viewDeviceClass ex) ex)) \<and>
    sharesNothing (DevicePoolList_DeepCopy lib) (reachRef asDevicePoolList (reachList asDevicePools (reachDevicePool ex) ex))
      (viewRef asDevicePoolList (viewList asDevicePools (viewDevicePool ex) ex)) \<and>
    sharesNothing (DeviceList_DeepCopy lib) (reachRef asDeviceList (reachList asDevices (reachDevice ex) ex))
      (viewRef asDeviceList (viewList asDevices (viewDevice ex) ex)) \<and>
    sharesNothing (DeviceLeaseList_DeepCopy lib) (reachRef asDeviceLeaseList (reachList asDeviceLeases (reachDeviceLease ex) ex))
      (viewRef asDeviceLeaseList (viewList asDeviceLeases (viewDeviceLease ex) ex))"
  using deep_copy_sharesNothing [OF deep_copy_ref [OF copy_library.DeviceClassList_deep [OF assms], of asDeviceClassList CellDeviceClassList]]
    deep_copy_sharesNothing [OF deep_copy_ref [OF copy_library.DevicePoolList_deep [OF assms], of asDevicePoolList CellDevicePoolList]]
    deep_copy_sharesNothing [OF deep_copy_ref [OF copy_library.DeviceList_deep [OF assms], of asDeviceList CellDeviceList]]
    deep_copy_sharesNothing [OF deep_copy_ref [OF copy_library.DeviceLeaseList_deep [OF assms], of asDeviceLeaseList CellDeviceLeaseList]]
  by (simp_all add: DeviceClassList_DeepCopy_def DevicePoolList_DeepCopy_def DeviceList_DeepCopy_def DeviceLeaseList_DeepCopy_def)

subsection \<open>The client's heartbeat\<close>

definition editHeartbeat :: "'x copyLib \<Rightarrow> addr \<Rightarrow> time \<Rightarrow> 'x memory \<Rightarrow> addr option \<times> 'x memory" where
  \<comment> \<open>\<open>patched\<close>, made of the lease read; \<open>now\<close> is allocated because its address is taken\<close>
  "editHeartbeat lib lease now h =
     (let (patched, h) = DeviceLease_DeepCopy lib (Some lease) h;
          (t, h) = reserve h;
          h = store t (CellTime now) h
      in case patched of
           None \<Rightarrow> (None, h)
         | Some p \<Rightarrow>
             (case load asDeviceLease h p of
                None \<Rightarrow> (Some p, h)
              | Some l \<Rightarrow> (Some p, store p (CellDeviceLease (l\<lparr>mlStatus := (mlStatus l)\<lparr>mltLastHeartbeat := Some t\<rparr>\<rparr>)) h)))"

abbreviation "leaseAt ex \<equiv> viewPtr asDeviceLease (viewDeviceLease ex)"

text \<open>C28: The lease the client reads and the copy it edits are two: after the edit the copy shows the lease
  with the new heartbeat time and nothing else changed, and the lease read, the base of the patch, is as it was.\<close>

theorem heartbeat_edits_a_copy:
  assumes "copy_library lib ex" and "reachPtr asDeviceLease (reachDeviceLease ex) h lease \<subseteq> {..<lim h}"
    and "leaseAt ex h lease = Some le" and "editHeartbeat lib lease now h = (patched, h')"
  shows "\<exists>p. patched = Some p \<and> leaseAt ex h' p = Some (le\<lparr>leaseStatus := (leaseStatus le)\<lparr>ltLastHeartbeat := Some now\<rparr>\<rparr>) \<and>
    leaseAt ex h' lease = Some le"
proof -
  note deep = copy_library.DeviceLease_deep [OF assms(1)]
  obtain l0 where l0: "load asDeviceLease h lease = Some l0" "viewDeviceLease ex h l0 = le" using assms(3) by (auto simp: viewPtr_def)
  obtain p h0 where p: "reserve h = (p, h0)" by force
  obtain l h1 where l: "DeviceLease_DeepCopyInto lib l0 h0 = (l, h1)" by force
  let ?h2 = "store p (CellDeviceLease l) h1"
  have copy: "DeviceLease_DeepCopy lib (Some lease) h = (Some p, ?h2)"
    using l0(1) p l by (simp add: DeviceLease_DeepCopy_def ifNotNil_def newPtr_def)
  obtain t h3 where t: "reserve ?h2 = (t, h3)" by force
  note r0 = reserved(1-3) [OF p] and r3 = reserved(1-3) [OF t]
  have b: "reachDeviceLease ex h l0 \<subseteq> {..<lim h}" using assms(2) l0(1) by (simp add: reachPtr_def reachOpt_def)
  from deep_copy.frame_grows [OF deep r0(3) this] have l1: "reachDeviceLease ex h0 l0 = reachDeviceLease ex h l0" "viewDeviceLease ex h0 l0 = le"
    using l0(2) by auto
  with b r0(2) have "reachDeviceLease ex h0 l0 \<subseteq> {..<lim h0}" by auto
  from deep_copy.copies [OF deep this l] l1(2) have 1: "grows h0 h1" "viewDeviceLease ex h1 l = le" "reachDeviceLease ex h1 l \<subseteq> {lim h0..<lim h1}" by auto
  let ?l = "l\<lparr>mlStatus := (mlStatus l)\<lparr>mltLastHeartbeat := Some t\<rparr>\<rparr>"
  have pt: "p < lim h0" "lim h0 \<le> lim h1" "t = lim h1" "p \<noteq> t" using r0 r3(1) 1(1) by (auto simp: grows_def)
  have h3: "cellAt h3 = (cellAt ?h2)(t := None)" "lim h3 = Suc (lim h1)" using t by (auto simp: reserve_def)
  have "load asDeviceLease (store t (CellTime now) h3) p = Some l" using pt(4) by (simp add: load_def store_def h3(1))
  then have h': "patched = Some p" "h' = store p (CellDeviceLease ?l) (store t (CellTime now) h3)"
    using assms(4) copy t by (simp_all add: editHeartbeat_def)
  have cells: "cellAt h' a = cellAt h1 a" if "a \<noteq> p" "a \<noteq> t" for a using that by (simp add: h'(2) store_def h3(1))
  have "sameCells (reachDeviceLease ex h1 l) h1 h'" using cells 1(3) pt by (fastforce simp: sameCells_def)
  from deep_copy.frame [OF deep this] have "viewDeviceLease ex h' l = le" using 1(2) by simp
  moreover have "viewTime h' (Some t) = Some now"
    using pt(4) by (simp add: viewTime_def viewOpt_def viewPtr_def viewFlat_def deref_def load_def h'(2) store_def)
  ultimately have "viewDeviceLease ex h' ?l = le\<lparr>leaseStatus := (leaseStatus le)\<lparr>ltLastHeartbeat := Some now\<rparr>\<rparr>"
    by (auto simp: viewDeviceLease_def viewDeviceLeaseStatus_def)
  moreover have "load asDeviceLease h' p = Some ?l" unfolding h'(2) by simp
  moreover have "leaseAt ex h' lease = Some le"
  proof -
    have "grows h h1" using grows_trans [OF r0(3) 1(1)] .
    then have "grows h h'" using cells pt r0 h3(2) by (auto simp: grows_def sameCells_def h'(2))
    from deep_copy.frame_grows [OF deep_copy_ptr [OF deep, of asDeviceLease CellDeviceLease] this assms(2)] show ?thesis using assms(3) by simp
  qed
  ultimately show ?thesis using h'(1) by (simp add: viewPtr_def)
qed

subsection \<open>Copies as interface values\<close>

definition wraps :: "objectKind \<Rightarrow> (addr option \<Rightarrow> 'c heap \<Rightarrow> addr option \<times> 'c heap) \<Rightarrow> (addr option \<Rightarrow> 'c heap \<Rightarrow> runtimeObject \<times> 'c heap) \<Rightarrow> bool" where
  \<comment> \<open>the nil interface for a nil receiver and only then, never an interface that holds a nil pointer\<close>
  "wraps kind cp f \<longleftrightarrow> (\<forall>p h. f p h = (map_option (\<lambda>a. (kind, Some a)) (fst (cp p h)), snd (cp p h)) \<and> (fst (f p h) = None) = (p = None))"

text \<open>DeepCopyObject hands out the struct that DeepCopy makes, under its own type; it is the nil
  interface exactly for a nil receiver, and never an interface that holds a nil pointer.\<close>

theorem copied_object_is_nil_only_for_nil:
  "wraps KindDevice (Device_DeepCopy lib) (Device_DeepCopyObject lib) \<and>
    wraps KindDeviceList (DeviceList_DeepCopy lib) (DeviceList_DeepCopyObject lib) \<and>
    wraps KindDeviceClass (DeviceClass_DeepCopy lib) (DeviceClass_DeepCopyObject lib) \<and>
    wraps KindDeviceClassList (DeviceClassList_DeepCopy lib) (DeviceClassList_DeepCopyObject lib) \<and>
    wraps KindDeviceLease (DeviceLease_DeepCopy lib) (DeviceLease_DeepCopyObject lib) \<and>
    wraps KindDeviceLeaseList (DeviceLeaseList_DeepCopy lib) (DeviceLeaseList_DeepCopyObject lib) \<and>
    wraps KindDevicePool (DevicePool_DeepCopy lib) (DevicePool_DeepCopyObject lib) \<and>
    wraps KindDevicePoolList (DevicePoolList_DeepCopy lib) (DevicePoolList_DeepCopyObject lib)"
  by (auto simp: wraps_def ifNotNil_def
    DeviceClass_DeepCopyObject_def DeviceClass_DeepCopy_def DeviceClassList_DeepCopyObject_def DeviceClassList_DeepCopy_def
    Device_DeepCopyObject_def Device_DeepCopy_def DeviceList_DeepCopyObject_def DeviceList_DeepCopy_def
    DeviceLease_DeepCopyObject_def DeviceLease_DeepCopy_def DeviceLeaseList_DeepCopyObject_def DeviceLeaseList_DeepCopy_def
    DevicePool_DeepCopyObject_def DevicePool_DeepCopy_def DevicePoolList_DeepCopyObject_def DevicePoolList_DeepCopy_def
    split: prod.split option.split)

subsection \<open>A library that keeps the contract\<close>

text \<open>Library structs with what they keep in memory: two maps (labels and annotations, limits and requests) and
  a slice of strings (finalizers, the command of a probe).\<close>

datatype refData = RefMeta objectMeta | RefList string | RefResources | RefProbe probe | RefToleration toleration | RefCondition condition

record refStruct =
  rsData :: refData
  rsMap1 :: "addr option"
  rsMap2 :: "addr option"
  rsStrings :: "slice option"

definition refCopy :: "refStruct \<Rightarrow> refStruct memory \<Rightarrow> refStruct \<times> refStruct memory" where
  "refCopy inn h =
     (let (a, h) = ifNotNil (newPtr CellStringMap asStringMap flatCopy) (rsMap1 inn) h;
          (b, h) = ifNotNil (newPtr CellStringMap asStringMap flatCopy) (rsMap2 inn) h;
          (s, h) = ifNotNil (newSlice CellStrings asStrings flatCopy) (rsStrings inn) h
      in (inn\<lparr>rsMap1 := a, rsMap2 := b, rsStrings := s\<rparr>, h))"

definition refReach :: "refStruct memory \<Rightarrow> refStruct \<Rightarrow> addr set" where
  "refReach h x = reachOpt (reachPtr asStringMap reachNone) h (rsMap1 x) \<union> (reachOpt (reachPtr asStringMap reachNone) h (rsMap2 x) \<union>
     reachOpt (reachSlice asStrings reachNone) h (rsStrings x))"

definition refView :: "refStruct memory \<Rightarrow> refStruct \<Rightarrow> refData \<times> (string \<rightharpoonup> string) \<times> (string \<rightharpoonup> string) \<times> string list" where
  "refView h x = (let m = (\<lambda>p. case deref (viewOpt (viewPtr asStringMap viewFlat) h p) of None \<Rightarrow> Map.empty | Some f \<Rightarrow> f)
     in (rsData x, m (rsMap1 x), m (rsMap2 x), orNil (viewOpt (viewSlice asStrings viewFlat) h (rsStrings x))))"

lemma refCopy_deep: "deep_copy refCopy refReach refView"
  by (rule deep_copy_structI [where get = "\<lambda>x. (rsMap1 x, rsMap2 x, rsStrings x)" and
      put = "\<lambda>(a, b, s) x. x\<lparr>rsMap1 := a, rsMap2 := b, rsStrings := s\<rparr>" and
      g = "\<lambda>x (a, b, s). (rsData x, case deref a of None \<Rightarrow> Map.empty | Some f \<Rightarrow> f, case deref b of None \<Rightarrow> Map.empty | Some f \<Rightarrow> f, orNil s)",
      OF deep_copy_both [OF deep_copy_opt [OF deep_copy_ptr [OF deep_copy_flat, of asStringMap CellStringMap]]
        deep_copy_both [OF deep_copy_opt [OF deep_copy_ptr [OF deep_copy_flat, of asStringMap CellStringMap]]
          deep_copy_opt [OF deep_copy_slice [OF deep_copy_flat, of asStrings CellStrings]]]]])
    (simp_all add: refCopy_def copyBoth_def refReach_def refView_def reaches views split: prod.split)

fun refMeta :: "refData \<times> (string \<rightharpoonup> string) \<times> (string \<rightharpoonup> string) \<times> string list \<Rightarrow> objectMeta" where
  "refMeta (RefMeta m, a, b, s) = m\<lparr>mLabels := a, mAnnotations := b, mFinalizers := s\<rparr>"
| "refMeta _ = emptyMeta"
fun refListMeta :: "refData \<times> (string \<rightharpoonup> string) \<times> (string \<rightharpoonup> string) \<times> string list \<Rightarrow> string" where
  "refListMeta (RefList v, _) = v"
| "refListMeta _ = []"
fun refResources :: "refData \<times> (string \<rightharpoonup> string) \<times> (string \<rightharpoonup> string) \<times> string list \<Rightarrow> resourceRequirements" where
  "refResources (_, a, b, _) = \<lparr> rrLimits = a, rrRequests = b \<rparr>"
fun refProbe :: "refData \<times> (string \<rightharpoonup> string) \<times> (string \<rightharpoonup> string) \<times> string list \<Rightarrow> probe" where
  "refProbe (RefProbe p, _, _, s) = p\<lparr>prExecCommand := s\<rparr>"
| "refProbe _ = \<lparr> prExecCommand = [], prInitialDelaySeconds = 0, prPeriodSeconds = 0, prTimeoutSeconds = 0, prFailureThreshold = 0 \<rparr>"
fun refToleration :: "refData \<times> (string \<rightharpoonup> string) \<times> (string \<rightharpoonup> string) \<times> string list \<Rightarrow> toleration" where
  "refToleration (RefToleration t, _) = t"
| "refToleration _ = \<lparr> tolKey = [], tolOperator = [], tolValue = [], tolEffect = [] \<rparr>"
fun refCondition :: "refData \<times> (string \<rightharpoonup> string) \<times> (string \<rightharpoonup> string) \<times> string list \<Rightarrow> condition" where
  "refCondition (RefCondition c, _) = c"
| "refCondition _ = \<lparr> cType = [], cStatus = ConditionUnknown, cObservedGeneration = 0, cReason = [], cMessage = [], cLastTransitionTime = zeroTime \<rparr>"

definition refLib :: "refStruct copyLib" where
  "refLib = \<lparr> ObjectMeta_DeepCopyInto = refCopy, ListMeta_DeepCopyInto = refCopy, ResourceRequirements_DeepCopyInto = refCopy,
     Probe_DeepCopyInto = refCopy, Toleration_DeepCopyInto = refCopy, Condition_DeepCopyInto = refCopy,
     Time_DeepCopy = newPtr CellTime asTime flatCopy \<rparr>"

definition refExternal :: "(refStruct, string) external" where
  "refExternal = \<lparr> exReach = refReach, exMeta = (\<lambda>h x. refMeta (refView h x)), exListMeta = (\<lambda>h x. refListMeta (refView h x)),
     exResources = (\<lambda>h x. refResources (refView h x)), exProbe = (\<lambda>h x. refProbe (refView h x)),
     exToleration = (\<lambda>h x. refToleration (refView h x)), exCondition = (\<lambda>h x. refCondition (refView h x)) \<rparr>"

interpretation ref_copies: copy_library refLib refExternal
  by (rule copy_library.intro) (simp_all add: refLib_def refExternal_def deep_copy_view [OF refCopy_deep] deep_copy_ptr [OF deep_copy_flat])

interpretation avd_copies: deep_copy AVDSpec_DeepCopyInto reachAVDSpec viewAVDSpec
  by (rule AVDSpec_deep)

interpretation pool_copies: deep_copy DevicePoolSpec_DeepCopyInto reachDevicePoolSpec viewDevicePoolSpec
  by (rule DevicePoolSpec_deep)

subsection \<open>Witnesses\<close>

lemma deep_copies_share_nothing_witness:
  "sharesNothing (DeviceLeaseList_DeepCopy refLib) (reachRef asDeviceLeaseList (reachList asDeviceLeases (reachDeviceLease refExternal) refExternal))
      (viewRef asDeviceLeaseList (viewList asDeviceLeases (viewDeviceLease refExternal) refExternal))"
  using deep_copies_share_nothing [OF ref_copies.copy_library_axioms] by blast

definition refMemory :: "refStruct memory" where
  \<comment> \<open>a lease at address 2, its finalizers at 0 and its heartbeat at 1\<close>
  "refMemory = \<lparr> lim = 3, cellAt = [0 \<mapsto> CellStrings [''farm.example.com/lease-cleanup''], 1 \<mapsto> CellTime 600000000000,
     2 \<mapsto> CellDeviceLease \<lparr> mlTypeMeta = (''DeviceLease'', ''farm.example.com/v1alpha1''),
       mlObjectMeta = \<lparr> rsData = RefMeta (emptyMeta\<lparr>mName := ''l1'', mNamespace := ''ns''\<rparr>), rsMap1 = None, rsMap2 = None,
         rsStrings = Some \<lparr> slArr = 0, slOff = 0, slLen = 1, slCap = 1 \<rparr> \<rparr>,
       mlSpec = \<lparr> lsClassRef = ''pixel'', lsPoolRef = [], lsRequester = ''ci'', lsTTLSeconds = 300 \<rparr>,
       mlStatus = \<lparr> mltPhase = LeaseBound, mltDeviceRef = ''d1'', mltADBEndpoint = [], mltUIEndpoint = [], mltExpiresAt = None,
         mltLastHeartbeat = Some 1, mltConditions = None \<rparr> \<rparr>] \<rparr>"

lemma heartbeat_edits_a_copy_witness:
  "\<exists>p h' le. fst (editHeartbeat refLib 2 700000000000 refMemory) = Some p \<and> leaseAt refExternal h' 2 = Some le \<and>
     leaseAt refExternal h' p = Some (le\<lparr>leaseStatus := (leaseStatus le)\<lparr>ltLastHeartbeat := Some 700000000000\<rparr>\<rparr>) \<and>
     ltLastHeartbeat (leaseStatus le) = Some 600000000000"
proof -
  obtain patched h' where e: "editHeartbeat refLib 2 700000000000 refMemory = (patched, h')" by force
  have b: "reachPtr asDeviceLease (reachDeviceLease refExternal) refMemory 2 \<subseteq> {..<lim refMemory}"
    by (simp add: reachPtr_def reachOpt_def reachSlice_def reachAll_def reachNone_def reachDeviceLease_def reachDeviceLeaseStatus_def reaches
      refExternal_def refReach_def load_def refMemory_def)
  obtain le where le: "leaseAt refExternal refMemory 2 = Some le" "ltLastHeartbeat (leaseStatus le) = Some 600000000000"
    by (simp add: viewPtr_def viewOpt_def viewFlat_def deref_def viewDeviceLease_def viewDeviceLeaseStatus_def views load_def refMemory_def)
  show ?thesis using heartbeat_edits_a_copy [OF ref_copies.copy_library_axioms b le(1) e] le(2) e by auto
qed

end
