(* ===== verification/Test_Utils.thy ===== *)
theory Test_Utils
  imports Go_Strings
begin

text \<open>
  The utilities of the end-to-end tests, \<^verbatim>\<open>operator/test/utils/utils.go\<close>: commands run in the project
  directory, the installation of cert-manager, and the function that uncomments code in a file. The
  operating system is a parameter, a record of the calls made of packages \<open>os\<close> and \<open>os/exec\<close>; what goes to
  the test log is left out. The lemmas say what \<open>UncommentCode\<close> makes of a file.
\<close>

subsection \<open>Lines\<close>

definition dropCR :: "string \<Rightarrow> string" where
  "dropCR l = (if l \<noteq> [] \<and> last l = CHR 0x0D then butlast l else l)"

definition scanLines :: "string \<Rightarrow> string list" where
  \<comment> \<open>the tokens of a \<open>bufio.Scanner\<close>: lines without their line end, no empty one after the last newline;
      a line that does not fit the buffer of 64 KiB stops the scanner\<close>
  "scanLines s =
     (let ls = splitOn CHR 0x0A s; ls = (if last ls = [] then butlast ls else ls)
      in map dropCR (takeWhile (\<lambda>l. length l < 65536) ls))"

subsection \<open>The operating system\<close>

datatype 'e utilError = Errorf string "'e option"  \<comment> \<open>a message of \<open>fmt.Errorf\<close>, and the error it wraps\<close>

record ('w, 'e) os =
  osGetwd :: "('w, string \<times> 'e option) state"
  osChdir :: "string \<Rightarrow> ('w, 'e option) state"
  osLookupEnv :: "string \<Rightarrow> ('w, string option) state"
  osEnviron :: "('w, string list) state"
  osReadFile :: "string \<Rightarrow> ('w, 'e + string) state"
  osWriteFile :: "string \<Rightarrow> string \<Rightarrow> nat \<Rightarrow> ('w, 'e option) state"
  combinedOutput :: "string \<Rightarrow> string list \<Rightarrow> string list \<Rightarrow> ('w, string \<times> 'e option) state"
    \<comment> \<open>directory, environment and arguments of the command, its name first\<close>
  errorText :: "'e \<Rightarrow> string"

definition certmanagerVersion :: string where "certmanagerVersion = ''v1.20.2''"

definition certmanagerURL :: string where
  "certmanagerURL = ''https://github.com/cert-manager/cert-manager/releases/download/'' @ certmanagerVersion @ ''/cert-manager.yaml''"

definition getProjectDir :: "('w, 'e) os \<Rightarrow> ('w, string \<times> 'e utilError option) state" where
  "getProjectDir os = do {
     (wd, err) \<leftarrow> osGetwd os;
     ret (case err of
            Some e \<Rightarrow> (wd, Some (Errorf (''failed to get current working directory: '' @ errorText os e) (Some e)))
          | None \<Rightarrow> (removeAll wd ''/test/e2e'', None))
   }"

definition runCommand :: "('w, 'e) os \<Rightarrow> string list \<Rightarrow> ('w, string \<times> 'e utilError option) state" where
  \<comment> \<open>\<open>Run\<close>; that the directory cannot be found or entered is only logged\<close>
  "runCommand os args = do {
     (dir, _) \<leftarrow> getProjectDir os;
     _ \<leftarrow> osChdir os dir;
     env \<leftarrow> osEnviron os;
     (out, err) \<leftarrow> combinedOutput os dir (env @ [''GO111MODULE=on'']) args;
     ret (case err of
            Some e \<Rightarrow> (out, Some (Errorf (goQuote (joinWith '' '' args) @ '' failed with error '' @ goQuote out @ '': '' @ errorText os e) (Some e)))
          | None \<Rightarrow> (out, None))
   }"

subsection \<open>Cert-manager and kind\<close>

fun deleteLeases :: "('w, 'e) os \<Rightarrow> string list \<Rightarrow> ('w, unit) state" where
  "deleteLeases os [] = ret ()"
| "deleteLeases os (l # ls) = do {
     _ \<leftarrow> runCommand os [''kubectl'', ''delete'', ''lease'', l, ''-n'', ''kube-system'', ''--ignore-not-found'', ''--force'', ''--grace-period=0''];
     deleteLeases os ls
   }"

definition uninstallCertManager :: "('w, 'e) os \<Rightarrow> ('w, unit) state" where
  \<comment> \<open>an error is only logged\<close>
  "uninstallCertManager os = do {
     _ \<leftarrow> runCommand os [''kubectl'', ''delete'', ''-f'', certmanagerURL];
     deleteLeases os [''cert-manager-cainjector-leader-election'', ''cert-manager-controller'']
   }"

definition installCertManager :: "('w, 'e) os \<Rightarrow> ('w, 'e utilError option) state" where
  "installCertManager os = do {
     (_, err) \<leftarrow> runCommand os [''kubectl'', ''apply'', ''-f'', certmanagerURL];
     (case err of
        Some e \<Rightarrow> ret (Some e)
      | None \<Rightarrow> do {
          (_, err') \<leftarrow> runCommand os [''kubectl'', ''wait'', ''deployment.apps/cert-manager-webhook'', ''--for'', ''condition=Available'',
            ''--namespace'', ''cert-manager'', ''--timeout'', ''5m''];
          ret err'
        })
   }"

definition getNonEmptyLines :: "string \<Rightarrow> string list" where
  "getNonEmptyLines output = filter (\<lambda>l. l \<noteq> []) (splitOn CHR 0x0A output)"

definition certManagerCRDs :: "string list" where
  "certManagerCRDs = [''certificates.cert-manager.io'', ''issuers.cert-manager.io'', ''clusterissuers.cert-manager.io'',
     ''certificaterequests.cert-manager.io'', ''orders.acme.cert-manager.io'', ''challenges.acme.cert-manager.io'']"

definition isCertManagerCRDsInstalled :: "('w, 'e) os \<Rightarrow> ('w, bool) state" where
  "isCertManagerCRDsInstalled os = do {
     (out, err) \<leftarrow> runCommand os [''kubectl'', ''get'', ''crds''];
     ret (case err of
            Some _ \<Rightarrow> False
          | None \<Rightarrow> list_ex (\<lambda>crd. list_ex (\<lambda>line. contains line crd) (getNonEmptyLines out)) certManagerCRDs)
   }"

definition loadImageToKind :: "('w, 'e) os \<Rightarrow> string \<Rightarrow> ('w, 'e utilError option) state" where
  "loadImageToKind os name = do {
     cluster \<leftarrow> osLookupEnv os ''KIND_CLUSTER'';
     binary \<leftarrow> osLookupEnv os ''KIND'';
     (_, err) \<leftarrow> runCommand os [case binary of Some v \<Rightarrow> v | None \<Rightarrow> ''kind'', ''load'', ''docker-image'', name, ''--name'',
       case cluster of Some v \<Rightarrow> v | None \<Rightarrow> ''kind''];
     ret err
   }"

subsection \<open>Uncommenting code\<close>

definition uncommented :: "string \<Rightarrow> string \<Rightarrow> string" where
  \<comment> \<open>what the scanner loop writes for the target\<close>
  "uncommented target prefix = joinWith [CHR 0x0A] (map (\<lambda>l. trimPrefix l prefix) (scanLines target))"

definition uncommentCode :: "('w, 'e) os \<Rightarrow> string \<Rightarrow> string \<Rightarrow> string \<Rightarrow> ('w, 'e utilError option) state" where
  \<comment> \<open>writing to the buffer never fails\<close>
  "uncommentCode os filename target prefix = do {
     r \<leftarrow> osReadFile os filename;
     (case r of
        Inl e \<Rightarrow> ret (Some (Errorf (''failed to read file '' @ goQuote filename @ '': '' @ errorText os e) (Some e)))
      | Inr content \<Rightarrow>
          (case indexOf content target of
             None \<Rightarrow> ret (Some (Errorf (''unable to find the code '' @ goQuote target @ '' to be uncommented'') None))
           | Some idx \<Rightarrow>
               if scanLines target = [] then ret None
               else do {
                 err \<leftarrow> osWriteFile os filename (take idx content @ uncommented target prefix @ drop (idx + length target) content) 420;
                 ret (case err of
                        Some e \<Rightarrow> Some (Errorf (''failed to write file '' @ goQuote filename @ '': '' @ errorText os e) (Some e))
                      | None \<Rightarrow> None)
               }))
   }"

subsection \<open>What uncommenting makes of a file\<close>

definition plainLine :: "string \<Rightarrow> bool" where
  "plainLine l \<longleftrightarrow> l \<noteq> [] \<and> CHR 0x0A \<notin> set l \<and> last l \<noteq> CHR 0x0D \<and> length l < 65536"

lemma scanLines_plain:
  assumes "ls \<noteq> []" and "list_all plainLine ls" and nl: "nl = [] \<or> nl = [CHR 0x0A]"
  shows "scanLines (joinWith [CHR 0x0A] ls @ nl) = ls"
proof -
  have "last ls \<noteq> []" using assms(1,2) by (simp add: plainLine_def list_all_iff)
  moreover have "splitOn CHR 0x0A (joinWith [CHR 0x0A] ls @ nl) = (if nl = [] then ls else ls @ [[]])"
    using nl splitOn_joinWith [OF assms(1), of "CHR 0x0A"] splitOn_joinWith_end [OF assms(1), of "CHR 0x0A"] assms(2)
    by (auto simp: list_all_iff plainLine_def)
  moreover have "takeWhile (\<lambda>l. length l < 65536) ls = ls" "map dropCR ls = ls"
    using assms(2) by (auto simp: takeWhile_eq_all_conv list_all_iff plainLine_def dropCR_def intro!: map_idI)
  ultimately show ?thesis unfolding scanLines_def Let_def by (cases "nl = []") (simp_all del: takeWhile_eq_all_conv)
qed

lemma trimPrefix_append [simp]: "trimPrefix (p @ l) p = l"
  by (simp add: trimPrefix_def hasPrefix_append)

text \<open>C30: Uncommenting a block of lines that all start with the prefix writes the file once, with the block's
  first occurrence replaced by its lines without the prefix and all else as it was; but when the target
  ends with a newline, that newline is lost, so the last line runs into what follows.\<close>

theorem uncommentCode_restores:
  assumes "run_state (osReadFile os file) w = (Inr content, w1)" and "indexOf content target = Some i"
    and "target = joinWith [CHR 0x0A] (map (\<lambda>l. prefix @ l) ls) @ nl" and "nl = [] \<or> nl = [CHR 0x0A]"
    and "ls \<noteq> []" and "list_all (\<lambda>l. plainLine (prefix @ l)) ls"
    and "run_state (osWriteFile os file (take i content @ joinWith [CHR 0x0A] ls @ drop (i + length target) content) 420) w1 = (None, w2)"
  shows "run_state (uncommentCode os file target prefix) w = (None, w2) \<and>
    content = take i content @ target @ drop (i + length target) content \<and> (\<forall>j < i. \<not> hasPrefix target (drop j content))"
proof -
  have "scanLines target = map (\<lambda>l. prefix @ l) ls"
    unfolding assms(3) by (rule scanLines_plain) (use assms(4-6) in \<open>auto simp: list_all_iff\<close>)
  moreover from this have "uncommented target prefix = joinWith [CHR 0x0A] ls"
    by (simp add: uncommented_def comp_def)
  ultimately have "run_state (uncommentCode os file target prefix) w = (None, w2)"
    using assms(1,2,5,7) by (simp add: uncommentCode_def)
  then show ?thesis using indexOf_occurs [OF assms(2)] indexOf_first [OF assms(2)] by simp
qed

definition oneFile :: "(string, string) os" where
  \<comment> \<open>an operating system with a single file, that runs no commands\<close>
  "oneFile = \<lparr> osGetwd = ret (''/'', None), osChdir = (\<lambda>_. ret None), osLookupEnv = (\<lambda>_. ret None), osEnviron = ret [],
     osReadFile = (\<lambda>_. State (\<lambda>c. (Inr c, c))), osWriteFile = (\<lambda>_ s _. State (\<lambda>_. (None, s))),
     combinedOutput = (\<lambda>_ _ _. ret ([], None)), errorText = (\<lambda>e. e) \<rparr>"

lemma uncommentCode_restores_witness:
  "run_state (uncommentCode oneFile ''f'' (''#b'' @ [CHR 0x0A] @ ''#c'' @ [CHR 0x0A]) ''#'') (''a'' @ [CHR 0x0A] @ ''#b'' @ [CHR 0x0A] @ ''#c'' @ [CHR 0x0A] @ ''d'') =
     (None, ''a'' @ [CHR 0x0A] @ ''b'' @ [CHR 0x0A] @ ''cd'')"
  using uncommentCode_restores [of oneFile "''f''" "''a'' @ [CHR 0x0A] @ ''#b'' @ [CHR 0x0A] @ ''#c'' @ [CHR 0x0A] @ ''d''"
      "''a'' @ [CHR 0x0A] @ ''#b'' @ [CHR 0x0A] @ ''#c'' @ [CHR 0x0A] @ ''d''" "''a'' @ [CHR 0x0A] @ ''#b'' @ [CHR 0x0A] @ ''#c'' @ [CHR 0x0A] @ ''d''"
      "''#b'' @ [CHR 0x0A] @ ''#c'' @ [CHR 0x0A]" 2 "''#''" "[''b'', ''c'']" "[CHR 0x0A]"
      "''a'' @ [CHR 0x0A] @ ''b'' @ [CHR 0x0A] @ ''cd''"]
  by (simp add: oneFile_def plainLine_def numeral_2_eq_2)

end
