(* ===== verification/Spec2Isabelle.thy ===== *)
theory Spec2Isabelle
  imports Binding Validating Sequential Pool_Plan Hazards Registration Schema_Safety Deep_Copy_Laws Test_Utils
begin

text \<open>
  An operator that runs a farm of Android devices on Kubernetes, and its lease client.

  \<^bold>\<open>The program.\<close> Four custom resources (\<^verbatim>\<open>operator/api/v1alpha1\<close>) describe the farm. A DeviceClass is a
  kind of device, a DevicePool keeps devices of some classes warm within \<^verbatim>\<open>maxConcurrent\<close>, a Device is one
  emulator (a pod with an adb Service) or one piece of hardware, and a DeviceLease is a claim on a device
  that heartbeats keep alive. Three controllers (\<^verbatim>\<open>operator/internal/controller\<close>) act on them through the
  API server and share nothing else: the pool controller creates Devices, the device controller backs a
  Device with its pod, Service and registration Job and derives its phase, the lease controller binds,
  expires and releases. The field \<^verbatim>\<open>status.leaseRef\<close> of a Device is the single binding signal, written
  under the server's optimistic concurrency. \<^verbatim>\<open>operator/cmd/main.go\<close> starts the controllers and
  \<^verbatim>\<open>client/main.go\<close> (\<open>farmctl\<close>) creates, heartbeats and deletes leases.

  \<^bold>\<open>The model.\<close> A Go struct is a record, a string enumeration a datatype, \<open>int32\<close> and \<open>int64\<close> are words read as
  signed, an instant the integer number of its nanoseconds, an error return the left summand of
  \<open>goError + 'a\<close>. A function that calls the API server is a state transformer over an arbitrary world
  \<open>'w\<close>, given the client as a record of operations (\<open>Kube\<close>); log output is left out.
  \<^item> \<open>Prelude\<close>, \<open>Go_Std\<close>, \<open>Go_Strings\<close>, \<open>Go_Time\<close>: words, the monad, decimal numbers, strings, durations and RFC3339 times.
  \<^item> \<open>Api_Types\<close>: the resources, field by field; \<open>Kube\<close>: the client, and \<open>traced\<close>, the client that also
    records each call with its result; \<open>Contracts\<close>: what is documented of the library functions
    (locales \<open>status_conditions\<close>, \<open>finalizers\<close>, \<open>owner_references\<close>).
  \<^item> \<open>Device_Controller\<close>, \<open>Pool_Controller\<close>, \<open>Lease_Controller\<close>: the files of the same names, function by
    function, with what the latter two share in \<open>Capacity\<close>; \<open>Wiring\<close>: the three \<^verbatim>\<open>SetupWithManager\<close>;
    \<open>Operator\<close>: \<^verbatim>\<open>cmd/main.go\<close>; \<open>Farmctl\<close>: \<^verbatim>\<open>client/main.go\<close>; \<open>Registration\<close>: \<^verbatim>\<open>groupversion_info.go\<close>, the \<open>init\<close>
    functions of the types and of the operator, and the client's \<open>newClient\<close>; \<open>Test_Utils\<close>: \<^verbatim>\<open>test/utils/utils.go\<close>, over
    the operating system as a record of calls.
  \<^item> \<open>Go_Heap\<close>, \<open>Deep_Copy\<close>: memory with pointers and slices, and over it the generated copies of
    \<^verbatim>\<open>zz_generated.deepcopy.go\<close>, function by function.
  \<^item> The API server is not under \<^verbatim>\<open>src\<close>: the definitions take its client as a parameter, and a theorem states as
    a contract, a locale, what it relies on. \<open>Cluster\<close>: a reference server \<open>mem\<close> over lists of objects, which
    shows that the contracts can be met and which \<open>Unreliable\<close> and \<open>Validating\<close> weaken and sharpen to other servers;
    \<open>Demo\<close>: a small farm for the witnesses.

  \<^bold>\<open>What is proved.\<close>
  \<^item> \<open>Policy\<close> is the technique of the safety theorems: a policy says of each call whether the calls made
    before it in the run permit it. \<open>Lease_Safety\<close>, \<open>Device_Safety\<close> and \<open>Pool_Safety\<close> prove, rule by rule
    through the controller, that every run obeys its policy against every client, so whatever the
    cluster, other actors and stale caches do. \<open>Lease_Properties\<close>, \<open>Device_Properties\<close> and
    \<open>Pool_Properties\<close> read off what may be bound, freed, evicted, created, reported or deleted and when,
    beside the arithmetic: the TTL and the backoff at their width, the counting loops as sizes of
    filtered lists, the warm loop as an exact count, the recovery annotations as a round trip.
  \<^item> \<open>Binding\<close> composes the controllers: an abstract device store with optimistic concurrency and arbitrarily
    stale reads, in which a device passes from one lease to another only through the release by the
    first; and the refinement theorem that the controllers write nothing but steps of that store.
  \<^item> \<open>Convergence\<close> gives the other half: against a server that answers, one undisturbed run binds a waiting
    lease, recycles the device of an expired one, lets a deleted one go. The locale \<open>api_server\<close> is the
    interface, interpreted on \<open>mem\<close>. \<open>Boot\<close> extends it to \<open>farm_server\<close> by the objects a device is made
    of: a Device gets its pod, a Ready pod makes it usable, and a waiting lease is then bound to it. That server
    accepts only valid new objects, so the names of the devices must be short enough for their Services and Jobs.
    \<open>Cold_Start\<close> starts one step earlier, from a class without devices: the lease run provisions the device, and
    two runs of each controller later the lease is Bound to that device. \<open>Validating\<close>: a server that rejects what is
    not valid meets this contract, and at once the one under which a device with too long a name never boots.
    \<open>Frames\<close>: what every call keeps, every run keeps.
  \<^item> \<open>Sequential\<close>: the farm as a state machine whose steps are whole runs of the controllers and of \<open>farmctl\<close>, and
    anything else in the cluster that leaves the bindings alone. The server is any of the contract \<open>unreliable\<close>
    (\<open>Unreliable\<close>): a call answers as \<open>mem\<close> does, so its reads are up to date and the names and versions it gives out
    are those of \<open>mem\<close>, or it returns an error, whether it was refused or carried out. In every state reached no device is kept
    for a lease that is gone, no lease holds two, no pool exceeds \<open>maxConcurrent\<close>, a Bound lease has its device and no two share
    one; from the last two are excepted the leases, collected in a set \<open>K\<close>, for which a run that found them Bound ended with an
    error. \<open>Farm_Invariant\<close> has the invariant and the device controller's runs, \<open>Farm_Leases\<close> and \<open>Farm_Pools\<close> those of
    the other two, call by call as triples (\<open>Hoare\<close>) proved on \<open>mem\<close> and carried over to the contract, which is
    interpreted on \<open>mem\<close> and on \<open>flaky\<close>, \<open>mem\<close> behind a list of faults; the locale \<open>waiting_poll\<close> is what a client that
    waits asks of its polling loop. Runs that overlap are what \<open>Binding\<close> covers.
  \<^item> \<open>Hazards\<close>: that exception is needed. A release whose pod deletion fails leaves a Bound lease that no device carries,
    on every server of \<open>api_server\<close>, and no later run deletes that pod.
  \<^item> \<open>Pool_Plan\<close>: a pool run creates exactly what the reference \<open>warmPlan\<close> computes over unbounded integers.
  \<^item> \<open>Deep_Copy_Laws\<close>: a deep copy shows what the original shows and shares no memory with it. The locale
    \<open>deep_copy\<close> is kept by every way of building a copy from others; \<open>copy_library\<close> is what the copies of library
    structs promise, interpreted on \<open>refLib\<close>. A struct in memory shows its record of \<open>Api_Types\<close>, and the
    client's heartbeat, which edits a copy, is shown to do on memory what \<open>Farmctl\<close> says of records.
  \<^item> \<open>Schema\<close> and \<open>Schema_Safety\<close>: type soundness. A judgment on programs, with a rule for each construct and each
    call, shows that a run answered with objects of the form the server stores submits only objects of the form
    it accepts, but for two explicit exceptions: what is named after a device whose valid name is too long, and a Device of a pool
    or class whose valid name is no label. The locale \<open>schema_client\<close> is the contract, interpreted on \<open>mem\<close>. A device
    with too long a name is stuck for good.
  \<^item> \<open>Registration\<close>: every kind a call exchanges is known to the scheme, over the locale \<open>scheme_library\<close>.
  \<^item> \<open>Wiring\<close>: which events wake which controller, over the contracts \<open>event_handlers\<close> (an owned object's events wake
    its controller owner only) and \<open>owner_references\<close>. \<open>Operator\<close>: the servers' TLS options and the start-up.
    \<open>Farmctl_Properties\<close>: the three commands, over the contract \<open>polling\<close>.
  \<^item> \<open>Test_Utils\<close>: what \<open>UncommentCode\<close> makes of a file, on top of the laws of \<open>Go_Strings\<close>.

  \<^bold>\<open>Bounds.\<close> No loop of the controllers needs fuel: they run over lists, and the warm loop has the distance to
  \<^verbatim>\<open>minWarm\<close> as its measure. The lists of a run are assumed short enough for 32-bit counters only where a
  theorem says so. The polling loop \<open>memPoll\<close> of the reference server runs once per interval of its
  timeout, and once more.

  \<^bold>\<open>Not modelled.\<close> The manager, the caches and the work
  queue of controller-runtime, flag parsing, logging, the tests themselves, charts, images and host
  scripts. Outside \<open>Deep_Copy\<close> values of the Go program are records, so aliasing between an object and the
  copy a client call refreshes is resolved in the definitions: a call returns the refreshed object, which
  the rest of the function uses.
\<close>

end
